theory Spec2Isabelle
  imports Complex_Main
begin

section \<open>Conventions\<close>

text \<open>
  The two scenes (\<^verbatim>\<open>src/app/curtain/CurtainScene.tsx\<close> and
  \<^verbatim>\<open>src/app/cloth/ClothScene.tsx\<close>) are closures over mutable variables. Each scene
  is modelled as a record of those variables together with the objects they point to; every
  function of the source becomes a function from state to state.

  \<^item> A JavaScript number is modelled as a \<^typ>\<open>real\<close>: arithmetic is exact, rounding of
    doubles (and of the 32-bit entries of a vertex buffer) is not modelled.
  \<^item> A nullable variable is an \<^typ>\<open>'a option\<close>.
  \<^item> An object that several variables point to lives in a store (a list); a reference is its
    index, and a new object is appended.
  \<^item> A \<^verbatim>\<open>throw\<close> is the left injection of a sum; the state reached at the throw is
    kept, since an exception undoes no assignment.
\<close>

type_synonym vec3 = "real \<times> real \<times> real"

type_synonym quat = "real \<times> real \<times> real \<times> real"

datatype error =
  GraphicsNotReady
  | ScriptLoadFailed
  | AmmoInitFailed
  | AmmoLoaderNotFound
  | TypeError
  | NodeIndexOutOfRange

text \<open>Sequencing of two steps, the second skipped when the first throws.\<close>

definition andThen ::
  "(error + 'a) \<times> 's \<Rightarrow> ('a \<Rightarrow> 's \<Rightarrow> (error + 'b) \<times> 's) \<Rightarrow> (error + 'b) \<times> 's" where
  "andThen r f = (case r of (Inl e, s) \<Rightarrow> (Inl e, s) | (Inr a, s) \<Rightarrow> f a s)"

section \<open>Easing\<close>

text \<open>\<^verbatim>\<open>const easeOutCubic = (t: number) => 1 - Math.pow(1 - t, 3);\<close>\<close>

definition easeOutCubic :: "real \<Rightarrow> real" where
  "easeOutCubic t = 1 - (1 - t) ^ 3"

section \<open>Objects of the rendering engine\<close>

text \<open>
  Only what the scenes read or write is kept of the rendering engine's objects. Materials,
  lights and shadows are not modelled.
\<close>

record buffer_attribute =
  array :: "real list"
  needsUpdate :: bool

text \<open>
  A plane geometry holds the references of its position and normal attributes in the store
  of attributes. The buffers of a box are never read by the scenes and are left out.
\<close>

datatype geometry =
  BoxGeometry real real real
  | PlaneGeometry nat nat

definition getAttribute :: "geometry \<Rightarrow> string \<Rightarrow> nat option" where
  "getAttribute g name =
     (case g of
        BoxGeometry w h d \<Rightarrow> None
      | PlaneGeometry p n \<Rightarrow>
          (if name = ''position'' then Some p
           else if name = ''normal'' then Some n
           else None))"

record mesh =
  position :: vec3
  quaternion :: quat
  geometry :: geometry
  physicsBody :: "nat option"

record camera =
  fov :: real
  aspect :: real
  near :: real
  far :: real
  camPosition :: vec3

record renderer =
  rendererSize :: "real \<times> real"
  pixelRatio :: real
  opacity :: string
  disposed :: bool
  framesRendered :: nat

record scene_graph =
  children :: "nat list"
  lights :: nat

text \<open>
  Modelled from the spec: the rendering engine's plane geometry is not part of the sources.
  The spec (4.3) fixes the length of the vertex buffer of a patch built with \<open>segX\<close>,
  \<open>segY\<close> subdivisions at \<open>(segX+1)*(segY+1)*3\<close>, one triplet per grid vertex, row by row;
  the plane is centred at the origin and the first row is the top one.
\<close>

definition planeVertices :: "real \<Rightarrow> real \<Rightarrow> nat \<Rightarrow> nat \<Rightarrow> real list" where
  "planeVertices width height gridX gridY =
     concat (map (\<lambda>iy.
       concat (map (\<lambda>ix.
         [real ix * (width / real gridX) - width / 2,
          - (real iy * (height / real gridY) - height / 2),
          0])
         [0..<gridX + 1]))
       [0..<gridY + 1])"

definition planeNormals :: "nat \<Rightarrow> nat \<Rightarrow> real list" where
  "planeNormals gridX gridY = concat (replicate ((gridX + 1) * (gridY + 1)) [0, 0, 1])"

text \<open>\<^verbatim>\<open>geometry.translate(x, y, z)\<close> and \<^verbatim>\<open>geometry.rotateY(angle)\<close> move every vertex.\<close>

fun translate :: "vec3 \<Rightarrow> real list \<Rightarrow> real list" where
  "translate (tx, ty, tz) (x # y # z # rest) = (x + tx) # (y + ty) # (z + tz) # translate (tx, ty, tz) rest"
| "translate t rest = rest"

fun rotateY :: "real \<Rightarrow> real list \<Rightarrow> real list" where
  "rotateY a (x # y # z # rest) =
     (cos a * x + sin a * z) # y # (cos a * z - sin a * x) # rotateY a rest"
| "rotateY a rest = rest"

section \<open>Objects of the physics engine\<close>

text \<open>
  The physics engine is a library outside the sources. Its objects are records of the
  attributes the spec lists for them (3, 6): a rigid body has a pose, two velocities and an
  activation flag, a soft body has a grid of nodes with a position and a force each.
\<close>

record rigid_body =
  mass :: real
  origin :: vec3
  rotation :: quat
  linearVelocity :: vec3
  angularVelocity :: vec3
  active :: bool
  deactivationDisabled :: bool

definition setWorldTransform :: "vec3 \<Rightarrow> quat \<Rightarrow> rigid_body \<Rightarrow> rigid_body" where
  "setWorldTransform o' q b = b\<lparr>origin := o', rotation := q\<rparr>"

definition setLinearVelocity :: "vec3 \<Rightarrow> rigid_body \<Rightarrow> rigid_body" where
  "setLinearVelocity v b = b\<lparr>linearVelocity := v\<rparr>"

definition setAngularVelocity :: "vec3 \<Rightarrow> rigid_body \<Rightarrow> rigid_body" where
  "setAngularVelocity v b = b\<lparr>angularVelocity := v\<rparr>"

text \<open>
  \<^verbatim>\<open>body.activate()\<close>, called without \<^verbatim>\<open>forceActivation\<close>: the engine wakes the body
  unless it is a static or kinematic object, and a rigid body constructed with mass 0 is a
  static object. \<^verbatim>\<open>addRigidBody\<close> puts a static body to sleep when it enters the world,
  so a body of mass 0 is built with \<open>active = False\<close> below.
\<close>

definition activate :: "rigid_body \<Rightarrow> rigid_body" where
  "activate b = (if mass b = 0 then b else b\<lparr>active := True\<rparr>)"

record node =
  m_x :: vec3
  m_f :: vec3

record soft_body =
  m_nodes :: "node list"
  viterations :: nat
  piterations :: nat
  totalMass :: real
  collisionMargin :: real
  activationState :: nat
  anchors :: "(nat \<times> nat option \<times> real) list"

record physics_world =
  worldGravity :: vec3
  rigidRefs :: "nat list"
  softRefs :: "nat list"
  constraints :: nat

definition lerp :: "vec3 \<Rightarrow> vec3 \<Rightarrow> real \<Rightarrow> vec3" where
  "lerp a b t =
     (case a of (ax, ay, az) \<Rightarrow> case b of (bx, by, bz) \<Rightarrow>
        (ax + (bx - ax) * t, ay + (by - ay) * t, az + (bz - az) * t))"

text \<open>
  Modelled from the spec: the engine's patch constructor is not part of the sources. The
  spec (3) describes a deformable patch as a grid of \<open>resx\<close> by \<open>resy\<close> mass points spanning
  the four corners; node \<open>ix + iy * resx\<close> is the one of column \<open>ix\<close> and row \<open>iy\<close>.
\<close>

definition CreatePatch :: "vec3 \<Rightarrow> vec3 \<Rightarrow> vec3 \<Rightarrow> vec3 \<Rightarrow> nat \<Rightarrow> nat \<Rightarrow> node list" where
  "CreatePatch c00 c01 c10 c11 resx resy =
     map (\<lambda>k.
       let ix = k mod resx; iy = k div resx;
           ty = real iy / real (resy - 1); tx = real ix / real (resx - 1)
       in \<lparr>m_x = lerp (lerp c00 c10 ty) (lerp c01 c11 ty) tx, m_f = (0, 0, 0)\<rparr>)
       [0..<resx * resy]"

text \<open>
  The calls that change the engine's state are recorded in program order: the pose and
  velocity setters of a rigid body (by reference), the simulation step with its elapsed time
  and sub-step count, a force added to a node of a soft body, and the hinge motor.
\<close>

datatype call =
  SetWorldTransform nat vec3 quat
  | SetLinearVelocity nat vec3
  | SetAngularVelocity nat vec3
  | Activate nat
  | StepSimulation real nat
  | AddForce nat nat vec3
  | EnableAngularMotor bool real real

text \<open>
  The two library functions whose results the scenes only pass along are parameters of the
  model: the simulation step, which maps the engine's bodies to their state after the given
  time, and the recomputation of the normals of a geometry from its positions.
\<close>

record libs =
  stepSimulation ::
    "real \<Rightarrow> nat \<Rightarrow> physics_world \<Rightarrow> rigid_body list \<times> soft_body list
       \<Rightarrow> rigid_body list \<times> soft_body list"
  computeVertexNormals :: "geometry \<Rightarrow> real list \<Rightarrow> real list"

section \<open>The page and the variables shared by the scenes\<close>

datatype handler = OnResize | OnScroll | OnWindowResize | Keydown | Keyup

definition addEventListener ::
  "string \<Rightarrow> handler \<Rightarrow> (string \<times> handler) list \<Rightarrow> (string \<times> handler) list" where
  "addEventListener ty h ls = (if (ty, h) \<in> set ls then ls else ls @ [(ty, h)])"

definition removeEventListener ::
  "string \<Rightarrow> handler \<Rightarrow> (string \<times> handler) list \<Rightarrow> (string \<times> handler) list" where
  "removeEventListener ty h ls = filter (\<lambda>l. l \<noteq> (ty, h)) ls"

text \<open>
  The environment of a mounted scene: the page (container, window size, scroll offset,
  registered listeners, frame callbacks requested and not yet run, errors logged to the
  console), the stores of objects, and the record of engine calls.
\<close>

record env =
  container :: bool
  innerWidth :: real
  innerHeight :: real
  devicePixelRatio :: real
  scrollY :: real
  listeners :: "(string \<times> handler) list"
  frameRequests :: nat
  consoleErrors :: "error list"
  meshes :: "mesh list"
  attrs :: "buffer_attribute list"
  rigid :: "rigid_body list"
  soft :: "soft_body list"
  engineLog :: "call list"

text \<open>The variables both scenes declare; \<open>AmmoLib\<close> is true once it holds the loaded module.\<close>

record scene_state = env +
  renderer :: "renderer option"
  scene :: "scene_graph option"
  camera :: "camera option"
  AmmoLib :: bool
  physicsWorld :: "physics_world option"

definition sceneAdd ::
  "nat \<Rightarrow> 'a scene_state_scheme \<Rightarrow> (error + unit) \<times> 'a scene_state_scheme" where
  "sceneAdd m st =
     (case scene st of
        None \<Rightarrow> (Inl TypeError, st)
      | Some g \<Rightarrow> (Inr (), st\<lparr>scene := Some (g\<lparr>children := children g @ [m]\<rparr>)\<rparr>))"

text \<open>\<^verbatim>\<open>renderer.render(scene, camera)\<close> presents one frame.\<close>

definition render :: "renderer \<Rightarrow> renderer" where
  "render r = r\<lparr>framesRendered := framesRendered r + 1\<rparr>"

text \<open>An error that reaches a \<^verbatim>\<open>catch\<close> or the top of a callback ends on the console.\<close>

definition catchAndLog :: "(error + unit) \<times> 'a env_scheme \<Rightarrow> 'a env_scheme" where
  "catchAndLog r =
     (case r of
        (Inl e, st) \<Rightarrow> st\<lparr>consoleErrors := consoleErrors st @ [e]\<rparr>
      | (Inr u, st) \<Rightarrow> st)"

text \<open>
  The copy loop shared by both scenes (\<^verbatim>\<open>CurtainScene.tsx\<close> lines 335-341,
  \<^verbatim>\<open>ClothScene.tsx\<close> lines 455-462):
  \<^verbatim>\<open>let i3 = 0;
  for (let i = 0; i < numVerts; i++) {
    const p = nodes.at(i).get_m_x();
    arr[i3++] = p.x(); arr[i3++] = p.y(); arr[i3++] = p.z();
  }\<close>
  with \<^verbatim>\<open>numVerts = arr.length / 3\<close>, a quotient that need not be whole. A write past the
  end of a typed array is dropped, as \<open>list_update\<close> does. The engine does not check the index
  of \<^verbatim>\<open>nodes.at\<close>; the model reports a read past the last node as an error.
\<close>

function syncLoop ::
  "node list \<Rightarrow> nat \<Rightarrow> nat \<Rightarrow> real list \<Rightarrow> (error + unit) \<times> real list" where
  "syncLoop nodes i i3 arr =
     (if real i < real (length arr) / 3 then
        (if i < length nodes then
           (case m_x (nodes ! i) of (px, py, pz) \<Rightarrow>
              syncLoop nodes (i + 1) (i3 + 3) (arr[i3 := px, i3 + 1 := py, i3 + 2 := pz]))
         else (Inl NodeIndexOutOfRange, arr))
      else (Inr (), arr))"
  by pat_completeness auto
termination
  by (relation "measure (\<lambda>(nodes, i, i3, arr). length arr - 3 * i)") auto

declare syncLoop.simps [simp del]

text \<open>\<^verbatim>\<open>n.get_m_f().op_add(force)\<close> on node \<open>idx\<close> of soft body \<open>s\<close>.\<close>

definition addForce :: "nat \<Rightarrow> nat \<Rightarrow> vec3 \<Rightarrow> 'a env_scheme \<Rightarrow> 'a env_scheme" where
  "addForce s idx force st =
     (let body = soft st ! s;
          n = m_nodes body ! idx;
          f = (case m_f n of (fx, fy, fz) \<Rightarrow> case force of (gx, gy, gz) \<Rightarrow>
                 (fx + gx, fy + gy, fz + gz))
      in st\<lparr>soft := (soft st)[s := body\<lparr>m_nodes := (m_nodes body)[idx := n\<lparr>m_f := f\<rparr>]\<rparr>],
            engineLog := engineLog st @ [AddForce s idx force]\<rparr>)"

text \<open>\<^verbatim>\<open>mesh.geometry.computeVertexNormals()\<close>: the normals are rebuilt from the positions.\<close>

definition recomputeNormals :: "libs \<Rightarrow> geometry \<Rightarrow> 'a env_scheme \<Rightarrow> 'a env_scheme" where
  "recomputeNormals L g st =
     (case g of
        BoxGeometry w h d \<Rightarrow> st
      | PlaneGeometry p n \<Rightarrow>
          st\<lparr>attrs := (attrs st)[n := (attrs st ! n)
                \<lparr>array := computeVertexNormals L g (array (attrs st ! p))\<rparr>]\<rparr>)"

text \<open>\<^verbatim>\<open>attr.needsUpdate = true\<close> on the attribute \<open>a\<close>.\<close>

definition markDirty :: "nat \<Rightarrow> 'a env_scheme \<Rightarrow> 'a env_scheme" where
  "markDirty a st = st\<lparr>attrs := (attrs st)[a := (attrs st ! a)\<lparr>needsUpdate := True\<rparr>]\<rparr>"

text \<open>\<^verbatim>\<open>mesh.userData.physicsBody = body\<close> on the mesh \<open>m\<close>.\<close>

definition setPhysicsBody :: "nat \<Rightarrow> nat \<Rightarrow> 'a env_scheme \<Rightarrow> 'a env_scheme" where
  "setPhysicsBody m body st =
     st\<lparr>meshes := (meshes st)[m := (meshes st ! m)\<lparr>physicsBody := Some body\<rparr>]\<rparr>"

section \<open>The curtain scene\<close>

text \<open>The variables of \<^verbatim>\<open>CurtainScene.tsx\<close>, lines 29-60.\<close>

record curtain_state = scene_state +
  leftCloth :: "nat option"
  rightCloth :: "nat option"
  leftPosAttr :: "nat option"
  rightPosAttr :: "nat option"
  leftRodMesh :: "nat option"
  rightRodMesh :: "nat option"
  leftRodStartX :: real
  rightRodStartX :: real
  slideDistance :: real
  scrollProgress :: real

definition segX :: nat where "segX = 40"

definition segY :: nat where "segY = 50"

definition gravity :: real where "gravity = - 9.8"

definition margin :: real where "margin = 0.05"

definition maxScrollPx :: real where "maxScrollPx = 600"

definition tinyAssistForce :: real where "tinyAssistForce = 3"

definition assertReady :: "curtain_state \<Rightarrow> (error + unit) \<times> curtain_state" where
  "assertReady st =
     (if scene st = None \<or> camera st = None \<or> renderer st = None
      then (Inl GraphicsNotReady, st) else (Inr (), st))"

definition onResize :: "curtain_state \<Rightarrow> curtain_state" where
  "onResize st =
     (case renderer st of None \<Rightarrow> st
      | Some r \<Rightarrow>
        (case camera st of None \<Rightarrow> st
         | Some c \<Rightarrow>
           st\<lparr>camera := Some (c\<lparr>aspect := innerWidth st / innerHeight st\<rparr>),
              renderer := Some (r\<lparr>rendererSize := (innerWidth st, innerHeight st)\<rparr>)\<rparr>))"

definition onScroll :: "curtain_state \<Rightarrow> curtain_state" where
  "onScroll st = st\<lparr>scrollProgress := max 0 (min 1 (scrollY st / maxScrollPx))\<rparr>"

definition initGraphics :: "curtain_state \<Rightarrow> curtain_state" where
  "initGraphics st =
     (if \<not> container st then st
      else st\<lparr>scene := Some \<lparr>children = [], lights = 2\<rparr>,
              camera := Some \<lparr>fov = 60, aspect = innerWidth st / innerHeight st,
                              near = 0.1, far = 2000, camPosition = (0, 0, 8)\<rparr>,
              renderer := Some \<lparr>rendererSize = (innerWidth st, innerHeight st),
                                pixelRatio = devicePixelRatio st, opacity = [],
                                disposed = False, framesRendered = 0\<rparr>,
              listeners := addEventListener ''scroll'' OnScroll
                             (addEventListener ''resize'' OnResize (listeners st))\<rparr>)"

definition initPhysics :: "curtain_state \<Rightarrow> curtain_state" where
  "initPhysics st =
     st\<lparr>physicsWorld :=
          Some \<lparr>worldGravity = (0, gravity, 0), rigidRefs = [], softRefs = [],
                constraints = 0\<rparr>\<rparr>"

definition computeViewSize :: "curtain_state \<Rightarrow> (error + real \<times> real) \<times> curtain_state" where
  "computeViewSize st0 =
     andThen (assertReady st0) (\<lambda>u st.
       case camera st of
         None \<Rightarrow> (Inl TypeError, st)
       | Some cam \<Rightarrow>
           let dist = snd (snd (camPosition cam));
               vFov = fov cam * pi / 180;
               viewH = 2 * tan (vFov / 2) * dist;
               viewW = viewH * aspect cam
           in (Inr (viewW, viewH), st))"

text \<open>
  \<^verbatim>\<open>createRod\<close> (lines 143-170). The rod's body is constructed with mass 0 (line 161), so
  it is a static object of the engine and asleep from the moment it is added to the world.
\<close>

definition createRod ::
  "real \<Rightarrow> real \<Rightarrow> real \<Rightarrow> curtain_state \<Rightarrow> (error + nat) \<times> curtain_state" where
  "createRod xCenter y len st0 =
     andThen (assertReady st0) (\<lambda>u st.
       let bar = length (meshes st);
           st = st\<lparr>meshes := meshes st @
                  [\<lparr>position = (xCenter, y, 0), quaternion = (0, 0, 0, 1),
                    geometry = BoxGeometry len 0.1 0.1, physicsBody = None\<rparr>]\<rparr>
       in andThen (sceneAdd bar st) (\<lambda>u st.
            if \<not> AmmoLib st then (Inr bar, st)
            else
              let body = length (rigid st);
                  st = st\<lparr>rigid := rigid st @
                         [\<lparr>mass = 0, origin = (xCenter, y, 0), rotation = (0, 0, 0, 1),
                           linearVelocity = (0, 0, 0), angularVelocity = (0, 0, 0),
                           active = False, deactivationDisabled = False\<rparr>]\<rparr>;
                  st = st\<lparr>meshes := (meshes st)[bar := (meshes st ! bar)\<lparr>physicsBody := Some body\<rparr>]\<rparr>
              in case physicsWorld st of
                   None \<Rightarrow> (Inl TypeError, st)
                 | Some w \<Rightarrow>
                     (Inr bar, st\<lparr>physicsWorld := Some (w\<lparr>rigidRefs := rigidRefs w @ [body]\<rparr>)\<rparr>)))"

text \<open>
  \<^verbatim>\<open>mk\<close> (lines 188-200) closes over \<^verbatim>\<open>half\<close>, \<^verbatim>\<open>viewH\<close> and \<^verbatim>\<open>yTop\<close>, which are
  parameters here; the colour goes to the material and is dropped.
\<close>

definition mk ::
  "real \<Rightarrow> real \<Rightarrow> real \<Rightarrow> real \<Rightarrow> curtain_state \<Rightarrow> (error + nat) \<times> curtain_state" where
  "mk half viewH yTop xShift st0 =
     (let p = length (attrs st0);
          n = p + 1;
          st = st0\<lparr>attrs := attrs st0 @
                 [\<lparr>array = translate (xShift, yTop - viewH / 2, 0)
                             (planeVertices half viewH segX segY),
                   needsUpdate = True\<rparr>,
                  \<lparr>array = planeNormals segX segY, needsUpdate = True\<rparr>]\<rparr>;
          m = length (meshes st);
          st = st\<lparr>meshes := meshes st @
                 [\<lparr>position = (0, 0, 0), quaternion = (0, 0, 0, 1),
                   geometry = PlaneGeometry p n, physicsBody = None\<rparr>]\<rparr>
      in andThen (sceneAdd m st) (\<lambda>u st. (Inr m, st)))"

text \<open>\<^verbatim>\<open>makePatch\<close> (lines 218-245) closes over \<^verbatim>\<open>yTop\<close> and \<^verbatim>\<open>viewH\<close>.\<close>

definition makePatch ::
  "real \<Rightarrow> real \<Rightarrow> real \<Rightarrow> real \<Rightarrow> curtain_state \<Rightarrow> (error + nat) \<times> curtain_state" where
  "makePatch yTop viewH xLeft xRight st0 =
     (case physicsWorld st0 of
        None \<Rightarrow> (Inl TypeError, st0)
      | Some w \<Rightarrow>
          let yBottom = yTop - viewH;
              body = length (soft st0);
              st = st0\<lparr>soft := soft st0 @
                     [\<lparr>m_nodes = CreatePatch (xLeft, yTop, 0) (xRight, yTop, 0)
                                   (xLeft, yBottom, 0) (xRight, yBottom, 0)
                                   (segX + 1) (segY + 1),
                       viterations = 18, piterations = 18, totalMass = 1,
                       collisionMargin = margin * 2, activationState = 4,
                       anchors = []\<rparr>]\<rparr>
          in (Inr body, st\<lparr>physicsWorld := Some (w\<lparr>softRefs := softRefs w @ [body]\<rparr>)\<rparr>))"

definition anchorRow :: "nat \<Rightarrow> nat option \<Rightarrow> curtain_state \<Rightarrow> curtain_state" where
  "anchorRow s rodMesh st =
     (case rodMesh of
        None \<Rightarrow> st
      | Some rm \<Rightarrow>
          let rodBody = physicsBody (meshes st ! rm)
          in st\<lparr>soft := (soft st)[s := (soft st ! s)
                   \<lparr>anchors := anchors (soft st ! s) @ map (\<lambda>i. (i, rodBody, 1)) [0..<segX + 1]\<rparr>]\<rparr>)"

definition createCurtains :: "curtain_state \<Rightarrow> (error + unit) \<times> curtain_state" where
  "createCurtains st0 =
     andThen (assertReady st0) (\<lambda>u st.
     andThen (computeViewSize st) (\<lambda>(viewW, viewH) st.
       let half = viewW / 2;
           yTop = viewH / 2 - 0.2;
           st = st\<lparr>slideDistance := viewW * 5\<rparr>
       in
     andThen (createRod (- half / 2) yTop half st) (\<lambda>bar st.
       let st = st\<lparr>leftRodMesh := Some bar\<rparr> in
     andThen (createRod (half / 2) yTop half st) (\<lambda>bar st.
       let st = st\<lparr>rightRodMesh := Some bar,
                   leftRodStartX := - half / 2,
                   rightRodStartX := half / 2\<rparr> in
     andThen (mk half viewH yTop (- half / 2) st) (\<lambda>lc st.
       let st = st\<lparr>leftCloth := Some lc\<rparr> in
     andThen (mk half viewH yTop (half / 2) st) (\<lambda>rc st.
       let st = st\<lparr>rightCloth := Some rc\<rparr>;
           st = st\<lparr>leftPosAttr := getAttribute (geometry (meshes st ! lc)) ''position''\<rparr>;
           st = st\<lparr>rightPosAttr := getAttribute (geometry (meshes st ! rc)) ''position''\<rparr>
       in
       if \<not> AmmoLib st then (Inr (), st)
       else
     andThen (makePatch yTop viewH (- half) 0 st) (\<lambda>leftSoft st.
     andThen (makePatch yTop viewH 0 half st) (\<lambda>rightSoft st.
       let st = setPhysicsBody lc leftSoft st;
           st = setPhysicsBody rc rightSoft st;
           st = anchorRow leftSoft (leftRodMesh st) st;
           st = anchorRow rightSoft (rightRodMesh st) st
       in (Inr (), st)))))))))"

text \<open>
  \<^verbatim>\<open>moveRod\<close> (lines 273-297) closes over the eased progress \<^verbatim>\<open>t\<close>, passed first here.
  The four calls on the body are applied in the order of lines 292-295.
\<close>

definition moveRod ::
  "real \<Rightarrow> nat option \<Rightarrow> real \<Rightarrow> real \<Rightarrow> curtain_state \<Rightarrow> curtain_state" where
  "moveRod t mesh startX dir st0 =
     (case mesh of
        None \<Rightarrow> st0
      | Some b \<Rightarrow>
          let m = meshes st0 ! b;
              targetX = startX + dir * slideDistance st0 * t;
              py = fst (snd (position m));
              pz = snd (snd (position m));
              st = st0\<lparr>meshes := (meshes st0)[b := m\<lparr>position := (targetX, py, pz)\<rparr>]\<rparr>
          in case physicsBody m of
               None \<Rightarrow> st
             | Some body \<Rightarrow>
                 if \<not> AmmoLib st then st
                 else
                   st\<lparr>rigid := (rigid st)[body :=
                          activate
                            (setAngularVelocity (0, 0, 0)
                              (setLinearVelocity (0, 0, 0)
                                (setWorldTransform (targetX, py, pz) (quaternion m)
                                  (rigid st ! body))))],
                      engineLog := engineLog st @
                        [SetWorldTransform body (targetX, py, pz) (quaternion m),
                         SetLinearVelocity body (0, 0, 0),
                         SetAngularVelocity body (0, 0, 0),
                         Activate body]\<rparr>)"

datatype side = SideLeft | SideRight

fun addForces ::
  "nat \<Rightarrow> vec3 \<Rightarrow> nat list \<Rightarrow> 'a env_scheme \<Rightarrow> (error + unit) \<times> 'a env_scheme" where
  "addForces s force [] st = (Inr (), st)"
| "addForces s force (idx # rest) st =
     (if idx < length (m_nodes (soft st ! s))
      then addForces s force rest (addForce s idx force st)
      else (Inl NodeIndexOutOfRange, st))"

text \<open>
  The node indices the two nested loops of \<^verbatim>\<open>applyAssist\<close> (lines 313-320) visit, in
  their order: the outer loop runs over the columns \<open>c\<close>, the inner one over the rows \<open>y\<close>.
\<close>

definition assistIndices :: "side \<Rightarrow> nat \<Rightarrow> nat list" where
  "assistIndices sd cols =
     concat (map (\<lambda>c.
       map (\<lambda>y. (if sd = SideLeft then c else segX - c) + y * (segX + 1)) [0..<segY + 1])
       [0..<cols])"

definition applyAssist ::
  "real \<Rightarrow> nat option \<Rightarrow> side \<Rightarrow> curtain_state \<Rightarrow> (error + unit) \<times> curtain_state" where
  "applyAssist t softRef sd st =
     (case softRef of
        None \<Rightarrow> (Inl TypeError, st)
      | Some s \<Rightarrow>
          let cols = 2;
              fx = (if sd = SideLeft then - tinyAssistForce * t else tinyAssistForce * t);
              force = (fx, 0, 0)
          in addForces s force (assistIndices sd cols) st)"

definition sync ::
  "libs \<Rightarrow> nat option \<Rightarrow> nat option \<Rightarrow> curtain_state \<Rightarrow> (error + unit) \<times> curtain_state" where
  "sync L mesh attr st0 =
     (case mesh of None \<Rightarrow> (Inr (), st0)
      | Some m \<Rightarrow>
        (case attr of None \<Rightarrow> (Inr (), st0)
         | Some a \<Rightarrow>
           (case physicsBody (meshes st0 ! m) of
              None \<Rightarrow> (Inl TypeError, st0)
            | Some s \<Rightarrow>
                (case syncLoop (m_nodes (soft st0 ! s)) 0 0 (array (attrs st0 ! a)) of
                   (Inl e, arr) \<Rightarrow>
                     (Inl e, st0\<lparr>attrs := (attrs st0)[a := (attrs st0 ! a)\<lparr>array := arr\<rparr>]\<rparr>)
                 | (Inr u, arr) \<Rightarrow>
                     let st = st0\<lparr>attrs := (attrs st0)[a := (attrs st0 ! a)\<lparr>array := arr\<rparr>]\<rparr>;
                         st = recomputeNormals L (geometry (meshes st ! m)) st;
                         st = markDirty a st;
                         st = (case getAttribute (geometry (meshes st ! m)) ''normal'' of
                                 None \<Rightarrow> st
                               | Some nAttr \<Rightarrow> markDirty nAttr st)
                     in (Inr (), st)))))"

text \<open>
  The body of \<^verbatim>\<open>if (physicsWorld && AmmoLib) { ... }\<close> in \<^verbatim>\<open>animate\<close>: after the
  simulation step of line 303 come the assist forces (lines 305-326) and the copy of the
  nodes into the vertex buffers (lines 328-351).
\<close>

definition assistAndSync ::
  "libs \<Rightarrow> real \<Rightarrow> curtain_state \<Rightarrow> (error + unit) \<times> curtain_state" where
  "assistAndSync L t st0 =
     andThen
       (if tinyAssistForce > 0 then
          andThen
            (case leftCloth st0 of
               None \<Rightarrow> (Inr (), st0)
             | Some m \<Rightarrow> applyAssist t (physicsBody (meshes st0 ! m)) SideLeft st0)
            (\<lambda>u st.
               case rightCloth st of
                 None \<Rightarrow> (Inr (), st)
               | Some m \<Rightarrow> applyAssist t (physicsBody (meshes st ! m)) SideRight st)
        else (Inr (), st0))
       (\<lambda>u st.
          andThen
            (case leftCloth st of
               None \<Rightarrow> (Inr (), st)
             | Some m \<Rightarrow> sync L (leftCloth st) (leftPosAttr st) st)
            (\<lambda>u st.
               case rightCloth st of
                 None \<Rightarrow> (Inr (), st)
               | Some m \<Rightarrow> sync L (rightCloth st) (rightPosAttr st) st))"

definition stepAndSync ::
  "libs \<Rightarrow> real \<Rightarrow> real \<Rightarrow> curtain_state \<Rightarrow> (error + unit) \<times> curtain_state" where
  "stepAndSync L dt t st0 =
     (case physicsWorld st0 of
        None \<Rightarrow> (Inr (), st0)
      | Some w \<Rightarrow>
          if \<not> AmmoLib st0 then (Inr (), st0)
          else
            let stepped = stepSimulation L dt 10 w (rigid st0, soft st0)
            in assistAndSync L t
                 (st0\<lparr>rigid := fst stepped, soft := snd stepped,
                      engineLog := engineLog st0 @ [StepSimulation dt 10]\<rparr>))"

text \<open>
  \<^verbatim>\<open>animate\<close> (lines 266-359). The elapsed time \<^verbatim>\<open>clock.getDelta()\<close> is the argument
  \<open>dt\<close>; \<^verbatim>\<open>requestAnimationFrame(animate)\<close> adds one to the requested frame callbacks.
  \<open>moveRods\<close> stands for the two calls of lines 299-300, left rod first.
\<close>

definition moveRods :: "real \<Rightarrow> curtain_state \<Rightarrow> curtain_state" where
  "moveRods t st0 =
     (let st = moveRod t (leftRodMesh st0) (leftRodStartX st0) (- 1) st0
      in moveRod t (rightRodMesh st) (rightRodStartX st) 1 st)"

definition animate :: "libs \<Rightarrow> real \<Rightarrow> curtain_state \<Rightarrow> (error + unit) \<times> curtain_state" where
  "animate L dt st0 =
     (if renderer st0 = None \<or> scene st0 = None \<or> camera st0 = None then (Inr (), st0)
      else
        let t = easeOutCubic (scrollProgress st0);
            st = moveRods t st0
        in
        andThen (stepAndSync L dt t st) (\<lambda>u st.
          case renderer st of
            None \<Rightarrow> (Inl TypeError, st)
          | Some r \<Rightarrow>
              let r = r\<lparr>opacity := (if t \<ge> 1 then ''0'' else ''1'')\<rparr>;
                  st = st\<lparr>renderer := Some (render r)\<rparr>
              in (Inr (), st\<lparr>frameRequests := frameRequests st + 1\<rparr>)))"

text \<open>
  The asynchronous start (lines 361-378) runs up to its first \<^verbatim>\<open>await\<close> when the effect
  is mounted and resumes once the engine's script and module have settled; what happened to
  them is the argument of the second half. The whole body stands in a \<^verbatim>\<open>try\<close>.
\<close>

datatype load_outcome = ScriptFails | NoAmmoGlobal | AmmoInitFails | AmmoLoads

definition boot_begin :: "curtain_state \<Rightarrow> curtain_state" where
  "boot_begin st = initGraphics st"

definition boot_resume :: "libs \<Rightarrow> load_outcome \<Rightarrow> real \<Rightarrow> curtain_state \<Rightarrow> curtain_state" where
  "boot_resume L outcome dt st0 =
     catchAndLog
       (andThen
          (case outcome of
             ScriptFails \<Rightarrow> (Inl ScriptLoadFailed, st0)
           | NoAmmoGlobal \<Rightarrow> (Inr (), st0)
           | AmmoInitFails \<Rightarrow> (Inl AmmoInitFailed, st0)
           | AmmoLoads \<Rightarrow> (Inr (), initPhysics (st0\<lparr>AmmoLib := True\<rparr>)))
          (\<lambda>u st.
             andThen (createCurtains st) (\<lambda>u st. animate L dt (onScroll st))))"

definition boot :: "libs \<Rightarrow> load_outcome \<Rightarrow> real \<Rightarrow> curtain_state \<Rightarrow> curtain_state" where
  "boot L outcome dt st = boot_resume L outcome dt (boot_begin st)"

text \<open>The cleanup the effect returns (lines 380-387).\<close>

definition cleanup :: "curtain_state \<Rightarrow> curtain_state" where
  "cleanup st =
     st\<lparr>listeners := removeEventListener ''scroll'' OnScroll
                       (removeEventListener ''resize'' OnResize (listeners st)),
        renderer := None,
        scene := None,
        camera := None\<rparr>"

text \<open>
  What the page does to a mounted scene: it runs a requested frame callback after \<open>dt\<close>
  seconds, scrolls, resizes, or unmounts the component. A listener runs only while it is
  registered, a frame callback only when one was requested.
\<close>

datatype event = Frame real | Scroll real | Resize real real | Unmount

definition dispatch :: "libs \<Rightarrow> event \<Rightarrow> curtain_state \<Rightarrow> curtain_state" where
  "dispatch L ev st =
     (case ev of
        Frame dt \<Rightarrow>
          if frameRequests st = 0 then st
          else catchAndLog (animate L dt (st\<lparr>frameRequests := frameRequests st - 1\<rparr>))
      | Scroll y \<Rightarrow>
          let st = st\<lparr>scrollY := y\<rparr>
          in if (''scroll'', OnScroll) \<in> set (listeners st) then onScroll st else st
      | Resize w h \<Rightarrow>
          let st = st\<lparr>innerWidth := w, innerHeight := h\<rparr>
          in if (''resize'', OnResize) \<in> set (listeners st) then onResize st else st
      | Unmount \<Rightarrow> cleanup st)"

definition run :: "libs \<Rightarrow> event list \<Rightarrow> curtain_state \<Rightarrow> curtain_state" where
  "run L evs st = fold (dispatch L) evs st"

text \<open>A freshly mounted curtain scene: the initial values of lines 29-58 on a given page.\<close>

definition mount :: "bool \<Rightarrow> real \<Rightarrow> real \<Rightarrow> real \<Rightarrow> real \<Rightarrow> curtain_state" where
  "mount c w h dpr y =
     \<lparr>container = c, innerWidth = w, innerHeight = h, devicePixelRatio = dpr, scrollY = y,
      listeners = [], frameRequests = 0, consoleErrors = [],
      meshes = [], attrs = [], rigid = [], soft = [], engineLog = [],
      renderer = None, scene = None, camera = None, AmmoLib = False, physicsWorld = None,
      leftCloth = None, rightCloth = None, leftPosAttr = None, rightPosAttr = None,
      leftRodMesh = None, rightRodMesh = None,
      leftRodStartX = 0, rightRodStartX = 0, slideDistance = 0, scrollProgress = 0\<rparr>"

section \<open>The cloth scene\<close>

text \<open>
  The variables of \<^verbatim>\<open>ClothScene.tsx\<close>, lines 33-59. \<open>hinge\<close> is true once the hinge
  constraint exists; \<open>rigidBodies\<close> lists the meshes of the bodies of positive mass. The orbit
  controls, the textures and the auxiliary transform \<^verbatim>\<open>transformAux1\<close> are not modelled.
\<close>

record cloth_state = scene_state +
  rigidBodies :: "nat list"
  hinge :: bool
  armMovement :: real
  cloth :: "nat option"
  clothPosAttr :: "nat option"
  clothNormAttr :: "nat option"

definition cloth_onWindowResize :: "cloth_state \<Rightarrow> cloth_state" where
  "cloth_onWindowResize st =
     (case renderer st of None \<Rightarrow> st
      | Some r \<Rightarrow>
        (case camera st of None \<Rightarrow> st
         | Some c \<Rightarrow>
           st\<lparr>camera := Some (c\<lparr>aspect := innerWidth st / innerHeight st\<rparr>),
              renderer := Some (r\<lparr>rendererSize := (innerWidth st, innerHeight st)\<rparr>)\<rparr>))"

text \<open>
  \<^verbatim>\<open>initGraphics\<close> (lines 61-101) takes the container with a non-null assertion, so a
  missing container fails at \<^verbatim>\<open>container.appendChild\<close>, after the three assignments.
\<close>

definition cloth_initGraphics :: "cloth_state \<Rightarrow> (error + unit) \<times> cloth_state" where
  "cloth_initGraphics st0 =
     (let st = st0\<lparr>scene := Some \<lparr>children = [], lights = 0\<rparr>,
                   camera := Some \<lparr>fov = 60, aspect = innerWidth st0 / innerHeight st0,
                                   near = 0.2, far = 2000, camPosition = (- 12, 7, 4)\<rparr>,
                   renderer := Some \<lparr>rendererSize = (innerWidth st0, innerHeight st0),
                                     pixelRatio = devicePixelRatio st0, opacity = [],
                                     disposed = False, framesRendered = 0\<rparr>\<rparr>
      in if \<not> container st then (Inl TypeError, st)
         else (Inr (),
               st\<lparr>scene := Some \<lparr>children = [], lights = 2\<rparr>,
                  listeners := addEventListener ''resize'' OnWindowResize (listeners st)\<rparr>))"

definition gravityConstant :: real where "gravityConstant = - 9.8"

definition cloth_initPhysics :: "cloth_state \<Rightarrow> cloth_state" where
  "cloth_initPhysics st =
     st\<lparr>physicsWorld :=
          Some \<lparr>worldGravity = (0, gravityConstant, 0), rigidRefs = [], softRefs = [],
                constraints = 0\<rparr>\<rparr>"

text \<open>
  \<^verbatim>\<open>createRigidBody\<close> (lines 133-171); the shape only feeds the engine and is dropped.
  A body of mass 0 is static and asleep once added to the world; the others are awake.
\<close>

definition createRigidBody ::
  "nat \<Rightarrow> real \<Rightarrow> vec3 \<Rightarrow> quat \<Rightarrow> cloth_state \<Rightarrow> (error + unit) \<times> cloth_state" where
  "createRigidBody threeObject mass' pos quat' st0 =
     (let st = st0\<lparr>meshes := (meshes st0)[threeObject :=
                    (meshes st0 ! threeObject)\<lparr>position := pos, quaternion := quat'\<rparr>]\<rparr>
      in if \<not> AmmoLib st then (Inl TypeError, st)
         else
           let body = length (rigid st);
               st = st\<lparr>rigid := rigid st @
                      [\<lparr>mass = mass', origin = pos, rotation = quat',
                        linearVelocity = (0, 0, 0), angularVelocity = (0, 0, 0),
                        active = (mass' \<noteq> 0), deactivationDisabled = False\<rparr>]\<rparr>;
               st = setPhysicsBody threeObject body st
           in andThen (sceneAdd threeObject st) (\<lambda>u st.
                let st = (if mass' > 0
                          then st\<lparr>rigidBodies := rigidBodies st @ [threeObject],
                                  rigid := (rigid st)[body :=
                                    (rigid st ! body)\<lparr>deactivationDisabled := True\<rparr>]\<rparr>
                          else st)
                in case physicsWorld st of
                     None \<Rightarrow> (Inl TypeError, st)
                   | Some w \<Rightarrow>
                       (Inr (),
                        st\<lparr>physicsWorld := Some (w\<lparr>rigidRefs := rigidRefs w @ [body]\<rparr>)\<rparr>)))"

definition createParallelepiped ::
  "real \<Rightarrow> real \<Rightarrow> real \<Rightarrow> real \<Rightarrow> vec3 \<Rightarrow> quat \<Rightarrow> cloth_state
     \<Rightarrow> (error + nat) \<times> cloth_state" where
  "createParallelepiped sx sy sz mass' pos quat' st0 =
     (let threeObject = length (meshes st0);
          st = st0\<lparr>meshes := meshes st0 @
                 [\<lparr>position = (0, 0, 0), quaternion = (0, 0, 0, 1),
                   geometry = BoxGeometry sx sy sz, physicsBody = None\<rparr>]\<rparr>
      in if \<not> AmmoLib st then (Inl TypeError, st)
         else andThen (createRigidBody threeObject mass' pos quat' st)
                (\<lambda>u st. (Inr threeObject, st)))"

text \<open>The constants of \<^verbatim>\<open>createObjects\<close> (lines 221-226, 267-271, 361-363).\<close>

definition brickMass :: real where "brickMass = 0.5"

definition brickLength :: real where "brickLength = 1.2"

definition brickDepth :: real where "brickDepth = 0.6"

definition brickHeight :: real where "brickHeight = brickLength * 0.5"

definition numBricksLength :: nat where "numBricksLength = 6"

definition numBricksHeight :: nat where "numBricksHeight = 8"

definition clothWidth :: nat where "clothWidth = 4"

definition clothHeight :: nat where "clothHeight = 3"

definition clothNumSegmentsZ :: nat where "clothNumSegmentsZ = clothWidth * 5"

definition clothNumSegmentsY :: nat where "clothNumSegmentsY = clothHeight * 5"

definition clothPos :: vec3 where "clothPos = (- 3, 3, 2)"

text \<open>
  The wall (lines 229-264): the inner loop lays the bricks of one row and moves
  \<^verbatim>\<open>pos.z\<close>, the outer loop resets \<^verbatim>\<open>pos.z\<close> and raises \<^verbatim>\<open>pos.y\<close>. The shared
  vector \<^verbatim>\<open>pos\<close> is threaded through both.
\<close>

function wallRow ::
  "bool \<Rightarrow> nat \<Rightarrow> nat \<Rightarrow> vec3 \<Rightarrow> cloth_state \<Rightarrow> (error + vec3) \<times> cloth_state" where
  "wallRow oddRow nRow i pos st =
     (if i < nRow then
        let edge = (oddRow \<and> (i = 0 \<or> i = nRow - 1));
            len = (if edge then brickLength * 0.5 else brickLength);
            mass' = (if edge then brickMass * 0.5 else brickMass)
        in andThen (createParallelepiped brickDepth brickHeight len mass' pos (0, 0, 0, 1) st)
             (\<lambda>brick st'.
                wallRow oddRow nRow (i + 1)
                  (fst pos, fst (snd pos),
                   snd (snd pos) +
                     (if oddRow \<and> (i = 0 \<or> i + 2 = nRow) then 0.75 * brickLength
                      else brickLength))
                  st')
      else (Inr pos, st))"
  by pat_completeness auto
termination
  by (relation "measure (\<lambda>(oddRow, nRow, i, pos, st). nRow - i)") auto

declare wallRow.simps [simp del]

function wall ::
  "nat \<Rightarrow> real \<Rightarrow> vec3 \<Rightarrow> cloth_state \<Rightarrow> (error + vec3) \<times> cloth_state" where
  "wall j z0 pos st =
     (if j < numBricksHeight then
        let oddRow = (j mod 2 = 1);
            z = (if oddRow then z0 - 0.25 * brickLength else z0);
            nRow = (if oddRow then numBricksLength + 1 else numBricksLength)
        in andThen (wallRow oddRow nRow 0 (fst pos, fst (snd pos), z) st)
             (\<lambda>pos' st'.
                wall (j + 1) z0 (fst pos', fst (snd pos') + brickHeight, snd (snd pos')) st')
      else (Inr pos, st))"
  by pat_completeness auto
termination
  by (relation "measure (\<lambda>(j, z0, pos, st). numBricksHeight - j)") auto

declare wall.simps [simp del]

text \<open>The cloth's mesh and cached attributes (lines 266-311).\<close>

definition createClothMesh :: "libs \<Rightarrow> cloth_state \<Rightarrow> (error + unit) \<times> cloth_state" where
  "createClothMesh L st0 =
     (let p = length (attrs st0);
          n = p + 1;
          verts = translate
                    (fst clothPos,
                     fst (snd clothPos) + real clothHeight * 0.5,
                     snd (snd clothPos) - real clothWidth * 0.5)
                    (rotateY (pi * 0.5)
                       (planeVertices (real clothWidth) (real clothHeight)
                          clothNumSegmentsZ clothNumSegmentsY));
          st = st0\<lparr>attrs := attrs st0 @
                 [\<lparr>array = verts, needsUpdate = True\<rparr>,
                  \<lparr>array = rotateY (pi * 0.5) (planeNormals clothNumSegmentsZ clothNumSegmentsY),
                   needsUpdate = True\<rparr>]\<rparr>;
          m = length (meshes st);
          st = st\<lparr>meshes := meshes st @
                 [\<lparr>position = (0, 0, 0), quaternion = (0, 0, 0, 1),
                   geometry = PlaneGeometry p n, physicsBody = None\<rparr>]\<rparr>;
          st = st\<lparr>cloth := Some m\<rparr>
      in andThen (sceneAdd m st) (\<lambda>u st.
           let st = st\<lparr>clothPosAttr := getAttribute (geometry (meshes st ! m)) ''position''\<rparr>;
               st = st\<lparr>clothNormAttr := getAttribute (geometry (meshes st ! m)) ''normal''\<rparr>
           in (Inr (), recomputeNormals L (geometry (meshes st ! m)) st)))"

text \<open>The cloth's soft body (lines 313-358).\<close>

definition createClothBody :: "cloth_state \<Rightarrow> (error + unit) \<times> cloth_state" where
  "createClothBody st0 =
     (if \<not> AmmoLib st0 then (Inl TypeError, st0)
      else
        case physicsWorld st0 of
          None \<Rightarrow> (Inl TypeError, st0)
        | Some w \<Rightarrow>
            let cx = fst clothPos; cy = fst (snd clothPos); cz = snd (snd clothPos);
                clothSoftBody = length (soft st0);
                st = st0\<lparr>soft := soft st0 @
                       [\<lparr>m_nodes = CreatePatch
                                     (cx, cy + real clothHeight, cz)
                                     (cx, cy + real clothHeight, cz - real clothWidth)
                                     (cx, cy, cz)
                                     (cx, cy, cz - real clothWidth)
                                     (clothNumSegmentsZ + 1) (clothNumSegmentsY + 1),
                         viterations = 10, piterations = 10, totalMass = 0.9,
                         collisionMargin = margin * 3, activationState = 1,
                         anchors = []\<rparr>]\<rparr>;
                st = st\<lparr>physicsWorld := Some (w\<lparr>softRefs := softRefs w @ [clothSoftBody]\<rparr>)\<rparr>
            in case cloth st of
                 None \<Rightarrow> (Inl TypeError, st)
               | Some m \<Rightarrow>
                   let st = setPhysicsBody m clothSoftBody st
                   in (Inr (),
                       st\<lparr>soft := (soft st)[clothSoftBody :=
                            (soft st ! clothSoftBody)\<lparr>activationState := 4\<rparr>]\<rparr>))"

text \<open>\<^verbatim>\<open>cloth.userData.physicsBody.appendAnchor(node, arm.userData.physicsBody, false, influence)\<close>.\<close>

definition appendAnchor ::
  "nat \<Rightarrow> nat \<Rightarrow> real \<Rightarrow> cloth_state \<Rightarrow> (error + unit) \<times> cloth_state" where
  "appendAnchor nd arm influence st =
     (case cloth st of
        None \<Rightarrow> (Inl TypeError, st)
      | Some m \<Rightarrow>
          (case physicsBody (meshes st ! m) of
             None \<Rightarrow> (Inl TypeError, st)
           | Some s \<Rightarrow>
               (Inr (),
                st\<lparr>soft := (soft st)[s := (soft st ! s)
                     \<lparr>anchors := anchors (soft st ! s) @
                        [(nd, physicsBody (meshes st ! arm), influence)]\<rparr>]\<rparr>)))"

text \<open>The arm, its anchors and its hinge (lines 360-425).\<close>

definition createArm :: "cloth_state \<Rightarrow> (error + unit) \<times> cloth_state" where
  "createArm st0 =
     (let cx = fst clothPos; cy = fst (snd clothPos); cz = snd (snd clothPos);
          armMass = 2;
          armLength = 3 + real clothWidth;
          pylonHeight = cy + real clothHeight
      in
      andThen (createParallelepiped 1 0.2 1 0 (cx, 0.1, cz - armLength) (0, 0, 0, 1) st0)
        (\<lambda>base st.
      andThen (createParallelepiped 0.4 pylonHeight 0.4 0
                 (cx, 0.5 * pylonHeight, cz - armLength) (0, 0, 0, 1) st)
        (\<lambda>pylon st.
      andThen (createParallelepiped 0.4 0.4 (armLength + 0.4) armMass
                 (cx, pylonHeight + 0.2, cz - 0.5 * armLength) (0, 0, 0, 1) st)
        (\<lambda>arm st.
      andThen (appendAnchor 0 arm 0.5 st)
        (\<lambda>u st.
      andThen (appendAnchor clothNumSegmentsZ arm 0.5 st)
        (\<lambda>u st.
           case physicsWorld st of
             None \<Rightarrow> (Inl TypeError, st)
           | Some w \<Rightarrow>
               (Inr (),
                st\<lparr>hinge := True,
                   physicsWorld := Some (w\<lparr>constraints := constraints w + 1\<rparr>)\<rparr>)))))))"

text \<open>\<^verbatim>\<open>createObjects\<close> (lines 194-426): the ground, the wall, the cloth, the arm.\<close>

definition createObjects :: "libs \<Rightarrow> cloth_state \<Rightarrow> (error + unit) \<times> cloth_state" where
  "createObjects L st0 =
     andThen (createParallelepiped 40 1 40 0 (0, - 0.5, 0) (0, 0, 0, 1) st0)
       (\<lambda>ground st.
     andThen (wall 0 (- real numBricksLength * brickLength * 0.5)
                (0, brickHeight * 0.5, - real numBricksLength * brickLength * 0.5) st)
       (\<lambda>pos st.
     andThen (createClothMesh L st)
       (\<lambda>u st.
     andThen (createClothBody st)
       (\<lambda>u st. createArm st))))"

definition keydown :: "string \<Rightarrow> cloth_state \<Rightarrow> cloth_state" where
  "keydown code st =
     (let st = (if code = ''KeyQ'' then st\<lparr>armMovement := 1\<rparr> else st)
      in if code = ''KeyA'' then st\<lparr>armMovement := - 1\<rparr> else st)"

definition keyup :: "cloth_state \<Rightarrow> cloth_state" where
  "keyup st = st\<lparr>armMovement := 0\<rparr>"

definition initInput :: "cloth_state \<Rightarrow> cloth_state" where
  "initInput st =
     st\<lparr>listeners := addEventListener ''keyup'' Keyup
                       (addEventListener ''keydown'' Keydown (listeners st))\<rparr>"

text \<open>The copy of the cloth's nodes into its vertex buffer (lines 449-467 of \<^verbatim>\<open>animate\<close>).\<close>

definition cloth_sync :: "libs \<Rightarrow> cloth_state \<Rightarrow> (error + unit) \<times> cloth_state" where
  "cloth_sync L st0 =
     (case cloth st0 of None \<Rightarrow> (Inr (), st0)
      | Some m \<Rightarrow>
        (case clothPosAttr st0 of None \<Rightarrow> (Inr (), st0)
         | Some a \<Rightarrow>
           (case physicsBody (meshes st0 ! m) of
              None \<Rightarrow> (Inl TypeError, st0)
            | Some s \<Rightarrow>
                (case syncLoop (m_nodes (soft st0 ! s)) 0 0 (array (attrs st0 ! a)) of
                   (Inl e, arr) \<Rightarrow>
                     (Inl e, st0\<lparr>attrs := (attrs st0)[a := (attrs st0 ! a)\<lparr>array := arr\<rparr>]\<rparr>)
                 | (Inr u, arr) \<Rightarrow>
                     let st = st0\<lparr>attrs := (attrs st0)[a := (attrs st0 ! a)\<lparr>array := arr\<rparr>]\<rparr>;
                         st = recomputeNormals L (geometry (meshes st ! m)) st;
                         st = markDirty a st;
                         st = (case clothNormAttr st of
                                 None \<Rightarrow> st
                               | Some nAttr \<Rightarrow> markDirty nAttr st)
                     in (Inr (), st)))))"

text \<open>The poses of the dynamic rigid bodies are copied onto their meshes (lines 469-480).\<close>

fun syncRigidBodies :: "nat list \<Rightarrow> cloth_state \<Rightarrow> (error + unit) \<times> cloth_state" where
  "syncRigidBodies [] st = (Inr (), st)"
| "syncRigidBodies (objThree # rest) st =
     (case physicsBody (meshes st ! objThree) of
        None \<Rightarrow> (Inl TypeError, st)
      | Some objPhys \<Rightarrow>
          syncRigidBodies rest
            (st\<lparr>meshes := (meshes st)[objThree := (meshes st ! objThree)
                  \<lparr>position := origin (rigid st ! objPhys),
                   quaternion := rotation (rigid st ! objPhys)\<rparr>]\<rparr>))"

text \<open>
  The body of \<^verbatim>\<open>if (physicsWorld) { ... }\<close> in \<^verbatim>\<open>animate\<close> (lines 446-481): the
  simulation step, the copy of the cloth's nodes, the poses of the rigid bodies.
\<close>

definition cloth_stepAndSync ::
  "libs \<Rightarrow> real \<Rightarrow> cloth_state \<Rightarrow> (error + unit) \<times> cloth_state" where
  "cloth_stepAndSync L deltaTime st0 =
     (case physicsWorld st0 of
        None \<Rightarrow> (Inr (), st0)
      | Some w \<Rightarrow>
          let stepped = stepSimulation L deltaTime 10 w (rigid st0, soft st0);
              st = st0\<lparr>rigid := fst stepped, soft := snd stepped,
                       engineLog := engineLog st0 @ [StepSimulation deltaTime 10]\<rparr>
          in andThen (cloth_sync L st) (\<lambda>u st. syncRigidBodies (rigidBodies st) st))"

text \<open>\<^verbatim>\<open>animate\<close> (lines 441-485).\<close>

definition cloth_animate :: "libs \<Rightarrow> real \<Rightarrow> cloth_state \<Rightarrow> (error + unit) \<times> cloth_state" where
  "cloth_animate L deltaTime st0 =
     (let st = (if hinge st0
                then st0\<lparr>engineLog := engineLog st0 @
                          [EnableAngularMotor True (0.8 * armMovement st0) 50]\<rparr>
                else st0)
      in
      andThen (cloth_stepAndSync L deltaTime st)
        (\<lambda>u st.
           case renderer st of
             None \<Rightarrow> (Inl TypeError, st)
           | Some r \<Rightarrow>
               (Inr (), st\<lparr>renderer := Some (render r),
                          frameRequests := frameRequests st + 1\<rparr>)))"

text \<open>
  The asynchronous start (lines 494-507) awaits the engine before it builds anything, and
  stands in no \<^verbatim>\<open>try\<close>: an error rejects the promise and is only reported by the page.
\<close>

definition cloth_boot_resume ::
  "libs \<Rightarrow> load_outcome \<Rightarrow> real \<Rightarrow> cloth_state \<Rightarrow> (error + unit) \<times> cloth_state" where
  "cloth_boot_resume L outcome dt st0 =
     andThen
       (case outcome of
          ScriptFails \<Rightarrow> (Inl ScriptLoadFailed, st0)
        | NoAmmoGlobal \<Rightarrow> (Inl AmmoLoaderNotFound, st0)
        | AmmoInitFails \<Rightarrow> (Inl AmmoInitFailed, st0)
        | AmmoLoads \<Rightarrow> (Inr (), st0\<lparr>AmmoLib := True\<rparr>))
       (\<lambda>u st.
          andThen (cloth_initGraphics st) (\<lambda>u st.
          andThen (createObjects L (cloth_initPhysics st)) (\<lambda>u st.
            cloth_animate L dt (initInput st))))"

text \<open>The cleanup the effect returns (lines 509-517).\<close>

definition cloth_cleanup :: "cloth_state \<Rightarrow> cloth_state" where
  "cloth_cleanup st =
     st\<lparr>listeners := removeEventListener ''keyup'' Keyup
                       (removeEventListener ''keydown'' Keydown
                          (removeEventListener ''resize'' OnWindowResize (listeners st))),
        renderer := None\<rparr>"

datatype cloth_event =
  ClothFrame real | KeyPressed string | KeyReleased | ClothResize real real | ClothUnmount

definition cloth_dispatch :: "libs \<Rightarrow> cloth_event \<Rightarrow> cloth_state \<Rightarrow> cloth_state" where
  "cloth_dispatch L ev st =
     (case ev of
        ClothFrame dt \<Rightarrow>
          if frameRequests st = 0 then st
          else catchAndLog (cloth_animate L dt (st\<lparr>frameRequests := frameRequests st - 1\<rparr>))
      | KeyPressed code \<Rightarrow>
          if (''keydown'', Keydown) \<in> set (listeners st) then keydown code st else st
      | KeyReleased \<Rightarrow>
          if (''keyup'', Keyup) \<in> set (listeners st) then keyup st else st
      | ClothResize w h \<Rightarrow>
          let st = st\<lparr>innerWidth := w, innerHeight := h\<rparr>
          in if (''resize'', OnWindowResize) \<in> set (listeners st)
             then cloth_onWindowResize st else st
      | ClothUnmount \<Rightarrow> cloth_cleanup st)"

definition cloth_run :: "libs \<Rightarrow> cloth_event list \<Rightarrow> cloth_state \<Rightarrow> cloth_state" where
  "cloth_run L evs st = fold (cloth_dispatch L) evs st"

text \<open>A freshly mounted cloth scene: the initial values of lines 33-59 on a given page.\<close>

definition cloth_mount :: "bool \<Rightarrow> real \<Rightarrow> real \<Rightarrow> real \<Rightarrow> cloth_state" where
  "cloth_mount c w h dpr =
     \<lparr>container = c, innerWidth = w, innerHeight = h, devicePixelRatio = dpr, scrollY = 0,
      listeners = [], frameRequests = 0, consoleErrors = [],
      meshes = [], attrs = [], rigid = [], soft = [], engineLog = [],
      renderer = None, scene = None, camera = None, AmmoLib = False, physicsWorld = None,
      rigidBodies = [], hinge = False, armMovement = 0,
      cloth = None, clothPosAttr = None, clothNormAttr = None\<rparr>"

section \<open>Notions used in the statements and proofs\<close>

definition comp3 :: "vec3 \<Rightarrow> nat \<Rightarrow> real" where
  "comp3 v r = (if r = 0 then fst v else if r = 1 then fst (snd v) else snd (snd v))"

definition bufferLinked :: "nat \<Rightarrow> nat \<Rightarrow> nat \<Rightarrow> 'a env_scheme \<Rightarrow> bool" where
  "bufferLinked m a n st =
     (m < length (meshes st) \<and> geometry (meshes st ! m) = PlaneGeometry a n
      \<and> a < length (attrs st) \<and> n < length (attrs st) \<and> a \<noteq> n)"

definition bodyLinked :: "nat \<Rightarrow> nat \<Rightarrow> nat \<Rightarrow> 'a env_scheme \<Rightarrow> bool" where
  "bodyLinked m a s st =
     (physicsBody (meshes st ! m) = Some s \<and> s < length (soft st)
      \<and> length (array (attrs st ! a)) = 3 * length (m_nodes (soft st ! s)))"

definition curtainBuffers ::
  "nat \<Rightarrow> nat \<Rightarrow> nat \<Rightarrow> nat \<Rightarrow> nat \<Rightarrow> nat \<Rightarrow> curtain_state \<Rightarrow> bool" where
  "curtainBuffers lc la lno rc ra rno st =
     (leftCloth st = Some lc \<and> leftPosAttr st = Some la
      \<and> rightCloth st = Some rc \<and> rightPosAttr st = Some ra
      \<and> bufferLinked lc la lno st \<and> bufferLinked rc ra rno st
      \<and> la \<noteq> ra \<and> la \<noteq> rno \<and> lno \<noteq> ra \<and> lno \<noteq> rno
      \<and> length (array (attrs st ! la)) = (segX + 1) * (segY + 1) * 3
      \<and> length (array (attrs st ! ra)) = (segX + 1) * (segY + 1) * 3)"

text \<open>A state that differs from another one only in the object stores and the engine log.\<close>

definition storesOnly :: "'a env_scheme \<Rightarrow> 'a env_scheme \<Rightarrow> bool" where
  "storesOnly st s =
     (s = st\<lparr>meshes := meshes s, attrs := attrs s, rigid := rigid s, soft := soft s,
            engineLog := engineLog s\<rparr>)"

definition rodLinked :: "nat \<Rightarrow> nat \<Rightarrow> nat \<Rightarrow> nat \<Rightarrow> curtain_state \<Rightarrow> bool" where
  "rodLinked lr lb rr rb st =
     (leftRodMesh st = Some lr \<and> rightRodMesh st = Some rr
      \<and> lr < length (meshes st) \<and> rr < length (meshes st) \<and> lr \<noteq> rr
      \<and> physicsBody (meshes st ! lr) = Some lb \<and> physicsBody (meshes st ! rr) = Some rb
      \<and> lb < length (rigid st) \<and> rb < length (rigid st) \<and> lb \<noteq> rb)"

definition graphicsReady :: "'a scene_state_scheme \<Rightarrow> bool" where
  "graphicsReady st = (scene st \<noteq> None \<and> camera st \<noteq> None \<and> renderer st \<noteq> None)"

definition nodeCounts :: "soft_body list \<Rightarrow> nat list" where
  "nodeCounts ss = map (\<lambda>b. length (m_nodes b)) ss"

definition keepsShape :: "libs \<Rightarrow> bool" where
  "keepsShape L =
     (\<forall>dt n w rs ss.
        length (fst (stepSimulation L dt n w (rs, ss))) = length rs
        \<and> nodeCounts (snd (stepSimulation L dt n w (rs, ss))) = nodeCounts ss)"

definition curtainLinked ::
  "nat \<Rightarrow> nat \<Rightarrow> nat \<Rightarrow> nat \<Rightarrow> nat \<Rightarrow> nat \<Rightarrow> nat \<Rightarrow> nat \<Rightarrow> curtain_state \<Rightarrow> bool" where
  "curtainLinked lc la lno ls rc ra rno rs st =
     (curtainBuffers lc la lno rc ra rno st \<and> bodyLinked lc la ls st \<and> bodyLinked rc ra rs st)"

definition rodCalls :: "nat \<Rightarrow> vec3 \<Rightarrow> quat \<Rightarrow> call list" where
  "rodCalls body p q =
     [SetWorldTransform body p q, SetLinearVelocity body (0, 0, 0),
      SetAngularVelocity body (0, 0, 0), Activate body]"

definition idle :: libs where
  "idle = \<lparr>stepSimulation = (\<lambda>dt n w bodies. bodies), computeVertexNormals = (\<lambda>g ps. ps)\<rparr>"

text \<open>The state in which the first frame of a mounted curtain scene runs, engine loaded.\<close>

definition built :: "real \<Rightarrow> real \<Rightarrow> real \<Rightarrow> real \<Rightarrow> curtain_state" where
  "built w h dpr y =
     onScroll (snd (createCurtains (initPhysics ((initGraphics (mount True w h dpr y))\<lparr>AmmoLib := True\<rparr>))))"

datatype call_kind = Actuator | Step | Force | Motor

definition kindOf :: "call \<Rightarrow> call_kind" where
  "kindOf c =
     (case c of
        SetWorldTransform b p q \<Rightarrow> Actuator
      | SetLinearVelocity b v \<Rightarrow> Actuator
      | SetAngularVelocity b v \<Rightarrow> Actuator
      | Activate b \<Rightarrow> Actuator
      | StepSimulation dt n \<Rightarrow> Step
      | AddForce s idx f \<Rightarrow> Force
      | EnableAngularMotor on v imp \<Rightarrow> Motor)"

text \<open>The state in which the first frame runs when the script loads but defines no engine.\<close>

definition builtStatic :: "real \<Rightarrow> real \<Rightarrow> real \<Rightarrow> real \<Rightarrow> curtain_state" where
  "builtStatic w h dpr y = onScroll (snd (createCurtains (initGraphics (mount True w h dpr y))))"

text \<open>The number of frames the renderer has presented.\<close>

definition framesShown :: "'a scene_state_scheme \<Rightarrow> nat" where
  "framesShown st = (case renderer st of None \<Rightarrow> 0 | Some r \<Rightarrow> framesRendered r)"

text \<open>What \<^verbatim>\<open>createParallelepiped\<close> needs: the engine, a scene and a physics world.\<close>

definition buildable :: "'a scene_state_scheme \<Rightarrow> bool" where
  "buildable st = (AmmoLib st \<and> scene st \<noteq> None \<and> physicsWorld st \<noteq> None)"

text \<open>Every mesh listed in \<open>rigidBodies\<close> exists and carries a physics body.\<close>

definition bodiesOk :: "cloth_state \<Rightarrow> bool" where
  "bodiesOk st =
     list_all (\<lambda>m. m < length (meshes st) \<and> physicsBody (meshes st ! m) \<noteq> None) (rigidBodies st)"

text \<open>
  A state that differs from another one only by rigid bodies added to the scene: the mesh and
  body stores, the scene graph, the physics world and the list of dynamic bodies.
\<close>

definition bodiesOnly :: "cloth_state \<Rightarrow> cloth_state \<Rightarrow> bool" where
  "bodiesOnly st s =
     (s = st\<lparr>meshes := meshes s, rigid := rigid s, scene := scene s,
            physicsWorld := physicsWorld s, rigidBodies := rigidBodies s\<rparr>)"

definition grown :: "cloth_state \<Rightarrow> cloth_state \<Rightarrow> bool" where
  "grown st s =
     (bodiesOnly st s \<and> buildable s
      \<and> length (meshes st) \<le> length (meshes s)
      \<and> take (length (meshes st)) (meshes s) = meshes st
      \<and> (bodiesOk st \<longrightarrow> bodiesOk s))"

text \<open>The number of bricks in the rows \<open>j\<close>, \<open>j + 1\<close>, ... of the wall.\<close>

function bricksFrom :: "nat \<Rightarrow> nat" where
  "bricksFrom j =
     (if j < numBricksHeight
      then (if j mod 2 = 1 then numBricksLength + 1 else numBricksLength) + bricksFrom (j + 1)
      else 0)"
  by pat_completeness auto

termination
  by (relation "measure (\<lambda>j. numBricksHeight - j)") auto

text \<open>
  The cloth scene's cached references point at a plane geometry whose position buffer has
  one triplet for each vertex of the grid.
\<close>

definition clothBuffers :: "nat \<Rightarrow> nat \<Rightarrow> nat \<Rightarrow> cloth_state \<Rightarrow> bool" where
  "clothBuffers m a n st =
     (cloth st = Some m \<and> clothPosAttr st = Some a \<and> clothNormAttr st = Some n
      \<and> bufferLinked m a n st
      \<and> length (array (attrs st ! a)) = (clothNumSegmentsZ + 1) * (clothNumSegmentsY + 1) * 3)"

definition clothLinked :: "nat \<Rightarrow> nat \<Rightarrow> nat \<Rightarrow> nat \<Rightarrow> cloth_state \<Rightarrow> bool" where
  "clothLinked m a n sb st = (clothBuffers m a n st \<and> bodyLinked m a sb st)"

text \<open>A state that differs from another one only in what \<^verbatim>\<open>createObjects\<close> builds.\<close>

definition builtOnly :: "cloth_state \<Rightarrow> cloth_state \<Rightarrow> bool" where
  "builtOnly st s =
     (s = st\<lparr>meshes := meshes s, attrs := attrs s, rigid := rigid s, soft := soft s,
            scene := scene s, physicsWorld := physicsWorld s, rigidBodies := rigidBodies s,
            hinge := hinge s, cloth := cloth s, clothPosAttr := clothPosAttr s,
            clothNormAttr := clothNormAttr s\<rparr>)"

text \<open>The cloth's mesh and its soft body, built one after the other.\<close>

definition createClothPatch :: "libs \<Rightarrow> cloth_state \<Rightarrow> (error + unit) \<times> cloth_state" where
  "createClothPatch L st = andThen (createClothMesh L st) (\<lambda>u st. createClothBody st)"

text \<open>The triplet \<open>i\<close> of a vertex buffer: its entries \<open>3i\<close>, \<open>3i + 1\<close> and \<open>3i + 2\<close>.\<close>

definition triplet :: "real list \<Rightarrow> nat \<Rightarrow> vec3" where
  "triplet arr i = (arr ! (3 * i), arr ! (3 * i + 1), arr ! (3 * i + 2))"

text \<open>
  The attributes after the nodes were copied into the position attribute \<open>a\<close> of a plane whose
  normal attribute is \<open>n\<close>: the copied positions, the normals computed from them, both dirty.
\<close>

definition synced ::
  "libs \<Rightarrow> nat \<Rightarrow> nat \<Rightarrow> node list \<Rightarrow> buffer_attribute list \<Rightarrow> buffer_attribute list" where
  "synced L a n nodes as =
     (let arr = snd (syncLoop nodes 0 0 (array (as ! a)))
      in as[a := \<lparr>array = arr, needsUpdate = True\<rparr>,
            n := \<lparr>array = computeVertexNormals L (PlaneGeometry a n) arr,
                  needsUpdate = True\<rparr>])"

text \<open>The calls a frame of the cloth scene makes to the engine.\<close>

definition clothCalls :: "real \<Rightarrow> cloth_state \<Rightarrow> call list" where
  "clothCalls dt st =
     (if hinge st then [EnableAngularMotor True (0.8 * armMovement st) 50] else [])
     @ (case physicsWorld st of None \<Rightarrow> [] | Some w \<Rightarrow> [StepSimulation dt 10])"

text \<open>The state in which the first frame of a mounted cloth scene runs, engine loaded.\<close>

definition clothBuilt :: "libs \<Rightarrow> real \<Rightarrow> real \<Rightarrow> real \<Rightarrow> cloth_state" where
  "clothBuilt L w h dpr =
     initInput (snd (createObjects L (cloth_initPhysics
       (snd (cloth_initGraphics ((cloth_mount True w h dpr)\<lparr>AmmoLib := True\<rparr>))))))"

text \<open>
  A curtain scene whose engine is loaded and whose rods and patches are linked to their
  bodies, at the places where a freshly mounted scene creates them.
\<close>

definition engineReady :: "curtain_state \<Rightarrow> bool" where
  "engineReady st =
     (AmmoLib st \<and> physicsWorld st \<noteq> None
      \<and> curtainLinked 2 0 1 0 3 2 3 1 st \<and> rodLinked 0 0 1 1 st)"

text \<open>The position buffer behind a cached attribute reference; empty while there is none.\<close>

definition vertexBuffer :: "nat option \<Rightarrow> 'a env_scheme \<Rightarrow> real list" where
  "vertexBuffer attr st = (case attr of None \<Rightarrow> [] | Some a \<Rightarrow> array (attrs st ! a))"

text \<open>The nodes of the soft body behind a cached mesh reference; empty while there is none.\<close>

definition patchNodes :: "nat option \<Rightarrow> 'a env_scheme \<Rightarrow> node list" where
  "patchNodes mesh st =
     (case mesh of
        None \<Rightarrow> []
      | Some m \<Rightarrow>
          (case physicsBody (meshes st ! m) of
             None \<Rightarrow> []
           | Some s \<Rightarrow> m_nodes (soft st ! s)))"

text \<open>
  A curtain scene mounted on a page, booted with the given outcome of the engine's loading,
  after the page sent it the given events; and the same for a cloth scene whose engine loaded.
\<close>

definition curtainAfter ::
  "libs \<Rightarrow> load_outcome \<Rightarrow> real \<Rightarrow> real \<Rightarrow> real \<Rightarrow> real \<Rightarrow> real \<Rightarrow> event list \<Rightarrow> curtain_state" where
  "curtainAfter L outcome dt w h dpr y evs = run L evs (boot L outcome dt (mount True w h dpr y))"

definition clothAfter ::
  "libs \<Rightarrow> real \<Rightarrow> real \<Rightarrow> real \<Rightarrow> real \<Rightarrow> cloth_event list \<Rightarrow> cloth_state" where
  "clothAfter L dt w h dpr evs =
     cloth_run L evs (snd (cloth_boot_resume L AmmoLoads dt (cloth_mount True w h dpr)))"

text \<open>A cloth scene whose frame loop is alive: a frame is requested, the listeners are
  registered, and the next frame will run to its end.\<close>

definition clothRunning :: "cloth_state \<Rightarrow> bool" where
  "clothRunning st =
     (clothLinked 53 0 1 0 st \<and> bodiesOk st \<and> renderer st \<noteq> None \<and> frameRequests st = 1
      \<and> listeners st = [(''resize'', OnWindowResize), (''keydown'', Keydown), (''keyup'', Keyup)]
      \<and> consoleErrors st = [])"

text \<open>
  An engine for the examples: its step gives every rigid body the same velocities and moves
  every node of every soft body to the same point; its normals are the negated positions.
\<close>

definition stir :: libs where
  "stir =
     \<lparr>stepSimulation =
        (\<lambda>dt n w (rs, ss).
           (map (\<lambda>b. b\<lparr>linearVelocity := (1, 2, 3), angularVelocity := (4, 5, 6)\<rparr>) rs,
            map (\<lambda>b. b\<lparr>m_nodes := map (\<lambda>nd. nd\<lparr>m_x := (5, 6, 7)\<rparr>) (m_nodes b)\<rparr>) ss)),
      computeVertexNormals = (\<lambda>g ps. map uminus ps)\<rparr>"

text \<open>The positions of the nodes of the soft bodies.\<close>

definition positions :: "soft_body list \<Rightarrow> vec3 list list" where
  "positions ss = map (\<lambda>b. map m_x (m_nodes b)) ss"

text \<open>
  The nodes of the soft body \<open>s\<close> as the engine's step returns them, in a frame that lasts
  \<open>dt\<close> and hands the bodies of \<open>st\<close> to the step.
\<close>

definition steppedNodes :: "libs \<Rightarrow> real \<Rightarrow> physics_world \<Rightarrow> nat \<Rightarrow> 'a env_scheme \<Rightarrow> node list" where
  "steppedNodes L dt w s st = m_nodes (snd (stepSimulation L dt 10 w (rigid st, soft st)) ! s)"

text \<open>
  A state whose buffers are out of date: every attribute holds zeros and is marked as
  uploaded.
\<close>

definition stale :: "'a env_scheme \<Rightarrow> 'a env_scheme" where
  "stale st =
     st\<lparr>attrs := map (\<lambda>b. \<lparr>array = map (\<lambda>x. 0) (array b), needsUpdate = False\<rparr>) (attrs st)\<rparr>"

section \<open>Properties of the easing\<close>

lemma easeOutCubic_mono: "a \<le> b \<Longrightarrow> easeOutCubic a \<le> easeOutCubic b"
  unfolding easeOutCubic_def by (simp add: power_mono_odd)

text \<open>
  C3. The easing is \<open>1 - (1 - c)\<^sup>3\<close>, it takes the value 0 at 0 and 1 at 1, and it is
  monotonically non-decreasing on the control range \<open>[0, 1]\<close>.
\<close>

theorem easeOutCubic_spec:
  "easeOutCubic c = 1 - (1 - c) ^ 3
   \<and> easeOutCubic 0 = 0
   \<and> easeOutCubic 1 = 1
   \<and> (\<forall>a b. 0 \<le> a \<and> a \<le> b \<and> b \<le> 1 \<longrightarrow> easeOutCubic a \<le> easeOutCubic b)"
proof -
  have "easeOutCubic c = 1 - (1 - c) ^ 3" "easeOutCubic 0 = 0" "easeOutCubic 1 = 1"
    by (simp_all add: easeOutCubic_def)
  moreover have "\<forall>a b. 0 \<le> a \<and> a \<le> b \<and> b \<le> 1 \<longrightarrow> easeOutCubic a \<le> easeOutCubic b"
    using easeOutCubic_mono by blast
  ultimately show ?thesis by blast
qed

theorem easeOutCubic_spec_witness:
  "easeOutCubic (1 / 4) \<le> easeOutCubic (1 / 2) \<and> easeOutCubic 0 = 0 \<and> easeOutCubic 1 = 1"
proof -
  have "(0::real) \<le> 1 / 4 \<and> (1 / 4 :: real) \<le> 1 / 2 \<and> (1 / 2 :: real) \<le> 1" by simp
  then show ?thesis using easeOutCubic_spec [of 0] by blast
qed

section \<open>Properties of the scenes\<close>

lemma syncLoop_length: "length (snd (syncLoop nodes i i3 arr)) = length arr"
proof (induction nodes i i3 arr rule: syncLoop.induct)
  case (1 nodes i i3 arr)
  show ?case
  proof (cases "real i < real (length arr) / 3 \<and> i < length nodes")
    case True
    obtain px py pz where p: "m_x (nodes ! i) = (px, py, pz)" by (cases "m_x (nodes ! i)") auto
    from True p "1.IH" [of px "(py, pz)" py pz] show ?thesis
      by (subst syncLoop.simps) simp
  next
    case False
    then show ?thesis by (subst syncLoop.simps) auto
  qed
qed

lemma syncLoop_ok:
  "length arr \<le> 3 * length nodes \<Longrightarrow> fst (syncLoop nodes i i3 arr) = Inr ()"
proof (induction nodes i i3 arr rule: syncLoop.induct)
  case (1 nodes i i3 arr)
  show ?case
  proof (cases "real i < real (length arr) / 3")
    case True
    then have "3 * i < length arr" by linarith
    with "1.prems" have il: "i < length nodes" by linarith
    obtain px py pz where p: "m_x (nodes ! i) = (px, py, pz)" by (cases "m_x (nodes ! i)") auto
    from True il p "1.IH" [of px "(py, pz)" py pz] "1.prems" show ?thesis
      by (subst syncLoop.simps) simp
  next
    case False
    then show ?thesis by (subst syncLoop.simps) simp
  qed
qed

lemma syncLoop_nth:
  "i3 = 3 * i \<Longrightarrow> length arr \<le> 3 * length nodes \<Longrightarrow> j < length arr \<Longrightarrow>
   snd (syncLoop nodes i i3 arr) ! j =
     (if j < 3 * i then arr ! j else comp3 (m_x (nodes ! (j div 3))) (j mod 3))"
proof (induction nodes i i3 arr rule: syncLoop.induct)
  case (1 nodes i i3 arr)
  show ?case
  proof (cases "real i < real (length arr) / 3")
    case True
    then have lt: "3 * i < length arr" by linarith
    with "1.prems" have il: "i < length nodes" by linarith
    obtain px py pz where p: "m_x (nodes ! i) = (px, py, pz)" by (cases "m_x (nodes ! i)") auto
    let ?arr' = "arr[i3 := px, i3 + 1 := py, i3 + 2 := pz]"
    have step: "syncLoop nodes i i3 arr = syncLoop nodes (i + 1) (i3 + 3) ?arr'"
      using True il p by (subst syncLoop.simps) simp
    have IH: "snd (syncLoop nodes (i + 1) (i3 + 3) ?arr') ! j =
        (if j < 3 * (i + 1) then ?arr' ! j else comp3 (m_x (nodes ! (j div 3))) (j mod 3))"
      using "1.IH" [of px "(py, pz)" py pz] True il p "1.prems" by simp
    show ?thesis
    proof (cases "j < 3 * i")
      case True
      then show ?thesis using step IH "1.prems" by simp
    next
      case False
      show ?thesis
      proof (cases "j < 3 * (i + 1)")
        case True
        with False have "j = 3 * i \<or> j = 3 * i + 1 \<or> j = 3 * i + 2" by arith
        then consider "j = 3 * i" | "j = 3 * i + 1" | "j = 3 * i + 2" by blast
        then show ?thesis
        proof cases
          case 1
          then show ?thesis using step IH "1.prems" p by (simp add: comp3_def)
        next
          case 2
          then have "j div 3 = i" "j mod 3 = 1" by presburger+
          then show ?thesis using 2 step IH "1.prems" p by (simp add: comp3_def)
        next
          case 3
          then have "j div 3 = i" "j mod 3 = 2" by presburger+
          then show ?thesis using 3 step IH "1.prems" p by (simp add: comp3_def)
        qed
      next
        case False
        then show ?thesis using step IH by simp
      qed
    qed
  next
    case False
    then have "length arr \<le> 3 * i" by linarith
    with "1.prems" have "j < 3 * i" by linarith
    with False show ?thesis by (subst syncLoop.simps) simp
  qed
qed

lemma andThen_Inl [simp]: "andThen (Inl e, s) f = (Inl e, s)"
  by (simp add: andThen_def)

lemma andThen_Inr [simp]: "andThen (Inr a, s) f = f a s"
  by (simp add: andThen_def)

lemma andThen_keeps:
  assumes "P (snd r)" and "\<And>a s. P s \<Longrightarrow> P (snd (f a s))"
  shows "P (snd (andThen r f))"
proof (cases r)
  case (Pair x s)
  then show ?thesis using assms by (cases x) auto
qed

lemma if_keeps:
  assumes "c \<Longrightarrow> P (snd a)" and "\<not> c \<Longrightarrow> P (snd b)"
  shows "P (snd (if c then a else b))"
  using assms by simp

lemma option_keeps:
  assumes "x = None \<Longrightarrow> P (snd a)" and "\<And>m. x = Some m \<Longrightarrow> P (snd (f m))"
  shows "P (snd (case x of None \<Rightarrow> a | Some m \<Rightarrow> f m))"
  using assms by (cases x) simp_all

lemma storesOnly_refl [simp]: "storesOnly st st"
  by (simp add: storesOnly_def)

lemma storesOnly_trans: "storesOnly st s \<Longrightarrow> storesOnly s s' \<Longrightarrow> storesOnly st s'"
  unfolding storesOnly_def
proof -
  assume a: "s = st\<lparr>meshes := meshes s, attrs := attrs s, rigid := rigid s, soft := soft s,
            engineLog := engineLog s\<rparr>"
    and b: "s' = s\<lparr>meshes := meshes s', attrs := attrs s', rigid := rigid s', soft := soft s',
            engineLog := engineLog s'\<rparr>"
  have "s' = (st\<lparr>meshes := meshes s, attrs := attrs s, rigid := rigid s, soft := soft s,
            engineLog := engineLog s\<rparr>)\<lparr>meshes := meshes s', attrs := attrs s', rigid := rigid s', soft := soft s',
            engineLog := engineLog s'\<rparr>"
    using a b by metis
  then show "s' = st\<lparr>meshes := meshes s', attrs := attrs s', rigid := rigid s', soft := soft s',
            engineLog := engineLog s'\<rparr>" by simp
qed

lemma storesOnly_upd [simp]:
  "storesOnly st (st\<lparr>meshes := ms\<rparr>)"
  "storesOnly st (st\<lparr>attrs := as\<rparr>)"
  "storesOnly st (st\<lparr>rigid := rs\<rparr>)"
  "storesOnly st (st\<lparr>soft := ss\<rparr>)"
  "storesOnly st (st\<lparr>engineLog := lg\<rparr>)"
  by (simp_all add: storesOnly_def)

lemma storesOnly_addForce: "storesOnly st (addForce s idx force st)"
  by (simp add: storesOnly_def addForce_def Let_def)

lemma storesOnly_addForces: "storesOnly st (snd (addForces s force idxs st))"
proof (induction idxs arbitrary: st)
  case Nil
  then show ?case by simp
next
  case (Cons idx rest)
  show ?case
    using storesOnly_trans [OF storesOnly_addForce Cons.IH] by simp
qed

lemma storesOnly_applyAssist: "storesOnly st (snd (applyAssist t sr sd st))"
  by (cases sr) (simp_all add: applyAssist_def Let_def storesOnly_addForces)

lemma storesOnly_moveRod: "storesOnly st (moveRod t mesh sx dir st)"
  by (simp add: storesOnly_def moveRod_def Let_def split: option.splits)

lemma storesOnly_recomputeNormals: "storesOnly st (recomputeNormals L g st)"
  by (cases g) (simp_all add: recomputeNormals_def)

lemma storesOnly_markDirty: "storesOnly st (markDirty a st)"
  by (simp add: markDirty_def)

lemma storesOnly_env:
  assumes "storesOnly st s"
  shows "listeners s = listeners st" "frameRequests s = frameRequests st"
    "consoleErrors s = consoleErrors st" "container s = container st"
    "innerWidth s = innerWidth st" "innerHeight s = innerHeight st"
    "devicePixelRatio s = devicePixelRatio st" "scrollY s = scrollY st"
proof -
  have eq: "s = st\<lparr>meshes := meshes s, attrs := attrs s, rigid := rigid s, soft := soft s,
            engineLog := engineLog s\<rparr>" using assms by (simp add: storesOnly_def)
  show "listeners s = listeners st" by (subst eq) simp
  show "frameRequests s = frameRequests st" by (subst eq) simp
  show "consoleErrors s = consoleErrors st" by (subst eq) simp
  show "container s = container st" by (subst eq) simp
  show "innerWidth s = innerWidth st" by (subst eq) simp
  show "innerHeight s = innerHeight st" by (subst eq) simp
  show "devicePixelRatio s = devicePixelRatio st" by (subst eq) simp
  show "scrollY s = scrollY st" by (subst eq) simp
qed

lemma storesOnly_scene:
  assumes "storesOnly st s"
  shows "renderer s = renderer st" "scene s = scene st" "camera s = camera st"
    "AmmoLib s = AmmoLib st" "physicsWorld s = physicsWorld st"
proof -
  have eq: "s = st\<lparr>meshes := meshes s, attrs := attrs s, rigid := rigid s, soft := soft s,
            engineLog := engineLog s\<rparr>" using assms by (simp add: storesOnly_def)
  show "renderer s = renderer st" by (subst eq) simp
  show "scene s = scene st" by (subst eq) simp
  show "camera s = camera st" by (subst eq) simp
  show "AmmoLib s = AmmoLib st" by (subst eq) simp
  show "physicsWorld s = physicsWorld st" by (subst eq) simp
qed

lemma storesOnly_curtain:
  assumes "storesOnly st s"
  shows "leftCloth s = leftCloth st" "rightCloth s = rightCloth st"
    "leftPosAttr s = leftPosAttr st" "rightPosAttr s = rightPosAttr st"
    "leftRodMesh s = leftRodMesh st" "rightRodMesh s = rightRodMesh st"
    "leftRodStartX s = leftRodStartX st" "rightRodStartX s = rightRodStartX st"
    "slideDistance s = slideDistance st" "scrollProgress s = scrollProgress st"
proof -
  have eq: "s = st\<lparr>meshes := meshes s, attrs := attrs s, rigid := rigid s, soft := soft s,
            engineLog := engineLog s\<rparr>" using assms by (simp add: storesOnly_def)
  show "leftCloth s = leftCloth st" by (subst eq) simp
  show "rightCloth s = rightCloth st" by (subst eq) simp
  show "leftPosAttr s = leftPosAttr st" by (subst eq) simp
  show "rightPosAttr s = rightPosAttr st" by (subst eq) simp
  show "leftRodMesh s = leftRodMesh st" by (subst eq) simp
  show "rightRodMesh s = rightRodMesh st" by (subst eq) simp
  show "leftRodStartX s = leftRodStartX st" by (subst eq) simp
  show "rightRodStartX s = rightRodStartX st" by (subst eq) simp
  show "slideDistance s = slideDistance st" by (subst eq) simp
  show "scrollProgress s = scrollProgress st" by (subst eq) simp
qed

lemma storesOnly_cloth:
  assumes "storesOnly st s"
  shows "cloth s = cloth st" "clothPosAttr s = clothPosAttr st"
    "clothNormAttr s = clothNormAttr st" "rigidBodies s = rigidBodies st"
    "hinge s = hinge st" "armMovement s = armMovement st"
proof -
  have eq: "s = st\<lparr>meshes := meshes s, attrs := attrs s, rigid := rigid s, soft := soft s,
            engineLog := engineLog s\<rparr>" using assms by (simp add: storesOnly_def)
  show "cloth s = cloth st" by (subst eq) simp
  show "clothPosAttr s = clothPosAttr st" by (subst eq) simp
  show "clothNormAttr s = clothNormAttr st" by (subst eq) simp
  show "rigidBodies s = rigidBodies st" by (subst eq) simp
  show "hinge s = hinge st" by (subst eq) simp
  show "armMovement s = armMovement st" by (subst eq) simp
qed

lemma sync_unchanged:
  "meshes (snd (sync L m a st)) = meshes st"
  "rigid (snd (sync L m a st)) = rigid st"
  "soft (snd (sync L m a st)) = soft st"
  "engineLog (snd (sync L m a st)) = engineLog st"
  "length (attrs (snd (sync L m a st))) = length (attrs st)"
  by (auto simp add: sync_def Let_def recomputeNormals_def markDirty_def getAttribute_def
      split: option.splits prod.splits sum.splits geometry.splits)

lemma storesOnly_sync: "storesOnly st (snd (sync L m a st))"
  by (auto simp add: sync_def Let_def recomputeNormals_def markDirty_def getAttribute_def storesOnly_def
      split: option.splits prod.splits sum.splits geometry.splits)

lemma addForces_unchanged:
  "meshes (snd (addForces s force idxs st)) = meshes st"
  "attrs (snd (addForces s force idxs st)) = attrs st"
  "rigid (snd (addForces s force idxs st)) = rigid st"
  by (induction idxs arbitrary: st) (auto simp add: addForce_def Let_def)

lemma applyAssist_unchanged:
  "meshes (snd (applyAssist t sr sd st)) = meshes st"
  "attrs (snd (applyAssist t sr sd st)) = attrs st"
  "rigid (snd (applyAssist t sr sd st)) = rigid st"
  by (cases sr; simp add: applyAssist_def Let_def addForces_unchanged)+

lemma moveRod_unchanged:
  "attrs (moveRod t mesh sx dir st) = attrs st"
  "soft (moveRod t mesh sx dir st) = soft st"
  "length (meshes (moveRod t mesh sx dir st)) = length (meshes st)"
  "length (rigid (moveRod t mesh sx dir st)) = length (rigid st)"
  by (simp_all add: moveRod_def Let_def split: option.splits)

lemma moveRod_geometry:
  "geometry (meshes (moveRod t mesh sx dir st) ! k) = geometry (meshes st ! k)"
  "physicsBody (meshes (moveRod t mesh sx dir st) ! k) = physicsBody (meshes st ! k)"
proof -
  have *: "\<And>b (ms :: mesh list) p. geometry (ms[b := (ms ! b)\<lparr>position := p\<rparr>] ! k) = geometry (ms ! k)
      \<and> physicsBody (ms[b := (ms ! b)\<lparr>position := p\<rparr>] ! k) = physicsBody (ms ! k)"
  proof -
    fix b and ms :: "mesh list" and p
    show "geometry (ms[b := (ms ! b)\<lparr>position := p\<rparr>] ! k) = geometry (ms ! k)
      \<and> physicsBody (ms[b := (ms ! b)\<lparr>position := p\<rparr>] ! k) = physicsBody (ms ! k)"
      by (cases "b < length ms"; cases "k = b") (simp_all add: list_update_beyond)
  qed
  show "geometry (meshes (moveRod t mesh sx dir st) ! k) = geometry (meshes st ! k)"
    using * by (simp add: moveRod_def Let_def split: option.splits)
  show "physicsBody (meshes (moveRod t mesh sx dir st) ! k) = physicsBody (meshes st ! k)"
    using * by (simp add: moveRod_def Let_def split: option.splits)
qed

lemma length_translate [simp]: "length (translate v xs) = length xs"
  by (induction v xs rule: translate.induct) simp_all

lemma length_rotateY [simp]: "length (rotateY a xs) = length xs"
  by (induction a xs rule: rotateY.induct) simp_all

lemma length_triples: "length (concat (map (\<lambda>x. [f x, g x, h x]) xs)) = 3 * length xs"
  by (induction xs) simp_all

lemma length_rows:
  "(\<And>y. length (g y) = n) \<Longrightarrow> length (concat (map g ys)) = n * length ys"
  by (induction ys) simp_all

lemma length_planeVertices [simp]:
  "length (planeVertices w h gx gy) = (gx + 1) * (gy + 1) * 3"
proof -
  have "length (planeVertices w h gx gy) = (3 * length [0..<gx + 1]) * length [0..<gy + 1]"
    unfolding planeVertices_def by (rule length_rows) (rule length_triples)
  then show ?thesis by (simp add: algebra_simps)
qed

lemma length_planeNormals [simp]: "length (planeNormals gx gy) = (gx + 1) * (gy + 1) * 3"
  by (simp add: planeNormals_def length_concat sum_list_replicate)

lemma length_CreatePatch [simp]: "length (CreatePatch c00 c01 c10 c11 rx ry) = rx * ry"
  by (simp add: CreatePatch_def)

lemma CB_stores:
  assumes "storesOnly st s" "length (meshes s) = length (meshes st)"
    "\<And>k. geometry (meshes s ! k) = geometry (meshes st ! k)" "attrs s = attrs st"
  shows "curtainBuffers lc la lno rc ra rno s = curtainBuffers lc la lno rc ra rno st"
  using assms storesOnly_curtain [OF assms(1)]
  by (simp add: curtainBuffers_def bufferLinked_def)

lemma CB_moveRod:
  "curtainBuffers lc la lno rc ra rno (moveRod t mesh sx dir st)
     = curtainBuffers lc la lno rc ra rno st"
  by (rule CB_stores) (simp_all add: storesOnly_moveRod moveRod_unchanged moveRod_geometry)

lemma CB_applyAssist:
  "curtainBuffers lc la lno rc ra rno st \<Longrightarrow>
   curtainBuffers lc la lno rc ra rno (snd (applyAssist t sr sd st))"
  using CB_stores [OF storesOnly_applyAssist, of t sr sd st]
  by (simp add: applyAssist_unchanged)

lemma CB_sync_one:
  assumes "bufferLinked m a n st"
    and "curtainBuffers lc la lno rc ra rno st"
    and "(m = lc \<and> a = la \<and> n = lno) \<or> (m = rc \<and> a = ra \<and> n = rno)"
  shows "curtainBuffers lc la lno rc ra rno (snd (sync L (Some m) (Some a) st))"
proof (cases "physicsBody (meshes st ! m)")
  case None
  then show ?thesis using assms by (simp add: sync_def)
next
  case (Some s)
  obtain r arr where sl: "syncLoop (m_nodes (soft st ! s)) 0 0 (array (attrs st ! a)) = (r, arr)"
    by (cases "syncLoop (m_nodes (soft st ! s)) 0 0 (array (attrs st ! a))") auto
  have len: "length arr = length (array (attrs st ! a))"
    using syncLoop_length [of "m_nodes (soft st ! s)" 0 0 "array (attrs st ! a)"] sl by simp
  show ?thesis
    using assms Some sl len
    by (cases r)
      (auto simp add: sync_def Let_def curtainBuffers_def bufferLinked_def recomputeNormals_def
        markDirty_def getAttribute_def nth_list_update)
qed

lemma CB_sync_left:
  "curtainBuffers lc la lno rc ra rno st \<Longrightarrow>
   curtainBuffers lc la lno rc ra rno (snd (sync L (leftCloth st) (leftPosAttr st) st))"
  using CB_sync_one [of lc la lno st lc la lno rc ra rno L]
  by (simp add: curtainBuffers_def)

lemma CB_sync_right:
  "curtainBuffers lc la lno rc ra rno st \<Longrightarrow>
   curtainBuffers lc la lno rc ra rno (snd (sync L (rightCloth st) (rightPosAttr st) st))"
  using CB_sync_one [of rc ra rno st lc la lno rc ra rno L]
  by (simp add: curtainBuffers_def)

lemma CB_assistAndSync:
  assumes "curtainBuffers lc la lno rc ra rno st"
  shows "curtainBuffers lc la lno rc ra rno (snd (assistAndSync L t st))"
proof -
  let ?P = "curtainBuffers lc la lno rc ra rno"
  note k = andThen_keeps [where P = ?P] if_keeps [where P = ?P] option_keeps [where P = ?P]
  show ?thesis
    unfolding assistAndSync_def
    by (intro k CB_applyAssist CB_sync_left CB_sync_right) (simp_all add: assms)
qed

lemma CB_stepAndSync:
  assumes "curtainBuffers lc la lno rc ra rno st"
  shows "curtainBuffers lc la lno rc ra rno (snd (stepAndSync L dt t st))"
proof -
  let ?P = "curtainBuffers lc la lno rc ra rno"
  note k = andThen_keeps [where P = ?P] if_keeps [where P = ?P] option_keeps [where P = ?P]
  have upd: "\<And>rs ss lg. ?P (st\<lparr>rigid := rs, soft := ss, engineLog := lg\<rparr>)"
    using assms by (simp add: curtainBuffers_def bufferLinked_def)
  show ?thesis
    unfolding stepAndSync_def Let_def
    by (intro k CB_assistAndSync) (simp_all add: assms upd)
qed

lemma CB_animate:
  assumes "curtainBuffers lc la lno rc ra rno st"
  shows "curtainBuffers lc la lno rc ra rno (snd (animate L dt st))"
proof -
  let ?P = "curtainBuffers lc la lno rc ra rno"
  note k = andThen_keeps [where P = ?P] if_keeps [where P = ?P] option_keeps [where P = ?P]
  have upd: "\<And>s r fr. ?P s \<Longrightarrow> ?P (s\<lparr>renderer := r, frameRequests := fr\<rparr>)"
    by (simp add: curtainBuffers_def bufferLinked_def)
  show ?thesis
    unfolding animate_def Let_def moveRods_def
    by (intro k CB_stepAndSync) (simp_all add: assms upd CB_moveRod)
qed

lemma update_tail:
  "(xs @ ys)[length xs := v] = xs @ ys[0 := v]"
  "(xs @ ys)[Suc (length xs) := v] = xs @ ys[Suc 0 := v]"
  "(xs @ ys)[Suc (Suc (length xs)) := v] = xs @ ys[Suc (Suc 0) := v]"
  "(xs @ ys)[Suc (Suc (Suc (length xs))) := v] = xs @ ys[Suc (Suc (Suc 0)) := v]"
  by (simp_all add: list_update_append numeral_2_eq_2 numeral_3_eq_3)

lemma nth_tail:
  "(xs @ ys) ! (length xs) = ys ! 0"
  "(xs @ ys) ! (Suc (length xs)) = ys ! Suc 0"
  "(xs @ ys) ! (Suc (Suc (length xs))) = ys ! Suc (Suc 0)"
  "(xs @ ys) ! (Suc (Suc (Suc (length xs)))) = ys ! Suc (Suc (Suc 0))"
  by (simp_all add: nth_append numeral_2_eq_2 numeral_3_eq_3)

lemmas create_defs =
  createCurtains_def createRod_def assertReady_def sceneAdd_def Let_def
  mk_def makePatch_def setPhysicsBody_def anchorRow_def getAttribute_def

lemma createCurtains_physics_eq:
  assumes "computeViewSize st = (Inr (viewW, viewH), st)"
    "scene st = Some g" "camera st = Some cam" "renderer st = Some r"
    "AmmoLib st" "physicsWorld st = Some w"
  shows "createCurtains st =
    (Inr (),
      st\<lparr>slideDistance := viewW * 5,
           leftRodMesh := Some (length (meshes st)),
           rigid :=
             rigid st @
             [\<lparr>mass = 0, origin = (- (viewW / 4), viewH / 2 - 1 / 5, 0),
                 rotation = (0, 0, 0, 1), linearVelocity = (0, 0, 0),
                 angularVelocity = (0, 0, 0), active = False,
                 deactivationDisabled = False\<rparr>,
              \<lparr>mass = 0, origin = (viewW / 4, viewH / 2 - 1 / 5, 0),
                 rotation = (0, 0, 0, 1), linearVelocity = (0, 0, 0),
                 angularVelocity = (0, 0, 0), active = False,
                 deactivationDisabled = False\<rparr>],
           rightRodMesh := Some (Suc (length (meshes st))),
           leftRodStartX := - (viewW / 4), rightRodStartX := viewW / 4,
           leftCloth := Some (Suc (Suc (length (meshes st)))),
           attrs :=
             attrs st @
             [\<lparr>array =
                 translate (- (viewW / 4), - (1 / 5), 0)
                  (planeVertices (viewW / 2) viewH segX segY),
                 needsUpdate = True\<rparr>,
              \<lparr>array = planeNormals segX segY, needsUpdate = True\<rparr>,
              \<lparr>array =
                 translate (viewW / 4, - (1 / 5), 0)
                  (planeVertices (viewW / 2) viewH segX segY),
                 needsUpdate = True\<rparr>,
              \<lparr>array = planeNormals segX segY, needsUpdate = True\<rparr>],
           scene :=
             Some
              (g\<lparr>children :=
                   children g @
                   [length (meshes st), Suc (length (meshes st)),
                    Suc (Suc (length (meshes st))),
                    Suc (Suc (Suc (length (meshes st))))]\<rparr>),
           rightCloth := Some (Suc (Suc (Suc (length (meshes st))))),
           leftPosAttr := Some (length (attrs st)),
           rightPosAttr := Some (Suc (Suc (length (attrs st)))),
           physicsWorld :=
             Some
              (w\<lparr>rigidRefs :=
                   rigidRefs w @
                   [length (rigid st), Suc (length (rigid st))],
                   softRefs :=
                     softRefs w @
                     [length (soft st), Suc (length (soft st))]\<rparr>),
           meshes :=
             meshes st @
             [\<lparr>position = (- (viewW / 4), viewH / 2 - 1 / 5, 0),
                 quaternion = (0, 0, 0, 1),
                 geometry = BoxGeometry (viewW / 2) (1 / 10) (1 / 10),
                 physicsBody = Some (length (rigid st))\<rparr>,
              \<lparr>position = (viewW / 4, viewH / 2 - 1 / 5, 0),
                 quaternion = (0, 0, 0, 1),
                 geometry = BoxGeometry (viewW / 2) (1 / 10) (1 / 10),
                 physicsBody = Some (Suc (length (rigid st)))\<rparr>,
              \<lparr>position = (0, 0, 0), quaternion = (0, 0, 0, 1),
                 geometry =
                   PlaneGeometry (length (attrs st))
                    (Suc (length (attrs st))),
                 physicsBody = Some (length (soft st))\<rparr>,
              \<lparr>position = (0, 0, 0), quaternion = (0, 0, 0, 1),
                 geometry =
                   PlaneGeometry (Suc (Suc (length (attrs st))))
                    (Suc (Suc (Suc (length (attrs st))))),
                 physicsBody = Some (Suc (length (soft st)))\<rparr>],
           soft :=
             soft st @
             [\<lparr>m_nodes =
                 CreatePatch (- (viewW / 2), viewH / 2 - 1 / 5, 0)
                  (0, viewH / 2 - 1 / 5, 0)
                  (- (viewW / 2), - (viewH / 2) - 1 / 5, 0)
                  (0, - (viewH / 2) - 1 / 5, 0) (Suc segX) (Suc segY),
                 viterations = 18, piterations = 18, totalMass = 1,
                 collisionMargin = margin * 2, activationState = 4,
                 anchors =
                   map (\<lambda>i. (i, Some (length (rigid st)), 1)) [0..<segX] @
                   [(segX, Some (length (rigid st)), 1)]\<rparr>,
              \<lparr>m_nodes =
                 CreatePatch (0, viewH / 2 - 1 / 5, 0)
                  (viewW / 2, viewH / 2 - 1 / 5, 0)
                  (0, - (viewH / 2) - 1 / 5, 0)
                  (viewW / 2, - (viewH / 2) - 1 / 5, 0) (Suc segX)
                  (Suc segY),
                 viterations = 18, piterations = 18, totalMass = 1,
                 collisionMargin = margin * 2, activationState = 4,
                 anchors =
                   map (\<lambda>i. (i, Some (Suc (length (rigid st))), 1))
                    [0..<segX] @
                   [(segX, Some (Suc (length (rigid st))), 1)]\<rparr>]\<rparr>)"
  using assms
  by (simp add: create_defs update_tail nth_tail)

lemma createCurtains_static_eq:
  assumes "computeViewSize st = (Inr (viewW, viewH), st)"
    "scene st = Some g" "camera st = Some cam" "renderer st = Some r"
    "\<not> AmmoLib st"
  shows "createCurtains st =
    (Inr (),
      st\<lparr>slideDistance := viewW * 5,
           leftRodMesh := Some (length (meshes st)),
           rightRodMesh := Some (Suc (length (meshes st))),
           leftRodStartX := - (viewW / 4), rightRodStartX := viewW / 4,
           leftCloth := Some (Suc (Suc (length (meshes st)))),
           attrs :=
             attrs st @
             [\<lparr>array =
                 translate (- (viewW / 4), - (1 / 5), 0)
                  (planeVertices (viewW / 2) viewH segX segY),
                 needsUpdate = True\<rparr>,
              \<lparr>array = planeNormals segX segY, needsUpdate = True\<rparr>,
              \<lparr>array =
                 translate (viewW / 4, - (1 / 5), 0)
                  (planeVertices (viewW / 2) viewH segX segY),
                 needsUpdate = True\<rparr>,
              \<lparr>array = planeNormals segX segY, needsUpdate = True\<rparr>],
           meshes :=
             meshes st @
             [\<lparr>position = (- (viewW / 4), viewH / 2 - 1 / 5, 0),
                 quaternion = (0, 0, 0, 1),
                 geometry = BoxGeometry (viewW / 2) (1 / 10) (1 / 10),
                 physicsBody = None\<rparr>,
              \<lparr>position = (viewW / 4, viewH / 2 - 1 / 5, 0),
                 quaternion = (0, 0, 0, 1),
                 geometry = BoxGeometry (viewW / 2) (1 / 10) (1 / 10),
                 physicsBody = None\<rparr>,
              \<lparr>position = (0, 0, 0), quaternion = (0, 0, 0, 1),
                 geometry =
                   PlaneGeometry (length (attrs st))
                    (Suc (length (attrs st))),
                 physicsBody = None\<rparr>,
              \<lparr>position = (0, 0, 0), quaternion = (0, 0, 0, 1),
                 geometry =
                   PlaneGeometry (Suc (Suc (length (attrs st))))
                    (Suc (Suc (Suc (length (attrs st))))),
                 physicsBody = None\<rparr>],
           scene :=
             Some
              (g\<lparr>children :=
                   children g @
                   [length (meshes st), Suc (length (meshes st)),
                    Suc (Suc (length (meshes st))),
                    Suc (Suc (Suc (length (meshes st))))]\<rparr>),
           rightCloth := Some (Suc (Suc (Suc (length (meshes st))))),
           leftPosAttr := Some (length (attrs st)),
           rightPosAttr := Some (Suc (Suc (length (attrs st))))\<rparr>)"
  using assms
  by (simp add: create_defs update_tail nth_tail)

lemma computeViewSize_value:
  "scene st = Some g \<Longrightarrow> camera st = Some cam \<Longrightarrow> renderer st = Some r \<Longrightarrow>
   computeViewSize st =
     (Inr (2 * tan (fov cam * pi / 180 / 2) * snd (snd (camPosition cam)) * aspect cam,
           2 * tan (fov cam * pi / 180 / 2) * snd (snd (camPosition cam))), st)"
  by (simp add: computeViewSize_def assertReady_def Let_def)

lemma createCurtains_physics:
  assumes "scene st = Some g" "camera st = Some cam" "renderer st = Some r"
    "AmmoLib st" "physicsWorld st = Some w"
  shows "fst (createCurtains st) = Inr ()"
    and "curtainBuffers (Suc (Suc (length (meshes st)))) (length (attrs st)) (Suc (length (attrs st)))
           (Suc (Suc (Suc (length (meshes st))))) (Suc (Suc (length (attrs st))))
           (Suc (Suc (Suc (length (attrs st))))) (snd (createCurtains st))"
    and "bodyLinked (Suc (Suc (length (meshes st)))) (length (attrs st)) (length (soft st))
           (snd (createCurtains st))"
    and "bodyLinked (Suc (Suc (Suc (length (meshes st))))) (Suc (Suc (length (attrs st))))
           (Suc (length (soft st))) (snd (createCurtains st))"
    and "rodLinked (length (meshes st)) (length (rigid st)) (Suc (length (meshes st)))
           (Suc (length (rigid st))) (snd (createCurtains st))"
    and "graphicsReady (snd (createCurtains st))"
    and "AmmoLib (snd (createCurtains st))"
    and "physicsWorld (snd (createCurtains st)) \<noteq> None"
    and "listeners (snd (createCurtains st)) = listeners st"
    and "frameRequests (snd (createCurtains st)) = frameRequests st"
    and "consoleErrors (snd (createCurtains st)) = consoleErrors st"
    and "engineLog (snd (createCurtains st)) = engineLog st"
    and "renderer (snd (createCurtains st)) = renderer st"
    and "scrollY (snd (createCurtains st)) = scrollY st"
  unfolding createCurtains_physics_eq [OF computeViewSize_value [OF assms(1-3)] assms]
  by (simp_all add: curtainBuffers_def bufferLinked_def bodyLinked_def rodLinked_def
      graphicsReady_def assms nth_tail nth_append)

lemma createCurtains_static:
  assumes "scene st = Some g" "camera st = Some cam" "renderer st = Some r" "\<not> AmmoLib st"
  shows "fst (createCurtains st) = Inr ()"
    and "curtainBuffers (Suc (Suc (length (meshes st)))) (length (attrs st)) (Suc (length (attrs st)))
           (Suc (Suc (Suc (length (meshes st))))) (Suc (Suc (length (attrs st))))
           (Suc (Suc (Suc (length (attrs st))))) (snd (createCurtains st))"
    and "graphicsReady (snd (createCurtains st))"
    and "\<not> AmmoLib (snd (createCurtains st))"
    and "physicsWorld (snd (createCurtains st)) = physicsWorld st"
    and "listeners (snd (createCurtains st)) = listeners st"
    and "frameRequests (snd (createCurtains st)) = frameRequests st"
    and "consoleErrors (snd (createCurtains st)) = consoleErrors st"
    and "engineLog (snd (createCurtains st)) = engineLog st"
    and "renderer (snd (createCurtains st)) = renderer st"
    and "scrollY (snd (createCurtains st)) = scrollY st"
    and "soft (snd (createCurtains st)) = soft st"
    and "rigid (snd (createCurtains st)) = rigid st"
  unfolding createCurtains_static_eq [OF computeViewSize_value [OF assms(1-3)] assms]
  by (simp_all add: curtainBuffers_def bufferLinked_def graphicsReady_def assms nth_tail nth_append)

lemma andThen_fst_Inr: "fst r = Inr a \<Longrightarrow> andThen r f = f a (snd r)"
  by (cases r) (simp add: andThen_def)

lemma andThen_fst_Inl: "fst r = Inl e \<Longrightarrow> andThen r f = (Inl e, snd r)"
  by (cases r) (simp add: andThen_def)

lemma CB_catchAndLog:
  "curtainBuffers lc la lno rc ra rno (catchAndLog r) = curtainBuffers lc la lno rc ra rno (snd r)"
  by (cases r; cases "fst r")
    (auto simp add: catchAndLog_def curtainBuffers_def bufferLinked_def)

lemma CB_handlers:
  "curtainBuffers lc la lno rc ra rno (onScroll st) = curtainBuffers lc la lno rc ra rno st"
  "curtainBuffers lc la lno rc ra rno (onResize st) = curtainBuffers lc la lno rc ra rno st"
  "curtainBuffers lc la lno rc ra rno (cleanup st) = curtainBuffers lc la lno rc ra rno st"
  "curtainBuffers lc la lno rc ra rno (st\<lparr>scrollY := y\<rparr>) = curtainBuffers lc la lno rc ra rno st"
  "curtainBuffers lc la lno rc ra rno (st\<lparr>innerWidth := w, innerHeight := h\<rparr>)
     = curtainBuffers lc la lno rc ra rno st"
  "curtainBuffers lc la lno rc ra rno (st\<lparr>frameRequests := n\<rparr>)
     = curtainBuffers lc la lno rc ra rno st"
  by (simp_all add: onScroll_def onResize_def cleanup_def curtainBuffers_def bufferLinked_def
      split: option.splits)

lemma CB_dispatch:
  assumes "curtainBuffers lc la lno rc ra rno st"
  shows "curtainBuffers lc la lno rc ra rno (dispatch L ev st)"
  using assms
  by (cases ev) (simp_all add: dispatch_def Let_def CB_handlers CB_catchAndLog CB_animate)

lemma CB_run:
  "curtainBuffers lc la lno rc ra rno st \<Longrightarrow>
   curtainBuffers lc la lno rc ra rno (run L evs st)"
  unfolding run_def
  by (induction evs arbitrary: st) (simp_all add: CB_dispatch)

lemma initGraphics_container:
  assumes "container st"
  shows "scene (initGraphics st) = Some \<lparr>children = [], lights = 2\<rparr>"
    and "camera (initGraphics st) =
           Some \<lparr>fov = 60, aspect = innerWidth st / innerHeight st, near = 0.1, far = 2000,
                 camPosition = (0, 0, 8)\<rparr>"
    and "renderer (initGraphics st) =
           Some \<lparr>rendererSize = (innerWidth st, innerHeight st),
                 pixelRatio = devicePixelRatio st, opacity = [], disposed = False,
                 framesRendered = 0\<rparr>"
    and "storesOnly st (initGraphics st\<lparr>scene := scene st, camera := camera st,
           renderer := renderer st, listeners := listeners st\<rparr>)"
    and "AmmoLib (initGraphics st) = AmmoLib st"
    and "physicsWorld (initGraphics st) = physicsWorld st"
    and "meshes (initGraphics st) = meshes st"
    and "attrs (initGraphics st) = attrs st"
    and "rigid (initGraphics st) = rigid st"
    and "soft (initGraphics st) = soft st"
  using assms by (simp_all add: initGraphics_def storesOnly_def)

lemma boot_CB:
  assumes "container st" "\<not> AmmoLib st" "outcome = NoAmmoGlobal \<or> outcome = AmmoLoads"
  shows "curtainBuffers (Suc (Suc (length (meshes st)))) (length (attrs st)) (Suc (length (attrs st)))
           (Suc (Suc (Suc (length (meshes st))))) (Suc (Suc (length (attrs st))))
           (Suc (Suc (Suc (length (attrs st))))) (boot L outcome dt st)"
proof -
  let ?P = "curtainBuffers (Suc (Suc (length (meshes st)))) (length (attrs st)) (Suc (length (attrs st)))
           (Suc (Suc (Suc (length (meshes st))))) (Suc (Suc (length (attrs st))))
           (Suc (Suc (Suc (length (attrs st)))))"
  let ?g = "initGraphics st"
  note ig = initGraphics_container [OF assms(1)]
  have after: "\<And>s. ?P s \<Longrightarrow> ?P (snd (animate L dt (onScroll s)))"
  proof -
    fix s assume "?P s"
    then have "?P (onScroll s)" by (simp add: CB_handlers)
    then show "?P (snd (animate L dt (onScroll s)))" by (rule CB_animate)
  qed
  from assms(3) show ?thesis
  proof
    assume o: "outcome = NoAmmoGlobal"
    have na: "\<not> AmmoLib ?g" using ig(5) assms(2) by simp
    note cc = createCurtains_static [OF ig(1) ig(2) ig(3) na]
    have "?P (snd (createCurtains ?g))" using cc(2) ig(7) ig(8) by simp
    then show ?thesis
      using o cc(1) after
      by (simp add: boot_def boot_begin_def boot_resume_def CB_catchAndLog andThen_fst_Inr)
  next
    assume o: "outcome = AmmoLoads"
    let ?p = "initPhysics (?g\<lparr>AmmoLib := True\<rparr>)"
    have p: "scene ?p = scene ?g" "camera ?p = camera ?g" "renderer ?p = renderer ?g" "AmmoLib ?p"
      "physicsWorld ?p = Some \<lparr>worldGravity = (0, gravity, 0), rigidRefs = [], softRefs = [],
                constraints = 0\<rparr>" "meshes ?p = meshes st" "attrs ?p = attrs st"
      using ig by (simp_all add: initPhysics_def)
    note cc = createCurtains_physics [OF p(1)[unfolded ig(1)] p(2)[unfolded ig(2)] p(3)[unfolded ig(3)] p(4) p(5)]
    have "?P (snd (createCurtains ?p))" using cc(2) p(6) p(7) by simp
    then show ?thesis
      using o cc(1) after
      by (simp add: boot_def boot_begin_def boot_resume_def CB_catchAndLog andThen_fst_Inr)
  qed
qed

lemma nodeCounts_length [simp]: "length (nodeCounts ss) = length ss"
  by (simp add: nodeCounts_def)

lemma nodeCounts_nth: "k < length ss \<Longrightarrow> nodeCounts ss ! k = length (m_nodes (ss ! k))"
  by (simp add: nodeCounts_def)

lemma nodeCounts_eq_length: "nodeCounts ss' = nodeCounts ss \<Longrightarrow> length ss' = length ss"
  by (metis nodeCounts_length)

lemma nodeCounts_eq_nth:
  "nodeCounts ss' = nodeCounts ss \<Longrightarrow> k < length ss \<Longrightarrow>
   length (m_nodes (ss' ! k)) = length (m_nodes (ss ! k))"
  by (metis nodeCounts_length nodeCounts_nth)

lemma nodeCounts_update:
  "length (m_nodes b) = length (m_nodes (ss ! k)) \<Longrightarrow> nodeCounts (ss[k := b]) = nodeCounts ss"
  unfolding nodeCounts_def
  by (cases "k < length ss") (simp_all add: map_update list_update_beyond list_update_same_conv)

lemma bodyLinked_cong:
  assumes "physicsBody (meshes s ! m) = physicsBody (meshes st ! m)"
    "nodeCounts (soft s) = nodeCounts (soft st)"
    "length (array (attrs s ! a)) = length (array (attrs st ! a))"
  shows "bodyLinked m a k s = bodyLinked m a k st"
  using assms nodeCounts_eq_length [OF assms(2)] nodeCounts_eq_nth [OF assms(2)]
    nodeCounts_eq_nth [OF assms(2) [symmetric]]
  unfolding bodyLinked_def by auto

lemma addForce_nodeCounts [simp]:
  "nodeCounts (soft (addForce s idx force st)) = nodeCounts (soft st)"
  by (simp add: addForce_def Let_def nodeCounts_update)

lemma addForce_log [simp]:
  "engineLog (addForce s idx force st) = engineLog st @ [AddForce s idx force]"
  by (simp add: addForce_def Let_def)

lemma addForces_nodeCounts [simp]:
  "nodeCounts (soft (snd (addForces s force idxs st))) = nodeCounts (soft st)"
  by (induction idxs arbitrary: st) simp_all

lemma addForces_ok:
  assumes "s < length (soft st)" "\<forall>idx \<in> set idxs. idx < length (m_nodes (soft st ! s))"
  shows "fst (addForces s force idxs st) = Inr ()
     \<and> engineLog (snd (addForces s force idxs st))
         = engineLog st @ map (\<lambda>idx. AddForce s idx force) idxs"
  using assms
proof (induction idxs arbitrary: st)
  case Nil
  then show ?case by simp
next
  case (Cons idx rest)
  let ?st = "addForce s idx force st"
  have nc: "nodeCounts (soft ?st) = nodeCounts (soft st)" by simp
  have 1: "s < length (soft ?st)" using Cons.prems(1) nodeCounts_eq_length [OF nc] by simp
  have 2: "\<forall>i \<in> set rest. i < length (m_nodes (soft ?st ! s))"
    using Cons.prems nodeCounts_eq_nth [OF nc, of s] by simp
  show ?case using Cons.IH [OF 1 2] Cons.prems by simp
qed

lemma assistIndices_bound:
  "idx \<in> set (assistIndices sd 2) \<Longrightarrow> idx < (segX + 1) * (segY + 1)"
  by (auto simp add: assistIndices_def segX_def segY_def numeral_2_eq_2)

lemma applyAssist_nodeCounts [simp]:
  "nodeCounts (soft (snd (applyAssist t sr sd st))) = nodeCounts (soft st)"
  by (cases sr) (simp_all add: applyAssist_def Let_def)

lemma curtainLinked_nodes:
  assumes "curtainLinked lc la lno ls rc ra rno rs st"
  shows "length (m_nodes (soft st ! ls)) = (segX + 1) * (segY + 1)"
    and "length (m_nodes (soft st ! rs)) = (segX + 1) * (segY + 1)"
    and "ls < length (soft st)" "rs < length (soft st)"
    and "physicsBody (meshes st ! lc) = Some ls" "physicsBody (meshes st ! rc) = Some rs"
    and "leftCloth st = Some lc" "rightCloth st = Some rc"
    and "leftPosAttr st = Some la" "rightPosAttr st = Some ra"
  using assms by (simp_all add: curtainLinked_def curtainBuffers_def bodyLinked_def)

lemma applyAssist_linked:
  assumes "curtainLinked lc la lno ls rc ra rno rs st"
    and "(s = ls \<and> sd = SideLeft) \<or> (s = rs \<and> sd = SideRight)"
  shows "fst (applyAssist t (Some s) sd st) = Inr ()"
    and "curtainLinked lc la lno ls rc ra rno rs (snd (applyAssist t (Some s) sd st))"
    and "engineLog (snd (applyAssist t (Some s) sd st)) =
           engineLog st @
           map (\<lambda>idx. AddForce s idx
                  ((if sd = SideLeft then - tinyAssistForce * t else tinyAssistForce * t), 0, 0))
             (assistIndices sd 2)"
proof -
  note n = curtainLinked_nodes [OF assms(1)]
  have s: "s < length (soft st)" "length (m_nodes (soft st ! s)) = (segX + 1) * (segY + 1)"
    using assms(2) n by auto
  have bound: "\<forall>idx \<in> set (assistIndices sd 2). idx < length (m_nodes (soft st ! s))"
    using assistIndices_bound s(2) by simp
  note ok = addForces_ok [OF s(1) bound]
  show "fst (applyAssist t (Some s) sd st) = Inr ()"
    using ok by (simp add: applyAssist_def Let_def)
  show "engineLog (snd (applyAssist t (Some s) sd st)) =
           engineLog st @
           map (\<lambda>idx. AddForce s idx
                  ((if sd = SideLeft then - tinyAssistForce * t else tinyAssistForce * t), 0, 0))
             (assistIndices sd 2)"
    using ok by (simp add: applyAssist_def Let_def)
  let ?s = "snd (applyAssist t (Some s) sd st)"
  have cb: "curtainBuffers lc la lno rc ra rno ?s"
    using assms(1) CB_applyAssist by (simp add: curtainLinked_def)
  have "bodyLinked lc la ls ?s = bodyLinked lc la ls st"
    "bodyLinked rc ra rs ?s = bodyLinked rc ra rs st"
    by (rule bodyLinked_cong; simp add: applyAssist_unchanged)+
  then show "curtainLinked lc la lno ls rc ra rno rs ?s"
    using assms(1) cb by (simp add: curtainLinked_def)
qed

lemma sync_linked:
  assumes "curtainLinked lc la lno ls rc ra rno rs st"
    and "(m = lc \<and> a = la) \<or> (m = rc \<and> a = ra)"
  shows "fst (sync L (Some m) (Some a) st) = Inr ()"
    and "curtainLinked lc la lno ls rc ra rno rs (snd (sync L (Some m) (Some a) st))"
proof -
  let ?s = "snd (sync L (Some m) (Some a) st)"
  obtain n s where ms: "bufferLinked m a n st" "bodyLinked m a s st"
    "(m = lc \<and> a = la \<and> n = lno) \<or> (m = rc \<and> a = ra \<and> n = rno)"
    using assms by (auto simp add: curtainLinked_def curtainBuffers_def)
  have cb0: "curtainBuffers lc la lno rc ra rno st" using assms(1) by (simp add: curtainLinked_def)
  have pb: "physicsBody (meshes st ! m) = Some s"
    and len: "length (array (attrs st ! a)) \<le> 3 * length (m_nodes (soft st ! s))"
    using ms(2) by (simp_all add: bodyLinked_def)
  obtain arr where sl: "syncLoop (m_nodes (soft st ! s)) 0 0 (array (attrs st ! a)) = (Inr (), arr)"
    using syncLoop_ok [OF len, of 0 0]
    by (cases "syncLoop (m_nodes (soft st ! s)) 0 0 (array (attrs st ! a))") auto
  show "fst (sync L (Some m) (Some a) st) = Inr ()"
    using pb sl by (simp add: sync_def Let_def)
  have cb: "curtainBuffers lc la lno rc ra rno ?s"
    by (rule CB_sync_one [OF ms(1) cb0 ms(3)])
  have la: "length (array (attrs ?s ! la)) = length (array (attrs st ! la))"
    and ra: "length (array (attrs ?s ! ra)) = length (array (attrs st ! ra))"
    using cb cb0 by (simp_all add: curtainBuffers_def)
  have "bodyLinked lc la ls ?s = bodyLinked lc la ls st"
    by (rule bodyLinked_cong) (simp_all add: sync_unchanged la)
  moreover have "bodyLinked rc ra rs ?s = bodyLinked rc ra rs st"
    by (rule bodyLinked_cong) (simp_all add: sync_unchanged ra)
  ultimately show "curtainLinked lc la lno ls rc ra rno rs ?s"
    using assms(1) cb by (simp add: curtainLinked_def)
qed

lemma step_linked:
  assumes "curtainLinked lc la lno ls rc ra rno rs st" "keepsShape L"
  shows "curtainLinked lc la lno ls rc ra rno rs
           (st\<lparr>rigid := fst (stepSimulation L dt n w (rigid st, soft st)),
               soft := snd (stepSimulation L dt n w (rigid st, soft st)),
               engineLog := lg\<rparr>)"
proof -
  let ?s = "st\<lparr>rigid := fst (stepSimulation L dt n w (rigid st, soft st)),
               soft := snd (stepSimulation L dt n w (rigid st, soft st)),
               engineLog := lg\<rparr>"
  have nc: "nodeCounts (soft ?s) = nodeCounts (soft st)"
    using assms(2) by (simp add: keepsShape_def)
  have "bodyLinked lc la ls ?s = bodyLinked lc la ls st"
    "bodyLinked rc ra rs ?s = bodyLinked rc ra rs st"
    by (rule bodyLinked_cong; simp add: nc [simplified])+
  moreover have "curtainBuffers lc la lno rc ra rno ?s = curtainBuffers lc la lno rc ra rno st"
    by (simp add: curtainBuffers_def bufferLinked_def)
  ultimately show ?thesis using assms(1) by (simp add: curtainLinked_def)
qed

lemma assistAndSync_linked:
  assumes "curtainLinked lc la lno ls rc ra rno rs st"
  shows "fst (assistAndSync L t st) = Inr ()"
    and "curtainLinked lc la lno ls rc ra rno rs (snd (assistAndSync L t st))"
    and "engineLog (snd (assistAndSync L t st)) =
           engineLog st @
           map (\<lambda>idx. AddForce ls idx (- tinyAssistForce * t, 0, 0)) (assistIndices SideLeft 2) @
           map (\<lambda>idx. AddForce rs idx (tinyAssistForce * t, 0, 0)) (assistIndices SideRight 2)"
proof -
  let ?I = "curtainLinked lc la lno ls rc ra rno rs"
  define st2 where "st2 = snd (applyAssist t (Some ls) SideLeft st)"
  define st3 where "st3 = snd (applyAssist t (Some rs) SideRight st2)"
  define st4 where "st4 = snd (sync L (Some lc) (Some la) st3)"
  define st5 where "st5 = snd (sync L (Some rc) (Some ra) st4)"
  note a1 = applyAssist_linked [OF assms, of ls SideLeft t, simplified, folded st2_def]
  note a2 = applyAssist_linked [OF a1(2), of rs SideRight t, simplified, folded st3_def]
  note s1 = sync_linked [OF a2(2), of lc la L, simplified, folded st4_def]
  note s2 = sync_linked [OF s1(2), of rc ra L, simplified, folded st5_def]
  note n1 = curtainLinked_nodes [OF assms]
  note n2 = curtainLinked_nodes [OF a1(2)]
  note n3 = curtainLinked_nodes [OF a2(2)]
  note n4 = curtainLinked_nodes [OF s1(2)]
  have r1: "applyAssist t (Some ls) SideLeft st = (Inr (), st2)"
    using a1(1) by (simp add: st2_def prod_eq_iff)
  have r2: "applyAssist t (Some rs) SideRight st2 = (Inr (), st3)"
    using a2(1) by (simp add: st3_def prod_eq_iff)
  have r3: "sync L (Some lc) (Some la) st3 = (Inr (), st4)"
    using s1(1) by (simp add: st4_def prod_eq_iff)
  have r4: "sync L (Some rc) (Some ra) st4 = (Inr (), st5)"
    using s2(1) by (simp add: st5_def prod_eq_iff)
  have eq: "assistAndSync L t st = (Inr (), st5)"
    using n1 n2 n3 n4 r1 r2 r3 r4
    by (simp add: assistAndSync_def tinyAssistForce_def)
  show "fst (assistAndSync L t st) = Inr ()" using eq by simp
  show "?I (snd (assistAndSync L t st))" using eq s2(2) by simp
  have "engineLog st5 = engineLog st3"
    by (simp add: st5_def st4_def sync_unchanged)
  then show "engineLog (snd (assistAndSync L t st)) =
           engineLog st @
           map (\<lambda>idx. AddForce ls idx (- tinyAssistForce * t, 0, 0)) (assistIndices SideLeft 2) @
           map (\<lambda>idx. AddForce rs idx (tinyAssistForce * t, 0, 0)) (assistIndices SideRight 2)"
    using eq a1(3) a2(3) by simp
qed

lemma stepAndSync_linked:
  assumes "curtainLinked lc la lno ls rc ra rno rs st" "keepsShape L"
    "physicsWorld st = Some w" "AmmoLib st"
  shows "fst (stepAndSync L dt t st) = Inr ()"
    and "curtainLinked lc la lno ls rc ra rno rs (snd (stepAndSync L dt t st))"
    and "engineLog (snd (stepAndSync L dt t st)) =
           engineLog st @ [StepSimulation dt 10] @
           map (\<lambda>idx. AddForce ls idx (- tinyAssistForce * t, 0, 0)) (assistIndices SideLeft 2) @
           map (\<lambda>idx. AddForce rs idx (tinyAssistForce * t, 0, 0)) (assistIndices SideRight 2)"
proof -
  let ?st1 = "st\<lparr>rigid := fst (stepSimulation L dt 10 w (rigid st, soft st)),
               soft := snd (stepSimulation L dt 10 w (rigid st, soft st)),
               engineLog := engineLog st @ [StepSimulation dt 10]\<rparr>"
  have I1: "curtainLinked lc la lno ls rc ra rno rs ?st1"
    by (rule step_linked [OF assms(1,2)])
  have eq: "stepAndSync L dt t st = assistAndSync L t ?st1"
    using assms(3,4) by (simp add: stepAndSync_def Let_def)
  note a = assistAndSync_linked [OF I1, of L t]
  show "fst (stepAndSync L dt t st) = Inr ()" using eq a(1) by simp
  show "curtainLinked lc la lno ls rc ra rno rs (snd (stepAndSync L dt t st))"
    using eq a(2) by simp
  show "engineLog (snd (stepAndSync L dt t st)) =
           engineLog st @ [StepSimulation dt 10] @
           map (\<lambda>idx. AddForce ls idx (- tinyAssistForce * t, 0, 0)) (assistIndices SideLeft 2) @
           map (\<lambda>idx. AddForce rs idx (tinyAssistForce * t, 0, 0)) (assistIndices SideRight 2)"
    using eq a(3) by simp
qed

lemma storesOnly_assistAndSync: "storesOnly st (snd (assistAndSync L t st))"
proof -
  let ?P = "storesOnly st"
  note k = andThen_keeps [where P = ?P] if_keeps [where P = ?P] option_keeps [where P = ?P]
  have a: "\<And>s sr sd. ?P s \<Longrightarrow> ?P (snd (applyAssist t sr sd s))"
    using storesOnly_trans storesOnly_applyAssist by blast
  have b: "\<And>s m a. ?P s \<Longrightarrow> ?P (snd (sync L m a s))"
    using storesOnly_trans storesOnly_sync by blast
  show ?thesis
    unfolding assistAndSync_def
    by (intro k a b) simp_all
qed

lemma storesOnly_stepAndSync: "storesOnly st (snd (stepAndSync L dt t st))"
proof -
  have "\<And>rs ss lg. storesOnly st (snd (assistAndSync L t (st\<lparr>rigid := rs, soft := ss, engineLog := lg\<rparr>)))"
  proof -
    fix rs ss lg
    have "storesOnly st (st\<lparr>rigid := rs, soft := ss, engineLog := lg\<rparr>)"
      by (simp add: storesOnly_def)
    then show "storesOnly st (snd (assistAndSync L t (st\<lparr>rigid := rs, soft := ss, engineLog := lg\<rparr>)))"
      using storesOnly_trans storesOnly_assistAndSync by blast
  qed
  then show ?thesis
    by (simp add: stepAndSync_def Let_def split: option.splits)
qed

lemma assistAndSync_meshes [simp]: "meshes (snd (assistAndSync L t st)) = meshes st"
proof -
  let ?P = "\<lambda>s. meshes s = meshes st"
  note k = andThen_keeps [where P = ?P] if_keeps [where P = ?P] option_keeps [where P = ?P]
  show ?thesis
    unfolding assistAndSync_def
    by (intro k) (simp_all add: applyAssist_unchanged sync_unchanged)
qed

lemma stepAndSync_meshes [simp]: "meshes (snd (stepAndSync L dt t st)) = meshes st"
  by (simp add: stepAndSync_def Let_def split: option.splits)

lemma assistAndSync_rigid [simp]: "rigid (snd (assistAndSync L t st)) = rigid st"
proof -
  let ?P = "\<lambda>s. rigid s = rigid st"
  note k = andThen_keeps [where P = ?P] if_keeps [where P = ?P] option_keeps [where P = ?P]
  show ?thesis
    unfolding assistAndSync_def
    by (intro k) (simp_all add: applyAssist_unchanged sync_unchanged)
qed

lemma storesOnly_moveRods: "storesOnly st (moveRods t st)"
  unfolding moveRods_def Let_def
  using storesOnly_trans storesOnly_moveRod by blast

lemma moveRods_unchanged:
  "attrs (moveRods t st) = attrs st"
  "soft (moveRods t st) = soft st"
  "length (meshes (moveRods t st)) = length (meshes st)"
  "length (rigid (moveRods t st)) = length (rigid st)"
  "geometry (meshes (moveRods t st) ! k) = geometry (meshes st ! k)"
  "physicsBody (meshes (moveRods t st) ! k) = physicsBody (meshes st ! k)"
  by (simp_all add: moveRods_def Let_def moveRod_unchanged moveRod_geometry)

lemma CB_moveRods:
  "curtainBuffers lc la lno rc ra rno (moveRods t st) = curtainBuffers lc la lno rc ra rno st"
  by (simp add: moveRods_def Let_def CB_moveRod)

lemma curtainLinked_moveRods:
  "curtainLinked lc la lno ls rc ra rno rs (moveRods t st)
     = curtainLinked lc la lno ls rc ra rno rs st"
proof -
  have "bodyLinked lc la ls (moveRods t st) = bodyLinked lc la ls st"
    "bodyLinked rc ra rs (moveRods t st) = bodyLinked rc ra rs st"
    by (rule bodyLinked_cong; simp add: moveRods_unchanged)+
  then show ?thesis by (simp add: curtainLinked_def CB_moveRods)
qed

lemma moveRod_linked_eq:
  assumes "physicsBody (meshes st ! b) = Some body" "AmmoLib st"
  shows "moveRod t (Some b) sx dir st =
     st\<lparr>meshes := (meshes st)[b := (meshes st ! b)
            \<lparr>position := (sx + dir * slideDistance st * t,
                          fst (snd (position (meshes st ! b))),
                          snd (snd (position (meshes st ! b))))\<rparr>],
        rigid := (rigid st)[body :=
            activate (setAngularVelocity (0, 0, 0) (setLinearVelocity (0, 0, 0)
              (setWorldTransform
                 (sx + dir * slideDistance st * t,
                  fst (snd (position (meshes st ! b))),
                  snd (snd (position (meshes st ! b))))
                 (quaternion (meshes st ! b)) (rigid st ! body))))],
        engineLog := engineLog st @
            [SetWorldTransform body
               (sx + dir * slideDistance st * t,
                fst (snd (position (meshes st ! b))),
                snd (snd (position (meshes st ! b))))
               (quaternion (meshes st ! b)),
             SetLinearVelocity body (0, 0, 0),
             SetAngularVelocity body (0, 0, 0),
             Activate body]\<rparr>"
  using assms by (simp add: moveRod_def Let_def)

lemma moveRod_position:
  assumes "b < length (meshes st)"
  shows "position (meshes (moveRod t (Some b) sx dir st) ! b) =
           (sx + dir * slideDistance st * t,
            fst (snd (position (meshes st ! b))),
            snd (snd (position (meshes st ! b))))"
    and "k \<noteq> b \<Longrightarrow> meshes (moveRod t (Some b) sx dir st) ! k = meshes st ! k"
  using assms by (simp_all add: moveRod_def Let_def split: option.splits)

lemma moveRods_positions:
  assumes "leftRodMesh st = Some lr" "rightRodMesh st = Some rr" "lr \<noteq> rr"
    "lr < length (meshes st)" "rr < length (meshes st)"
  shows "fst (position (meshes (moveRods t st) ! lr)) = leftRodStartX st - slideDistance st * t"
    and "fst (position (meshes (moveRods t st) ! rr)) = rightRodStartX st + slideDistance st * t"
proof -
  let ?s = "moveRod t (Some lr) (leftRodStartX st) (- 1) st"
  have so: "storesOnly st ?s" by (rule storesOnly_moveRod)
  note c = storesOnly_curtain [OF so]
  have eq: "moveRods t st = moveRod t (Some rr) (rightRodStartX st) 1 ?s"
    using assms(1,2) c by (simp add: moveRods_def Let_def)
  have len: "rr < length (meshes ?s)" using assms(5) by (simp add: moveRod_unchanged)
  show "fst (position (meshes (moveRods t st) ! rr)) = rightRodStartX st + slideDistance st * t"
    using moveRod_position(1) [OF len, of t "rightRodStartX st" 1] eq c by simp
  have "meshes (moveRods t st) ! lr = meshes ?s ! lr"
    using moveRod_position(2) [OF len, of lr t "rightRodStartX st" 1] assms(3) eq by simp
  then show "fst (position (meshes (moveRods t st) ! lr)) = leftRodStartX st - slideDistance st * t"
    using moveRod_position(1) [OF assms(4), of t "leftRodStartX st" "- 1"] by simp
qed

lemma animate_not_ready:
  "\<not> graphicsReady st \<Longrightarrow> animate L dt st = (Inr (), st)"
  by (auto simp add: animate_def graphicsReady_def)

lemma animate_throw:
  assumes "graphicsReady st"
    "fst (stepAndSync L dt (easeOutCubic (scrollProgress st))
            (moveRods (easeOutCubic (scrollProgress st)) st)) = Inl e"
  shows "animate L dt st =
     (Inl e, snd (stepAndSync L dt (easeOutCubic (scrollProgress st))
            (moveRods (easeOutCubic (scrollProgress st)) st)))"
proof -
  obtain g cam rd where "scene st = Some g" "camera st = Some cam" "renderer st = Some rd"
    using assms(1) by (auto simp add: graphicsReady_def)
  then show ?thesis
    using assms(2) by (simp add: animate_def Let_def andThen_fst_Inl)
qed

lemma animate_done:
  assumes "graphicsReady st" "renderer st = Some rd"
    "fst (stepAndSync L dt (easeOutCubic (scrollProgress st))
            (moveRods (easeOutCubic (scrollProgress st)) st)) = Inr ()"
  shows "animate L dt st =
     (Inr (), (snd (stepAndSync L dt (easeOutCubic (scrollProgress st))
                 (moveRods (easeOutCubic (scrollProgress st)) st)))
        \<lparr>renderer := Some (render (rd\<lparr>opacity :=
             (if easeOutCubic (scrollProgress st) \<ge> 1 then ''0'' else ''1'')\<rparr>)),
         frameRequests := frameRequests st + 1\<rparr>)"
proof -
  let ?t = "easeOutCubic (scrollProgress st)"
  let ?s = "snd (stepAndSync L dt ?t (moveRods ?t st))"
  have so: "storesOnly st ?s"
    using storesOnly_trans [OF storesOnly_moveRods storesOnly_stepAndSync] .
  have "renderer ?s = Some rd" "frameRequests ?s = frameRequests st"
    using storesOnly_scene [OF so] storesOnly_env [OF so] assms(2) by simp_all
  moreover obtain g cam where "scene st = Some g" "camera st = Some cam"
    using assms(1) by (auto simp add: graphicsReady_def)
  ultimately show ?thesis
    using assms(2,3) by (simp add: animate_def Let_def andThen_fst_Inr)
qed

lemma animate_meshes:
  "graphicsReady st \<Longrightarrow>
   meshes (snd (animate L dt st)) = meshes (moveRods (easeOutCubic (scrollProgress st)) st)"
proof -
  assume r: "graphicsReady st"
  let ?t = "easeOutCubic (scrollProgress st)"
  let ?r = "stepAndSync L dt ?t (moveRods ?t st)"
  obtain rd where rd: "renderer st = Some rd" using r by (auto simp add: graphicsReady_def)
  show ?thesis
  proof (cases "fst ?r")
    case (Inl e)
    then show ?thesis using animate_throw [OF r Inl] by simp
  next
    case (Inr u)
    then show ?thesis using animate_done [OF r rd, of L dt] by simp
  qed
qed

lemma moveRods_linked:
  assumes "rodLinked lr lb rr rb st" "AmmoLib st"
  shows "rodLinked lr lb rr rb (moveRods t st)"
    and "linearVelocity (rigid (moveRods t st) ! lb) = (0, 0, 0)"
    and "angularVelocity (rigid (moveRods t st) ! lb) = (0, 0, 0)"
    and "mass (rigid st ! lb) = 0 \<Longrightarrow>
           active (rigid (moveRods t st) ! lb) = active (rigid st ! lb)"
    and "linearVelocity (rigid (moveRods t st) ! rb) = (0, 0, 0)"
    and "angularVelocity (rigid (moveRods t st) ! rb) = (0, 0, 0)"
    and "mass (rigid st ! rb) = 0 \<Longrightarrow>
           active (rigid (moveRods t st) ! rb) = active (rigid st ! rb)"
    and "engineLog (moveRods t st) =
           engineLog st @
           rodCalls lb (leftRodStartX st - slideDistance st * t,
                        fst (snd (position (meshes st ! lr))),
                        snd (snd (position (meshes st ! lr))))
                       (quaternion (meshes st ! lr)) @
           rodCalls rb (rightRodStartX st + slideDistance st * t,
                        fst (snd (position (meshes st ! rr))),
                        snd (snd (position (meshes st ! rr))))
                       (quaternion (meshes st ! rr))"
    and "fst (origin (rigid (moveRods t st) ! lb)) = leftRodStartX st - slideDistance st * t"
    and "fst (origin (rigid (moveRods t st) ! rb)) = rightRodStartX st + slideDistance st * t"
proof -
  note r = assms(1) [unfolded rodLinked_def]
  let ?s = "moveRod t (Some lr) (leftRodStartX st) (- 1) st"
  have e1: "?s = st\<lparr>meshes := (meshes st)[lr := (meshes st ! lr)
            \<lparr>position := (leftRodStartX st + - 1 * slideDistance st * t,
                          fst (snd (position (meshes st ! lr))),
                          snd (snd (position (meshes st ! lr))))\<rparr>],
        rigid := (rigid st)[lb :=
            activate (setAngularVelocity (0, 0, 0) (setLinearVelocity (0, 0, 0)
              (setWorldTransform
                 (leftRodStartX st + - 1 * slideDistance st * t,
                  fst (snd (position (meshes st ! lr))),
                  snd (snd (position (meshes st ! lr))))
                 (quaternion (meshes st ! lr)) (rigid st ! lb))))],
        engineLog := engineLog st @
            [SetWorldTransform lb
               (leftRodStartX st + - 1 * slideDistance st * t,
                fst (snd (position (meshes st ! lr))),
                snd (snd (position (meshes st ! lr))))
               (quaternion (meshes st ! lr)),
             SetLinearVelocity lb (0, 0, 0),
             SetAngularVelocity lb (0, 0, 0),
             Activate lb]\<rparr>"
    using r assms(2) by (intro moveRod_linked_eq) simp_all
  have pb: "physicsBody (meshes ?s ! rr) = Some rb" "AmmoLib ?s"
    using r assms(2) by (simp_all add: e1)
  have eq: "moveRods t st = moveRod t (Some rr) (rightRodStartX st) 1 ?s"
    using r by (simp add: moveRods_def Let_def e1)
  note e2 = moveRod_linked_eq [OF pb, of t "rightRodStartX st" 1]
  have vals: "meshes ?s ! rr = meshes st ! rr" "slideDistance ?s = slideDistance st"
    using r by (simp_all add: e1)
  show "rodLinked lr lb rr rb (moveRods t st)"
    unfolding eq e2 using r by (simp add: rodLinked_def e1)
  show "linearVelocity (rigid (moveRods t st) ! lb) = (0, 0, 0)"
    unfolding eq e2 using r
    by (simp add: e1 activate_def setAngularVelocity_def setLinearVelocity_def
        setWorldTransform_def nth_list_update)
  show "angularVelocity (rigid (moveRods t st) ! lb) = (0, 0, 0)"
    unfolding eq e2 using r
    by (simp add: e1 activate_def setAngularVelocity_def setLinearVelocity_def
        setWorldTransform_def nth_list_update)
  show "active (rigid (moveRods t st) ! lb) = active (rigid st ! lb)" if "mass (rigid st ! lb) = 0"
    unfolding eq e2 using r that
    by (simp add: e1 activate_def setAngularVelocity_def setLinearVelocity_def
        setWorldTransform_def nth_list_update)
  show "linearVelocity (rigid (moveRods t st) ! rb) = (0, 0, 0)"
    unfolding eq e2 using r
    by (simp add: e1 activate_def setAngularVelocity_def setLinearVelocity_def
        setWorldTransform_def nth_list_update)
  show "angularVelocity (rigid (moveRods t st) ! rb) = (0, 0, 0)"
    unfolding eq e2 using r
    by (simp add: e1 activate_def setAngularVelocity_def setLinearVelocity_def
        setWorldTransform_def nth_list_update)
  show "active (rigid (moveRods t st) ! rb) = active (rigid st ! rb)" if "mass (rigid st ! rb) = 0"
    unfolding eq e2 using r that
    by (simp add: e1 activate_def setAngularVelocity_def setLinearVelocity_def
        setWorldTransform_def nth_list_update)
  show "engineLog (moveRods t st) =
           engineLog st @
           rodCalls lb (leftRodStartX st - slideDistance st * t,
                        fst (snd (position (meshes st ! lr))),
                        snd (snd (position (meshes st ! lr))))
                       (quaternion (meshes st ! lr)) @
           rodCalls rb (rightRodStartX st + slideDistance st * t,
                        fst (snd (position (meshes st ! rr))),
                        snd (snd (position (meshes st ! rr))))
                       (quaternion (meshes st ! rr))"
    unfolding eq e2 using r by (simp add: e1 rodCalls_def)
  show "fst (origin (rigid (moveRods t st) ! lb)) = leftRodStartX st - slideDistance st * t"
    unfolding eq e2 using r
    by (simp add: e1 activate_def setAngularVelocity_def setLinearVelocity_def
        setWorldTransform_def nth_list_update)
  show "fst (origin (rigid (moveRods t st) ! rb)) = rightRodStartX st + slideDistance st * t"
    unfolding eq e2 using r
    by (simp add: e1 activate_def setAngularVelocity_def setLinearVelocity_def
        setWorldTransform_def nth_list_update)
qed

lemma computeViewSize_not_ready:
  "scene st = None \<or> camera st = None \<or> renderer st = None \<Longrightarrow>
   computeViewSize st = (Inl GraphicsNotReady, st)"
  by (auto simp add: computeViewSize_def assertReady_def)

lemma computeViewSize_pure: "snd (computeViewSize st) = st"
  by (cases "camera st") (auto simp add: computeViewSize_def assertReady_def Let_def)

text \<open>
  C4. With the scene, the camera and the renderer in place, \<open>computeViewSize\<close> returns
  \<open>viewH = 2 * tan (vFov / 2) * dist\<close> and \<open>viewW = viewH * aspect\<close>, where \<open>vFov\<close> is the
  camera's vertical field of view in radians (the camera stores it in degrees) and \<open>dist\<close>
  its distance to the plane \<open>z = 0\<close>; when one of the three is missing it throws the
  not-ready error; in both cases it leaves the state as it was.
\<close>

theorem computeViewSize_spec:
  "(scene st = Some g \<and> camera st = Some cam \<and> renderer st = Some r \<longrightarrow>
      computeViewSize st =
        (Inr (2 * tan (fov cam * pi / 180 / 2) * snd (snd (camPosition cam)) * aspect cam,
              2 * tan (fov cam * pi / 180 / 2) * snd (snd (camPosition cam))), st))
   \<and> (scene st = None \<or> camera st = None \<or> renderer st = None \<longrightarrow>
      computeViewSize st = (Inl GraphicsNotReady, st))
   \<and> snd (computeViewSize st) = st"
  using computeViewSize_value [of st g cam r] computeViewSize_not_ready [of st]
    computeViewSize_pure [of st]
  by blast

theorem computeViewSize_spec_witness:
  "computeViewSize (initGraphics (mount True 1280 720 1 0)) =
     (Inr (2 * tan (60 * pi / 180 / 2) * 8 * (1280 / 720), 2 * tan (60 * pi / 180 / 2) * 8),
      initGraphics (mount True 1280 720 1 0))
   \<and> computeViewSize (mount True 1280 720 1 0) = (Inl GraphicsNotReady, mount True 1280 720 1 0)"
  using computeViewSize_spec [of "initGraphics (mount True 1280 720 1 0)"
          "\<lparr>children = [], lights = 2\<rparr>"
          "\<lparr>fov = 60, aspect = 1280 / 720, near = 0.1, far = 2000, camPosition = (0, 0, 8)\<rparr>"
          "\<lparr>rendererSize = (1280, 720), pixelRatio = 1, opacity = [], disposed = False,
            framesRendered = 0\<rparr>"]
        computeViewSize_spec [of "mount True 1280 720 1 0"
          "\<lparr>children = [], lights = 2\<rparr>"
          "\<lparr>fov = 60, aspect = 1280 / 720, near = 0.1, far = 2000, camPosition = (0, 0, 8)\<rparr>"
          "\<lparr>rendererSize = (1280, 720), pixelRatio = 1, opacity = [], disposed = False,
            framesRendered = 0\<rparr>"]
  by (simp add: initGraphics_def mount_def)

lemma onScroll_range: "0 \<le> scrollProgress (onScroll st) \<and> scrollProgress (onScroll st) \<le> 1"
  by (simp add: onScroll_def)

text \<open>
  C5. A frame places the left rod at \<open>leftRodStartX - slideDistance * ease c\<close> and the
  right rod at \<open>rightRodStartX + slideDistance * ease c\<close>, where \<open>c\<close> is the control signal
  (\<open>moveRod\<close> computes \<open>start + dir * slideDistance * ease c\<close> with \<open>dir\<close> -1 and +1); at
  \<open>c = 0\<close> the rods are at their start positions, at \<open>c = 1\<close> at
  \<open>start - slideDistance\<close> and \<open>start + slideDistance\<close>. The signal a scroll leaves is in
  \<open>[0, 1]\<close>.
\<close>

theorem rods_slide:
  assumes "graphicsReady st"
    and "leftRodMesh st = Some lr" "rightRodMesh st = Some rr" "lr \<noteq> rr"
    and "lr < length (meshes st)" "rr < length (meshes st)"
    and "scrollProgress st = c"
  shows "fst (position (meshes (snd (animate L dt st)) ! lr))
           = leftRodStartX st + (- 1) * slideDistance st * easeOutCubic c
     \<and> fst (position (meshes (snd (animate L dt st)) ! rr))
           = rightRodStartX st + 1 * slideDistance st * easeOutCubic c
     \<and> (c = 0 \<longrightarrow>
           fst (position (meshes (snd (animate L dt st)) ! lr)) = leftRodStartX st
         \<and> fst (position (meshes (snd (animate L dt st)) ! rr)) = rightRodStartX st)
     \<and> (c = 1 \<longrightarrow>
           fst (position (meshes (snd (animate L dt st)) ! lr))
             = leftRodStartX st - slideDistance st
         \<and> fst (position (meshes (snd (animate L dt st)) ! rr))
             = rightRodStartX st + slideDistance st)
     \<and> 0 \<le> scrollProgress (onScroll st) \<and> scrollProgress (onScroll st) \<le> 1"
proof -
  have m: "meshes (snd (animate L dt st)) = meshes (moveRods (easeOutCubic c) st)"
    using animate_meshes [OF assms(1)] assms(7) by simp
  note p = moveRods_positions [OF assms(2-6), of "easeOutCubic c"]
  have xl: "fst (position (meshes (snd (animate L dt st)) ! lr))
      = leftRodStartX st - slideDistance st * easeOutCubic c"
    and xr: "fst (position (meshes (snd (animate L dt st)) ! rr))
      = rightRodStartX st + slideDistance st * easeOutCubic c"
    using m p by simp_all
  have e: "easeOutCubic 0 = 0" "easeOutCubic 1 = 1" by (simp_all add: easeOutCubic_def)
  show ?thesis unfolding xl xr using onScroll_range [of st] by (auto simp add: e)
qed

lemma rodLinked_cong:
  assumes "storesOnly st s" "length (meshes s) = length (meshes st)"
    "\<And>k. physicsBody (meshes s ! k) = physicsBody (meshes st ! k)"
    "length (rigid s) = length (rigid st)"
  shows "rodLinked lr lb rr rb s = rodLinked lr lb rr rb st"
  using assms storesOnly_curtain [OF assms(1)]
  by (simp add: rodLinked_def)

lemma stepAndSync_rigid_length:
  "keepsShape L \<Longrightarrow> length (rigid (snd (stepAndSync L dt t st))) = length (rigid st)"
  by (simp add: stepAndSync_def Let_def keepsShape_def split: option.splits)

lemma graphicsReady_storesOnly: "storesOnly st s \<Longrightarrow> graphicsReady s = graphicsReady st"
  using storesOnly_scene [of st s] by (simp add: graphicsReady_def)

lemma animate_linked:
  assumes "graphicsReady st" "AmmoLib st" "physicsWorld st = Some w"
    and "curtainLinked lc la lno ls rc ra rno rs st"
    and "rodLinked lr lb rr rb st"
    and "keepsShape L"
  shows "fst (animate L dt st) = Inr ()"
    and "graphicsReady (snd (animate L dt st))"
    and "AmmoLib (snd (animate L dt st))"
    and "physicsWorld (snd (animate L dt st)) = Some w"
    and "curtainLinked lc la lno ls rc ra rno rs (snd (animate L dt st))"
    and "rodLinked lr lb rr rb (snd (animate L dt st))"
    and "frameRequests (snd (animate L dt st)) = frameRequests st + 1"
    and "listeners (snd (animate L dt st)) = listeners st"
    and "consoleErrors (snd (animate L dt st)) = consoleErrors st"
    and "engineLog (snd (animate L dt st)) =
           engineLog st @
           rodCalls lb (leftRodStartX st - slideDistance st * easeOutCubic (scrollProgress st),
                        fst (snd (position (meshes st ! lr))),
                        snd (snd (position (meshes st ! lr))))
                       (quaternion (meshes st ! lr)) @
           rodCalls rb (rightRodStartX st + slideDistance st * easeOutCubic (scrollProgress st),
                        fst (snd (position (meshes st ! rr))),
                        snd (snd (position (meshes st ! rr))))
                       (quaternion (meshes st ! rr)) @
           [StepSimulation dt 10] @
           map (\<lambda>idx. AddForce ls idx (- tinyAssistForce * easeOutCubic (scrollProgress st), 0, 0))
             (assistIndices SideLeft 2) @
           map (\<lambda>idx. AddForce rs idx (tinyAssistForce * easeOutCubic (scrollProgress st), 0, 0))
             (assistIndices SideRight 2)"
proof -
  let ?t = "easeOutCubic (scrollProgress st)"
  let ?m = "moveRods ?t st"
  let ?r = "stepAndSync L dt ?t ?m"
  let ?s = "snd ?r"
  obtain rd where rd: "renderer st = Some rd" using assms(1) by (auto simp add: graphicsReady_def)
  have som: "storesOnly st ?m" by (rule storesOnly_moveRods)
  have sos: "storesOnly st ?s"
    using storesOnly_trans [OF som storesOnly_stepAndSync] .
  have pm: "physicsWorld ?m = Some w" "AmmoLib ?m"
    using storesOnly_scene [OF som] assms(2,3) by simp_all
  have lm: "curtainLinked lc la lno ls rc ra rno rs ?m"
    using assms(4) by (simp add: curtainLinked_moveRods)
  note ss = stepAndSync_linked [OF lm assms(6) pm, of dt ?t]
  note mr = moveRods_linked [OF assms(5) assms(2), of ?t]
  note fin = animate_done [OF assms(1) rd ss(1)]
  show "fst (animate L dt st) = Inr ()" using fin by simp
  show "graphicsReady (snd (animate L dt st))"
    using fin graphicsReady_storesOnly [OF sos] assms(1) by (simp add: graphicsReady_def)
  show "AmmoLib (snd (animate L dt st))"
    using fin storesOnly_scene [OF sos] assms(2) by simp
  show "physicsWorld (snd (animate L dt st)) = Some w"
    using fin storesOnly_scene [OF sos] assms(3) by simp
  show "curtainLinked lc la lno ls rc ra rno rs (snd (animate L dt st))"
    using fin ss(2)
    by (simp add: curtainLinked_def curtainBuffers_def bufferLinked_def bodyLinked_def)
  have "rodLinked lr lb rr rb ?s = rodLinked lr lb rr rb ?m"
    by (rule rodLinked_cong [OF storesOnly_stepAndSync])
      (simp_all add: stepAndSync_rigid_length [OF assms(6)])
  then show "rodLinked lr lb rr rb (snd (animate L dt st))"
    using fin mr(1) by (simp add: rodLinked_def)
  show "frameRequests (snd (animate L dt st)) = frameRequests st + 1" using fin by simp
  show "listeners (snd (animate L dt st)) = listeners st"
    using fin storesOnly_env [OF sos] by simp
  show "consoleErrors (snd (animate L dt st)) = consoleErrors st"
    using fin storesOnly_env [OF sos] by simp
  show "engineLog (snd (animate L dt st)) =
           engineLog st @
           rodCalls lb (leftRodStartX st - slideDistance st * easeOutCubic (scrollProgress st),
                        fst (snd (position (meshes st ! lr))),
                        snd (snd (position (meshes st ! lr))))
                       (quaternion (meshes st ! lr)) @
           rodCalls rb (rightRodStartX st + slideDistance st * easeOutCubic (scrollProgress st),
                        fst (snd (position (meshes st ! rr))),
                        snd (snd (position (meshes st ! rr))))
                       (quaternion (meshes st ! rr)) @
           [StepSimulation dt 10] @
           map (\<lambda>idx. AddForce ls idx (- tinyAssistForce * easeOutCubic (scrollProgress st), 0, 0))
             (assistIndices SideLeft 2) @
           map (\<lambda>idx. AddForce rs idx (tinyAssistForce * easeOutCubic (scrollProgress st), 0, 0))
             (assistIndices SideRight 2)"
    using fin ss(3) mr(8) by simp
qed

lemma onScroll_keeps:
  "curtainLinked lc la lno ls rc ra rno rs (onScroll st) = curtainLinked lc la lno ls rc ra rno rs st"
  "rodLinked lr lb rr rb (onScroll st) = rodLinked lr lb rr rb st"
  "graphicsReady (onScroll st) = graphicsReady st"
  "AmmoLib (onScroll st) = AmmoLib st"
  "physicsWorld (onScroll st) = physicsWorld st"
  "frameRequests (onScroll st) = frameRequests st"
  "listeners (onScroll st) = listeners st"
  "consoleErrors (onScroll st) = consoleErrors st"
  "engineLog (onScroll st) = engineLog st"
  "meshes (onScroll st) = meshes st"
  "leftRodStartX (onScroll st) = leftRodStartX st"
  "rightRodStartX (onScroll st) = rightRodStartX st"
  "slideDistance (onScroll st) = slideDistance st"
  "scrollProgress (onScroll st) = max 0 (min 1 (scrollY st / maxScrollPx))"
  by (simp_all add: onScroll_def curtainLinked_def curtainBuffers_def bufferLinked_def
      bodyLinked_def rodLinked_def graphicsReady_def)

lemma catchAndLog_ok: "fst r = Inr u \<Longrightarrow> catchAndLog r = snd r"
  by (cases r) (simp add: catchAndLog_def)

lemma catchAndLog_err:
  "fst r = Inl e \<Longrightarrow> catchAndLog r = (snd r)\<lparr>consoleErrors := consoleErrors (snd r) @ [e]\<rparr>"
  by (cases r) (simp add: catchAndLog_def)

lemma built_facts:
  shows "graphicsReady (built w h dpr y)"
    and "AmmoLib (built w h dpr y)"
    and "physicsWorld (built w h dpr y) \<noteq> None"
    and "curtainLinked 2 0 1 0 3 2 3 1 (built w h dpr y)"
    and "rodLinked 0 0 1 1 (built w h dpr y)"
    and "frameRequests (built w h dpr y) = 0"
    and "listeners (built w h dpr y) = [(''resize'', OnResize), (''scroll'', OnScroll)]"
    and "consoleErrors (built w h dpr y) = []"
    and "engineLog (built w h dpr y) = []"
    and "scrollProgress (built w h dpr y) = max 0 (min 1 (y / maxScrollPx))"
proof -
  let ?g = "initGraphics (mount True w h dpr y)"
  let ?p = "initPhysics (?g\<lparr>AmmoLib := True\<rparr>)"
  have c: "container (mount True w h dpr y)" by (simp add: mount_def)
  note ig = initGraphics_container [OF c]
  have p: "scene ?p = Some \<lparr>children = [], lights = 2\<rparr>"
    "camera ?p = Some \<lparr>fov = 60, aspect = w / h, near = 0.1, far = 2000, camPosition = (0, 0, 8)\<rparr>"
    "renderer ?p = Some \<lparr>rendererSize = (w, h), pixelRatio = dpr, opacity = [],
        disposed = False, framesRendered = 0\<rparr>"
    "AmmoLib ?p"
    "physicsWorld ?p = Some \<lparr>worldGravity = (0, gravity, 0), rigidRefs = [], softRefs = [],
                constraints = 0\<rparr>"
    by (simp_all add: initPhysics_def initGraphics_def mount_def)
  have q: "meshes ?p = []" "attrs ?p = []" "rigid ?p = []" "soft ?p = []"
    "listeners ?p = [(''resize'', OnResize), (''scroll'', OnScroll)]"
    "frameRequests ?p = 0" "consoleErrors ?p = []" "engineLog ?p = []" "scrollY ?p = y"
    by (simp_all add: initPhysics_def initGraphics_def mount_def addEventListener_def)
  note cc = createCurtains_physics [OF p]
  show "graphicsReady (built w h dpr y)" using cc(6) by (simp add: built_def onScroll_keeps)
  show "AmmoLib (built w h dpr y)" using cc(7) by (simp add: built_def onScroll_keeps)
  show "physicsWorld (built w h dpr y) \<noteq> None" using cc(8) by (simp add: built_def onScroll_keeps)
  have "curtainLinked 2 0 1 0 3 2 3 1 (snd (createCurtains ?p))"
    using cc(2,3,4) by (simp add: curtainLinked_def q numeral_2_eq_2 numeral_3_eq_3)
  then show "curtainLinked 2 0 1 0 3 2 3 1 (built w h dpr y)"
    by (simp add: built_def onScroll_keeps)
  show "rodLinked 0 0 1 1 (built w h dpr y)"
    using cc(5) by (simp add: built_def onScroll_keeps q)
  show "frameRequests (built w h dpr y) = 0" using cc(10) by (simp add: built_def onScroll_keeps q)
  show "listeners (built w h dpr y) = [(''resize'', OnResize), (''scroll'', OnScroll)]"
    using cc(9) by (simp add: built_def onScroll_keeps q)
  show "consoleErrors (built w h dpr y) = []" using cc(11) by (simp add: built_def onScroll_keeps q)
  show "engineLog (built w h dpr y) = []" using cc(12) by (simp add: built_def onScroll_keeps q)
  show "scrollProgress (built w h dpr y) = max 0 (min 1 (y / maxScrollPx))"
    using cc(14) by (simp add: built_def onScroll_keeps q)
qed

lemma boot_AmmoLoads:
  "boot L AmmoLoads dt (mount True w h dpr y) = catchAndLog (animate L dt (built w h dpr y))"
proof -
  let ?g = "initGraphics (mount True w h dpr y)"
  let ?p = "initPhysics (?g\<lparr>AmmoLib := True\<rparr>)"
  have p: "scene ?p = Some \<lparr>children = [], lights = 2\<rparr>"
    "camera ?p = Some \<lparr>fov = 60, aspect = w / h, near = 0.1, far = 2000, camPosition = (0, 0, 8)\<rparr>"
    "renderer ?p = Some \<lparr>rendererSize = (w, h), pixelRatio = dpr, opacity = [],
        disposed = False, framesRendered = 0\<rparr>"
    "AmmoLib ?p"
    "physicsWorld ?p = Some \<lparr>worldGravity = (0, gravity, 0), rigidRefs = [], softRefs = [],
                constraints = 0\<rparr>"
    by (simp_all add: initPhysics_def initGraphics_def mount_def)
  note cc = createCurtains_physics(1) [OF p]
  show ?thesis
    using cc by (simp add: boot_def boot_begin_def boot_resume_def built_def andThen_fst_Inr)
qed

lemma keepsShape_idle: "keepsShape idle"
  by (simp add: keepsShape_def idle_def)

lemma length_assistIndices: "length (assistIndices sd 2) = 102"
proof -
  have "length (assistIndices sd 2) = length [0..<segY + 1] * length [0..<(2::nat)]"
    unfolding assistIndices_def by (rule length_rows) simp
  then show ?thesis by (simp add: segY_def)
qed

lemma kinds_rodCalls: "map kindOf (rodCalls b p q) = replicate 4 Actuator"
  by (simp add: rodCalls_def kindOf_def numeral_Bit0 replicate_add)

lemma kinds_forces: "map kindOf (map (\<lambda>idx. AddForce s idx f) idxs) = replicate (length idxs) Force"
  by (induction idxs) (simp_all add: kindOf_def)

lemma frame_kinds:
  "map kindOf (rodCalls b p q @ rodCalls b' p' q' @ [StepSimulation dt 10] @
     map (\<lambda>idx. AddForce s idx f) (assistIndices SideLeft 2) @
     map (\<lambda>idx. AddForce s' idx f') (assistIndices SideRight 2))
   = replicate 8 Actuator @ [Step] @ replicate 204 Force"
proof -
  have "map kindOf (rodCalls b p q @ rodCalls b' p' q' @ [StepSimulation dt 10] @
     map (\<lambda>idx. AddForce s idx f) (assistIndices SideLeft 2) @
     map (\<lambda>idx. AddForce s' idx f') (assistIndices SideRight 2))
     = replicate (4 + 4) Actuator @ [Step] @ replicate (102 + 102) Force"
    unfolding replicate_add
    by (simp only: map_append kinds_rodCalls kinds_forces length_assistIndices list.map
        kindOf_def call.case append_assoc)
  then show ?thesis by simp
qed

text \<open>
  C1 (as the code has it). In a frame that finds the graphics ready, the engine loaded and the
  curtains linked to their bodies, the calls made on the engine are, in this order: the pose
  overwrite of the left rod's body and of the right rod's body at the eased control value,
  then one simulation step by the elapsed time with 10 sub-steps, and only after the step the
  assist forces, scaled by the eased control value, on the nodes of the left and of the
  right patch.
\<close>

theorem frame_order:
  assumes "graphicsReady st" "AmmoLib st" "physicsWorld st = Some w"
    and "curtainLinked lc la lno ls rc ra rno rs st"
    and "rodLinked lr lb rr rb st"
    and "keepsShape L"
  shows "engineLog (snd (animate L dt st)) =
           engineLog st @
           rodCalls lb (leftRodStartX st - slideDistance st * easeOutCubic (scrollProgress st),
                        fst (snd (position (meshes st ! lr))),
                        snd (snd (position (meshes st ! lr))))
                       (quaternion (meshes st ! lr)) @
           rodCalls rb (rightRodStartX st + slideDistance st * easeOutCubic (scrollProgress st),
                        fst (snd (position (meshes st ! rr))),
                        snd (snd (position (meshes st ! rr))))
                       (quaternion (meshes st ! rr)) @
           [StepSimulation dt 10] @
           map (\<lambda>idx. AddForce ls idx (- tinyAssistForce * easeOutCubic (scrollProgress st), 0, 0))
             (assistIndices SideLeft 2) @
           map (\<lambda>idx. AddForce rs idx (tinyAssistForce * easeOutCubic (scrollProgress st), 0, 0))
             (assistIndices SideRight 2)
     \<and> map kindOf (drop (length (engineLog st)) (engineLog (snd (animate L dt st))))
           = replicate 8 Actuator @ [Step] @ replicate 204 Force"
proof -
  note a = animate_linked(10) [OF assms, of dt]
  have d: "\<And>xs ys :: call list. drop (length xs) (xs @ ys) = ys" by simp
  show ?thesis
    unfolding a by (simp only: d frame_kinds simp_thms)
qed

theorem frame_order_witness:
  "map kindOf (drop (length (engineLog (built 1280 720 1 300)))
     (engineLog (snd (animate idle (1 / 60) (built 1280 720 1 300)))))
   = replicate 8 Actuator @ [Step] @ replicate 204 Force"
proof -
  obtain w where w: "physicsWorld (built 1280 720 1 300) = Some w"
    using built_facts(3) [of 1280 720 1 300] by auto
  show ?thesis
    by (rule frame_order [OF built_facts(1,2) w built_facts(4,5) keepsShape_idle, THEN conjunct2])
qed

text \<open>
  The first frame of a freshly mounted curtain, scrolled half way: the step is the ninth call
  on the engine, and all 204 assist forces follow it.
\<close>

theorem frame_order_counterexample:
  "map kindOf (engineLog (snd (animate idle (1 / 60) (built 1280 720 1 300))))
     = replicate 8 Actuator @ [Step] @ replicate 204 Force
   \<and> engineLog (snd (animate idle (1 / 60) (built 1280 720 1 300))) ! 8
     = StepSimulation (1 / 60) 10
   \<and> engineLog (snd (animate idle (1 / 60) (built 1280 720 1 300))) ! 9
     = AddForce 0 0 (- (21 / 8), 0, 0)"
proof -
  obtain w where w: "physicsWorld (built 1280 720 1 300) = Some w"
    using built_facts(3) [of 1280 720 1 300] by auto
  note a = animate_linked(10) [OF built_facts(1,2) w built_facts(4,5) keepsShape_idle, of "1 / 60"]
  have t: "easeOutCubic (scrollProgress (built 1280 720 1 300)) = 7 / 8"
    by (simp add: built_facts(10) maxScrollPx_def easeOutCubic_def power3_eq_cube)
  have hd: "assistIndices SideLeft 2 = 0 # tl (assistIndices SideLeft 2)"
    by (simp add: assistIndices_def numeral_2_eq_2 upt_rec [of 0])
  have k: "map kindOf (engineLog (snd (animate idle (1 / 60) (built 1280 720 1 300))))
     = replicate 8 Actuator @ [Step] @ replicate 204 Force"
    unfolding a built_facts(9) by (simp only: append_Nil frame_kinds)
  have n8: "engineLog (snd (animate idle (1 / 60) (built 1280 720 1 300))) ! 8
     = StepSimulation (1 / 60) 10"
    unfolding a built_facts(9) by (simp add: rodCalls_def nth_append)
  have n9: "engineLog (snd (animate idle (1 / 60) (built 1280 720 1 300))) ! 9
     = AddForce 0 0 (- (21 / 8), 0, 0)"
    unfolding a built_facts(9) t
    by (subst hd) (simp add: rodCalls_def nth_append tinyAssistForce_def)
  show ?thesis using k n8 n9 by simp
qed

theorem rods_slide_witness:
  "fst (position (meshes (snd (animate idle (1 / 60) (built 1280 720 1 600))) ! 0))
     = leftRodStartX (built 1280 720 1 600) - slideDistance (built 1280 720 1 600)
   \<and> fst (position (meshes (snd (animate idle (1 / 60) (built 1280 720 1 600))) ! 1))
     = rightRodStartX (built 1280 720 1 600) + slideDistance (built 1280 720 1 600)"
proof -
  note r = built_facts(5) [of 1280 720 1 600, unfolded rodLinked_def]
  have c: "scrollProgress (built 1280 720 1 600) = 1"
    by (simp add: built_facts(10) maxScrollPx_def)
  have h: "leftRodMesh (built 1280 720 1 600) = Some 0"
    "rightRodMesh (built 1280 720 1 600) = Some 1" "(0::nat) \<noteq> 1"
    "0 < length (meshes (built 1280 720 1 600))" "1 < length (meshes (built 1280 720 1 600))"
    using r by simp_all
  show ?thesis
    using rods_slide [OF built_facts(1) h c, of idle "1 / 60"]
    by (simp add: easeOutCubic_def)
qed


lemma stepAndSync_static:
  "physicsWorld st = None \<or> \<not> AmmoLib st \<Longrightarrow> stepAndSync L dt t st = (Inr (), st)"
  by (auto simp add: stepAndSync_def split: option.splits)

lemma animate_static:
  assumes "graphicsReady st" "renderer st = Some rd" "physicsWorld st = None \<or> \<not> AmmoLib st"
  shows "animate L dt st =
     (Inr (), (moveRods (easeOutCubic (scrollProgress st)) st)
        \<lparr>renderer := Some (render (rd\<lparr>opacity :=
             (if easeOutCubic (scrollProgress st) \<ge> 1 then ''0'' else ''1'')\<rparr>)),
         frameRequests := frameRequests st + 1\<rparr>)"
proof -
  let ?m = "moveRods (easeOutCubic (scrollProgress st)) st"
  have "physicsWorld ?m = None \<or> \<not> AmmoLib ?m"
    using storesOnly_scene [OF storesOnly_moveRods, of "easeOutCubic (scrollProgress st)" st] assms(3)
    by simp
  then have s: "stepAndSync L dt (easeOutCubic (scrollProgress st)) ?m = (Inr (), ?m)"
    by (rule stepAndSync_static)
  show ?thesis using animate_done [OF assms(1,2), of L dt] s by simp
qed

lemma boot_fails:
  "boot L ScriptFails dt st = (initGraphics st)\<lparr>consoleErrors := consoleErrors (initGraphics st) @ [ScriptLoadFailed]\<rparr>"
  "boot L AmmoInitFails dt st = (initGraphics st)\<lparr>consoleErrors := consoleErrors (initGraphics st) @ [AmmoInitFailed]\<rparr>"
  by (simp_all add: boot_def boot_begin_def boot_resume_def catchAndLog_def)

lemma builtStatic_facts:
  shows "graphicsReady (builtStatic w h dpr y)"
    and "\<not> AmmoLib (builtStatic w h dpr y)"
    and "physicsWorld (builtStatic w h dpr y) = None"
    and "curtainBuffers 2 0 1 3 2 3 (builtStatic w h dpr y)"
    and "frameRequests (builtStatic w h dpr y) = 0"
    and "consoleErrors (builtStatic w h dpr y) = []"
    and "engineLog (builtStatic w h dpr y) = []"
    and "soft (builtStatic w h dpr y) = []"
    and "rigid (builtStatic w h dpr y) = []"
    and "renderer (builtStatic w h dpr y) =
           Some \<lparr>rendererSize = (w, h), pixelRatio = dpr, opacity = [],
             disposed = False, framesRendered = 0\<rparr>"
proof -
  let ?g = "initGraphics (mount True w h dpr y)"
  have p: "scene ?g = Some \<lparr>children = [], lights = 2\<rparr>"
    "camera ?g = Some \<lparr>fov = 60, aspect = w / h, near = 0.1, far = 2000, camPosition = (0, 0, 8)\<rparr>"
    "renderer ?g = Some \<lparr>rendererSize = (w, h), pixelRatio = dpr, opacity = [],
        disposed = False, framesRendered = 0\<rparr>"
    "\<not> AmmoLib ?g"
    by (simp_all add: initGraphics_def mount_def)
  have q: "meshes ?g = []" "attrs ?g = []" "rigid ?g = []" "soft ?g = []"
    "frameRequests ?g = 0" "consoleErrors ?g = []" "engineLog ?g = []" "physicsWorld ?g = None"
    by (simp_all add: initGraphics_def mount_def)
  note cc = createCurtains_static [OF p]
  show "graphicsReady (builtStatic w h dpr y)" using cc(3) by (simp add: builtStatic_def onScroll_keeps)
  show "\<not> AmmoLib (builtStatic w h dpr y)" using cc(4) by (simp add: builtStatic_def onScroll_keeps)
  show "physicsWorld (builtStatic w h dpr y) = None"
    using cc(5) q by (simp add: builtStatic_def onScroll_keeps)
  have "curtainBuffers 2 0 1 3 2 3 (snd (createCurtains ?g))"
    using cc(2) by (simp add: q numeral_2_eq_2 numeral_3_eq_3)
  then show "curtainBuffers 2 0 1 3 2 3 (builtStatic w h dpr y)"
    by (simp add: builtStatic_def CB_handlers)
  show "frameRequests (builtStatic w h dpr y) = 0" using cc(7) q by (simp add: builtStatic_def onScroll_keeps)
  show "consoleErrors (builtStatic w h dpr y) = []" using cc(8) q by (simp add: builtStatic_def onScroll_keeps)
  show "engineLog (builtStatic w h dpr y) = []" using cc(9) q by (simp add: builtStatic_def onScroll_keeps)
  show "soft (builtStatic w h dpr y) = []" using cc(12) q by (simp add: builtStatic_def onScroll_def)
  show "rigid (builtStatic w h dpr y) = []" using cc(13) q by (simp add: builtStatic_def onScroll_def)
  show "renderer (builtStatic w h dpr y) =
           Some \<lparr>rendererSize = (w, h), pixelRatio = dpr, opacity = [],
             disposed = False, framesRendered = 0\<rparr>"
    using cc(10) p by (simp add: builtStatic_def onScroll_def)
qed

lemma boot_NoAmmoGlobal:
  "boot L NoAmmoGlobal dt (mount True w h dpr y)
     = catchAndLog (animate L dt (builtStatic w h dpr y))"
proof -
  let ?g = "initGraphics (mount True w h dpr y)"
  have p: "scene ?g = Some \<lparr>children = [], lights = 2\<rparr>"
    "camera ?g = Some \<lparr>fov = 60, aspect = w / h, near = 0.1, far = 2000, camPosition = (0, 0, 8)\<rparr>"
    "renderer ?g = Some \<lparr>rendererSize = (w, h), pixelRatio = dpr, opacity = [],
        disposed = False, framesRendered = 0\<rparr>"
    "\<not> AmmoLib ?g"
    by (simp_all add: initGraphics_def mount_def)
  note cc = createCurtains_static [OF p]
  show ?thesis
    using cc(1) by (simp add: boot_def boot_begin_def boot_resume_def builtStatic_def andThen_fst_Inr)
qed

text \<open>
  C8 (what the code does). When the engine's script fails to load, or the engine's module
  fails to initialise, the error is caught and logged, and neither rods nor patches exist:
  nothing was created, no frame was presented and none is requested. When the script loads
  but defines no engine, both patches exist with their full vertex buffers, the first frame
  is presented and the next one requested, and no error is logged.
\<close>

theorem boot_without_engine:
  "leftCloth (boot L ScriptFails dt (mount True w h dpr y)) = None
   \<and> rightCloth (boot L ScriptFails dt (mount True w h dpr y)) = None
   \<and> meshes (boot L ScriptFails dt (mount True w h dpr y)) = []
   \<and> attrs (boot L ScriptFails dt (mount True w h dpr y)) = []
   \<and> framesShown (boot L ScriptFails dt (mount True w h dpr y)) = 0
   \<and> frameRequests (boot L ScriptFails dt (mount True w h dpr y)) = 0
   \<and> consoleErrors (boot L ScriptFails dt (mount True w h dpr y)) = [ScriptLoadFailed]
   \<and> leftCloth (boot L AmmoInitFails dt (mount True w h dpr y)) = None
   \<and> framesShown (boot L AmmoInitFails dt (mount True w h dpr y)) = 0
   \<and> consoleErrors (boot L AmmoInitFails dt (mount True w h dpr y)) = [AmmoInitFailed]
   \<and> curtainBuffers 2 0 1 3 2 3 (boot L NoAmmoGlobal dt (mount True w h dpr y))
   \<and> framesShown (boot L NoAmmoGlobal dt (mount True w h dpr y)) = 1
   \<and> frameRequests (boot L NoAmmoGlobal dt (mount True w h dpr y)) = 1
   \<and> consoleErrors (boot L NoAmmoGlobal dt (mount True w h dpr y)) = []
   \<and> soft (boot L NoAmmoGlobal dt (mount True w h dpr y)) = []
   \<and> engineLog (boot L NoAmmoGlobal dt (mount True w h dpr y)) = []"
proof -
  note f = boot_fails [where L = L and dt = dt and st = "mount True w h dpr y"]
  have fails: "leftCloth (boot L ScriptFails dt (mount True w h dpr y)) = None
   \<and> rightCloth (boot L ScriptFails dt (mount True w h dpr y)) = None
   \<and> meshes (boot L ScriptFails dt (mount True w h dpr y)) = []
   \<and> attrs (boot L ScriptFails dt (mount True w h dpr y)) = []
   \<and> framesShown (boot L ScriptFails dt (mount True w h dpr y)) = 0
   \<and> frameRequests (boot L ScriptFails dt (mount True w h dpr y)) = 0
   \<and> consoleErrors (boot L ScriptFails dt (mount True w h dpr y)) = [ScriptLoadFailed]
   \<and> leftCloth (boot L AmmoInitFails dt (mount True w h dpr y)) = None
   \<and> framesShown (boot L AmmoInitFails dt (mount True w h dpr y)) = 0
   \<and> consoleErrors (boot L AmmoInitFails dt (mount True w h dpr y)) = [AmmoInitFailed]"
    unfolding f by (simp add: initGraphics_def mount_def framesShown_def)
  note b = builtStatic_facts [of w h dpr y]
  let ?s = "builtStatic w h dpr y"
  have a: "animate L dt ?s =
     (Inr (), (moveRods (easeOutCubic (scrollProgress ?s)) ?s)
        \<lparr>renderer := Some (render (\<lparr>rendererSize = (w, h), pixelRatio = dpr, opacity = [],
             disposed = False, framesRendered = 0\<rparr>\<lparr>opacity :=
             (if easeOutCubic (scrollProgress ?s) \<ge> 1 then ''0'' else ''1'')\<rparr>)),
         frameRequests := frameRequests ?s + 1\<rparr>)"
    using animate_static [OF b(1) b(10), of L dt] b(3) by simp
  have bt: "boot L NoAmmoGlobal dt (mount True w h dpr y) = snd (animate L dt ?s)"
    unfolding boot_NoAmmoGlobal by (rule catchAndLog_ok [where u = "()"]) (simp add: a)
  have so: "storesOnly ?s (moveRods (easeOutCubic (scrollProgress ?s)) ?s)"
    by (rule storesOnly_moveRods)
  have cb: "curtainBuffers 2 0 1 3 2 3 (snd (animate L dt ?s))"
    by (rule CB_animate [OF b(4)])
  have rest: "framesShown (snd (animate L dt ?s)) = 1"
    "frameRequests (snd (animate L dt ?s)) = 1"
    "consoleErrors (snd (animate L dt ?s)) = []"
    "soft (snd (animate L dt ?s)) = []"
    "engineLog (snd (animate L dt ?s)) = []"
    unfolding a using storesOnly_env [OF so] b
    by (simp_all add: framesShown_def render_def moveRods_unchanged moveRods_def Let_def
        moveRod_def split: option.splits)
  show ?thesis using fails cb rest unfolding bt by simp
qed

declare bricksFrom.simps [simp del]

lemma createParallelepiped_eq:
  assumes "AmmoLib st" "scene st = Some g" "physicsWorld st = Some w"
  shows "createParallelepiped sx sy sz mass' pos quat' st =
     (Inr (length (meshes st)),
      st\<lparr>meshes := meshes st @
            [\<lparr>position = pos, quaternion = quat', geometry = BoxGeometry sx sy sz,
              physicsBody = Some (length (rigid st))\<rparr>],
         rigid := rigid st @
            [\<lparr>mass = mass', origin = pos, rotation = quat',
              linearVelocity = (0, 0, 0), angularVelocity = (0, 0, 0),
              active = (mass' \<noteq> 0), deactivationDisabled = (mass' > 0)\<rparr>],
         scene := Some (g\<lparr>children := children g @ [length (meshes st)]\<rparr>),
         physicsWorld := Some (w\<lparr>rigidRefs := rigidRefs w @ [length (rigid st)]\<rparr>),
         rigidBodies := (if mass' > 0 then rigidBodies st @ [length (meshes st)]
                         else rigidBodies st)\<rparr>)"
  using assms
  by (simp add: createParallelepiped_def createRigidBody_def Let_def setPhysicsBody_def
      sceneAdd_def)

lemma bodiesOnly_refl [simp]: "bodiesOnly st st"
  by (simp add: bodiesOnly_def)

lemma bodiesOnly_trans: "bodiesOnly st s \<Longrightarrow> bodiesOnly s s' \<Longrightarrow> bodiesOnly st s'"
  unfolding bodiesOnly_def
proof -
  assume a: "s = st\<lparr>meshes := meshes s, rigid := rigid s, scene := scene s,
            physicsWorld := physicsWorld s, rigidBodies := rigidBodies s\<rparr>"
    and b: "s' = s\<lparr>meshes := meshes s', rigid := rigid s', scene := scene s',
            physicsWorld := physicsWorld s', rigidBodies := rigidBodies s'\<rparr>"
  have "s' = (st\<lparr>meshes := meshes s, rigid := rigid s, scene := scene s,
            physicsWorld := physicsWorld s, rigidBodies := rigidBodies s\<rparr>)
          \<lparr>meshes := meshes s', rigid := rigid s', scene := scene s',
            physicsWorld := physicsWorld s', rigidBodies := rigidBodies s'\<rparr>"
    using a b by metis
  then show "s' = st\<lparr>meshes := meshes s', rigid := rigid s', scene := scene s',
            physicsWorld := physicsWorld s', rigidBodies := rigidBodies s'\<rparr>" by simp
qed

lemma bodiesOnly_fields:
  assumes "bodiesOnly st s"
  shows "attrs s = attrs st" "soft s = soft st" "engineLog s = engineLog st"
    "listeners s = listeners st" "frameRequests s = frameRequests st"
    "consoleErrors s = consoleErrors st" "renderer s = renderer st" "camera s = camera st"
    "AmmoLib s = AmmoLib st" "cloth s = cloth st" "clothPosAttr s = clothPosAttr st"
    "clothNormAttr s = clothNormAttr st" "hinge s = hinge st" "armMovement s = armMovement st"
proof -
  have eq: "s = st\<lparr>meshes := meshes s, rigid := rigid s, scene := scene s,
            physicsWorld := physicsWorld s, rigidBodies := rigidBodies s\<rparr>"
    using assms by (simp add: bodiesOnly_def)
  show "attrs s = attrs st" by (subst eq) simp
  show "soft s = soft st" by (subst eq) simp
  show "engineLog s = engineLog st" by (subst eq) simp
  show "listeners s = listeners st" by (subst eq) simp
  show "frameRequests s = frameRequests st" by (subst eq) simp
  show "consoleErrors s = consoleErrors st" by (subst eq) simp
  show "renderer s = renderer st" by (subst eq) simp
  show "camera s = camera st" by (subst eq) simp
  show "AmmoLib s = AmmoLib st" by (subst eq) simp
  show "cloth s = cloth st" by (subst eq) simp
  show "clothPosAttr s = clothPosAttr st" by (subst eq) simp
  show "clothNormAttr s = clothNormAttr st" by (subst eq) simp
  show "hinge s = hinge st" by (subst eq) simp
  show "armMovement s = armMovement st" by (subst eq) simp
qed

lemma grown_refl: "buildable st \<Longrightarrow> grown st st"
  by (simp add: grown_def)

lemma grown_trans:
  assumes "grown st s" "grown s s'"
  shows "grown st s'"
proof -
  have le: "length (meshes st) \<le> length (meshes s)"
    and a: "take (length (meshes st)) (meshes s) = meshes st"
    and b: "take (length (meshes s)) (meshes s') = meshes s"
    using assms by (simp_all add: grown_def)
  have t: "take (length (meshes st)) (meshes s') = meshes st"
  proof -
    have "take (length (meshes st)) (meshes s')
            = take (length (meshes st)) (take (length (meshes s)) (meshes s'))"
      using le by (simp add: min_def)
    also have "\<dots> = take (length (meshes st)) (meshes s)" by (simp only: b)
    finally show ?thesis by (simp only: a)
  qed
  show ?thesis
    using assms t bodiesOnly_trans [of st s s'] by (simp add: grown_def)
qed

lemma createParallelepiped_grown:
  assumes "buildable st"
  shows "grown st (snd (createParallelepiped sx sy sz mass' pos quat' st))"
    and "fst (createParallelepiped sx sy sz mass' pos quat' st) = Inr (length (meshes st))"
    and "length (meshes (snd (createParallelepiped sx sy sz mass' pos quat' st)))
           = Suc (length (meshes st))"
proof -
  obtain g w where gw: "scene st = Some g" "physicsWorld st = Some w" and a: "AmmoLib st"
    using assms by (auto simp add: buildable_def)
  note eq = createParallelepiped_eq [OF a gw, of sx sy sz mass' pos quat']
  show "fst (createParallelepiped sx sy sz mass' pos quat' st) = Inr (length (meshes st))"
    unfolding eq by simp
  show "length (meshes (snd (createParallelepiped sx sy sz mass' pos quat' st)))
           = Suc (length (meshes st))"
    unfolding eq by simp
  have ok: "bodiesOk st \<longrightarrow> bodiesOk (snd (createParallelepiped sx sy sz mass' pos quat' st))"
    unfolding eq
    by (auto simp add: bodiesOk_def list_all_iff nth_append)
  show "grown st (snd (createParallelepiped sx sy sz mass' pos quat' st))"
    unfolding grown_def
  proof (intro conjI)
    show "bodiesOk st \<longrightarrow> bodiesOk (snd (createParallelepiped sx sy sz mass' pos quat' st))"
      by (rule ok)
  qed (simp_all add: eq bodiesOnly_def buildable_def a)
qed

lemma wallRow_grown:
  "buildable st \<Longrightarrow>
   grown st (snd (wallRow oddRow nRow i pos st))
   \<and> (\<exists>p. fst (wallRow oddRow nRow i pos st) = Inr p)
   \<and> length (meshes (snd (wallRow oddRow nRow i pos st))) = length (meshes st) + (nRow - i)"
proof (induction oddRow nRow i pos st rule: wallRow.induct)
  case (1 oddRow nRow i pos st)
  show ?case
  proof (cases "i < nRow")
    case False
    then show ?thesis using "1.prems" by (subst (1 2 3) wallRow.simps) (simp add: grown_refl del: split_paired_Ex)
  next
    case True
    let ?edge = "oddRow \<and> (i = 0 \<or> i = nRow - 1)"
    let ?len = "if ?edge then brickLength * 0.5 else brickLength"
    let ?mass = "if ?edge then brickMass * 0.5 else brickMass"
    let ?c = "createParallelepiped brickDepth brickHeight ?len ?mass pos (0, 0, 0, 1) st"
    let ?pos = "(fst pos, fst (snd pos),
                   snd (snd pos) +
                     (if oddRow \<and> (i = 0 \<or> i + 2 = nRow) then 0.75 * brickLength
                      else brickLength))"
    note c = createParallelepiped_grown [OF "1.prems", of brickDepth brickHeight ?len ?mass pos "(0, 0, 0, 1)"]
    have b: "buildable (snd ?c)" using c(1) by (simp add: grown_def)
    have step: "wallRow oddRow nRow i pos st = wallRow oddRow nRow (i + 1) ?pos (snd ?c)"
      using True c(2) by (subst wallRow.simps) (simp add: Let_def andThen_fst_Inr)
    from "1.IH" [OF True refl refl refl b]
    have ih: "grown (snd ?c) (snd (wallRow oddRow nRow (i + 1) ?pos (snd ?c)))
        \<and> (\<exists>p. fst (wallRow oddRow nRow (i + 1) ?pos (snd ?c)) = Inr p)
        \<and> length (meshes (snd (wallRow oddRow nRow (i + 1) ?pos (snd ?c))))
            = length (meshes (snd ?c)) + (nRow - (i + 1))" .
    have n: "length (meshes (snd ?c)) + (nRow - (i + 1)) = length (meshes st) + (nRow - i)"
      using True c(3) by simp
    show ?thesis unfolding step using ih grown_trans [OF c(1)] n by auto
  qed
qed

lemma wall_grown:
  "buildable st \<Longrightarrow>
   grown st (snd (wall j z0 pos st)) \<and> (\<exists>p. fst (wall j z0 pos st) = Inr p)
   \<and> length (meshes (snd (wall j z0 pos st))) = length (meshes st) + bricksFrom j"
proof (induction j z0 pos st rule: wall.induct)
  case (1 j z0 pos st)
  show ?case
  proof (cases "j < numBricksHeight")
    case False
    then show ?thesis using "1.prems" by (subst (1 2 3) wall.simps, subst bricksFrom.simps) (simp add: grown_refl del: split_paired_Ex)
  next
    case True
    let ?odd = "j mod 2 = 1"
    let ?z = "if ?odd then z0 - 0.25 * brickLength else z0"
    let ?n = "if ?odd then numBricksLength + 1 else numBricksLength"
    let ?r = "wallRow ?odd ?n 0 (fst pos, fst (snd pos), ?z) st"
    from wallRow_grown [OF "1.prems", of ?odd ?n 0 "(fst pos, fst (snd pos), ?z)"]
    obtain p where r: "grown st (snd ?r)" "fst ?r = Inr p"
      "length (meshes (snd ?r)) = length (meshes st) + (?n - 0)" by blast
    have b: "buildable (snd ?r)" using r(1) by (simp add: grown_def)
    let ?pos = "(fst p, fst (snd p) + brickHeight, snd (snd p))"
    have step: "wall j z0 pos st = wall (j + 1) z0 ?pos (snd ?r)"
      using True r(2) by (subst wall.simps) (simp add: Let_def andThen_fst_Inr)
    from "1.IH" [OF True refl refl refl b, of p]
    have ih: "grown (snd ?r) (snd (wall (j + 1) z0 ?pos (snd ?r)))
        \<and> (\<exists>q. fst (wall (j + 1) z0 ?pos (snd ?r)) = Inr q)
        \<and> length (meshes (snd (wall (j + 1) z0 ?pos (snd ?r))))
            = length (meshes (snd ?r)) + bricksFrom (j + 1)" .
    have n: "length (meshes (snd ?r)) + bricksFrom (j + 1) = length (meshes st) + bricksFrom j"
      using True r(3) by (subst (2) bricksFrom.simps) simp
    show ?thesis unfolding step using ih grown_trans [OF r(1)] n by auto
  qed
qed

lemma bricksFrom_0: "bricksFrom 0 = 52"
  by (simp add: bricksFrom.simps numBricksHeight_def numBricksLength_def)

lemma builtOnly_refl [simp]: "builtOnly st st"
  by (simp add: builtOnly_def)

lemma builtOnly_trans: "builtOnly st s \<Longrightarrow> builtOnly s s' \<Longrightarrow> builtOnly st s'"
  unfolding builtOnly_def
proof -
  assume a: "s = st\<lparr>meshes := meshes s, attrs := attrs s, rigid := rigid s, soft := soft s,
            scene := scene s, physicsWorld := physicsWorld s, rigidBodies := rigidBodies s,
            hinge := hinge s, cloth := cloth s, clothPosAttr := clothPosAttr s,
            clothNormAttr := clothNormAttr s\<rparr>"
    and b: "s' = s\<lparr>meshes := meshes s', attrs := attrs s', rigid := rigid s', soft := soft s',
            scene := scene s', physicsWorld := physicsWorld s', rigidBodies := rigidBodies s',
            hinge := hinge s', cloth := cloth s', clothPosAttr := clothPosAttr s',
            clothNormAttr := clothNormAttr s'\<rparr>"
  have c: "s\<lparr>meshes := meshes s', attrs := attrs s', rigid := rigid s', soft := soft s',
            scene := scene s', physicsWorld := physicsWorld s', rigidBodies := rigidBodies s',
            hinge := hinge s', cloth := cloth s', clothPosAttr := clothPosAttr s',
            clothNormAttr := clothNormAttr s'\<rparr>
       = (st\<lparr>meshes := meshes s, attrs := attrs s, rigid := rigid s, soft := soft s,
            scene := scene s, physicsWorld := physicsWorld s, rigidBodies := rigidBodies s,
            hinge := hinge s, cloth := cloth s, clothPosAttr := clothPosAttr s,
            clothNormAttr := clothNormAttr s\<rparr>)
          \<lparr>meshes := meshes s', attrs := attrs s', rigid := rigid s', soft := soft s',
            scene := scene s', physicsWorld := physicsWorld s', rigidBodies := rigidBodies s',
            hinge := hinge s', cloth := cloth s', clothPosAttr := clothPosAttr s',
            clothNormAttr := clothNormAttr s'\<rparr>"
    using a
    by (rule arg_cong [where f = "\<lambda>x. x\<lparr>meshes := meshes s', attrs := attrs s',
            rigid := rigid s', soft := soft s',
            scene := scene s', physicsWorld := physicsWorld s', rigidBodies := rigidBodies s',
            hinge := hinge s', cloth := cloth s', clothPosAttr := clothPosAttr s',
            clothNormAttr := clothNormAttr s'\<rparr>"])
  have "s' = (st\<lparr>meshes := meshes s, attrs := attrs s, rigid := rigid s, soft := soft s,
            scene := scene s, physicsWorld := physicsWorld s, rigidBodies := rigidBodies s,
            hinge := hinge s, cloth := cloth s, clothPosAttr := clothPosAttr s,
            clothNormAttr := clothNormAttr s\<rparr>)
          \<lparr>meshes := meshes s', attrs := attrs s', rigid := rigid s', soft := soft s',
            scene := scene s', physicsWorld := physicsWorld s', rigidBodies := rigidBodies s',
            hinge := hinge s', cloth := cloth s', clothPosAttr := clothPosAttr s',
            clothNormAttr := clothNormAttr s'\<rparr>"
    using b c by (rule trans)
  then show "s' = st\<lparr>meshes := meshes s', attrs := attrs s', rigid := rigid s', soft := soft s',
            scene := scene s', physicsWorld := physicsWorld s', rigidBodies := rigidBodies s',
            hinge := hinge s', cloth := cloth s', clothPosAttr := clothPosAttr s',
            clothNormAttr := clothNormAttr s'\<rparr>" by simp
qed

lemma builtOnly_fields:
  assumes "builtOnly st s"
  shows "engineLog s = engineLog st"
    "listeners s = listeners st" "frameRequests s = frameRequests st"
    "consoleErrors s = consoleErrors st" "renderer s = renderer st" "camera s = camera st"
    "AmmoLib s = AmmoLib st" "armMovement s = armMovement st"
proof -
  have eq: "s = st\<lparr>meshes := meshes s, attrs := attrs s, rigid := rigid s, soft := soft s,
            scene := scene s, physicsWorld := physicsWorld s, rigidBodies := rigidBodies s,
            hinge := hinge s, cloth := cloth s, clothPosAttr := clothPosAttr s,
            clothNormAttr := clothNormAttr s\<rparr>"
    using assms by (simp add: builtOnly_def)
  show "engineLog s = engineLog st" by (subst eq) simp
  show "listeners s = listeners st" by (subst eq) simp
  show "frameRequests s = frameRequests st" by (subst eq) simp
  show "consoleErrors s = consoleErrors st" by (subst eq) simp
  show "renderer s = renderer st" by (subst eq) simp
  show "camera s = camera st" by (subst eq) simp
  show "AmmoLib s = AmmoLib st" by (subst eq) simp
  show "armMovement s = armMovement st" by (subst eq) simp
qed

lemma bodiesOnly_builtOnly:
  assumes "bodiesOnly st s"
  shows "builtOnly st s"
proof -
  have a: "s = st\<lparr>meshes := meshes s, rigid := rigid s, scene := scene s,
            physicsWorld := physicsWorld s, rigidBodies := rigidBodies s\<rparr>"
    using assms by (simp add: bodiesOnly_def)
  note f = bodiesOnly_fields [OF assms]
  have "st\<lparr>meshes := meshes s, rigid := rigid s, scene := scene s,
            physicsWorld := physicsWorld s, rigidBodies := rigidBodies s\<rparr>
      = st\<lparr>meshes := meshes s, attrs := attrs s, rigid := rigid s, soft := soft s,
            scene := scene s, physicsWorld := physicsWorld s, rigidBodies := rigidBodies s,
            hinge := hinge s, cloth := cloth s, clothPosAttr := clothPosAttr s,
            clothNormAttr := clothNormAttr s\<rparr>"
    by (simp add: f)
  with a show ?thesis unfolding builtOnly_def by (rule trans)
qed

lemma createClothMesh_eq:
  assumes "scene st = Some g"
  shows "createClothMesh L st =
     (Inr (),
      st\<lparr>attrs := attrs st @
            [\<lparr>array = translate
                    (fst clothPos,
                     fst (snd clothPos) + real clothHeight * 0.5,
                     snd (snd clothPos) - real clothWidth * 0.5)
                    (rotateY (pi * 0.5)
                       (planeVertices (real clothWidth) (real clothHeight)
                          clothNumSegmentsZ clothNumSegmentsY)),
              needsUpdate = True\<rparr>,
             \<lparr>array = computeVertexNormals L
                  (PlaneGeometry (length (attrs st)) (Suc (length (attrs st))))
                  (translate
                    (fst clothPos,
                     fst (snd clothPos) + real clothHeight * 0.5,
                     snd (snd clothPos) - real clothWidth * 0.5)
                    (rotateY (pi * 0.5)
                       (planeVertices (real clothWidth) (real clothHeight)
                          clothNumSegmentsZ clothNumSegmentsY))),
              needsUpdate = True\<rparr>],
         meshes := meshes st @
            [\<lparr>position = (0, 0, 0), quaternion = (0, 0, 0, 1),
              geometry = PlaneGeometry (length (attrs st)) (Suc (length (attrs st))),
              physicsBody = None\<rparr>],
         scene := Some (g\<lparr>children := children g @ [length (meshes st)]\<rparr>),
         cloth := Some (length (meshes st)),
         clothPosAttr := Some (length (attrs st)),
         clothNormAttr := Some (Suc (length (attrs st)))\<rparr>)"
  using assms
  by (simp add: createClothMesh_def Let_def sceneAdd_def getAttribute_def recomputeNormals_def
      nth_append update_tail nth_tail)

lemma createClothBody_eq:
  assumes "AmmoLib st" "physicsWorld st = Some w" "cloth st = Some m"
  shows "createClothBody st =
     (Inr (),
      st\<lparr>soft := soft st @
            [\<lparr>m_nodes = CreatePatch
                   (fst clothPos, fst (snd clothPos) + real clothHeight, snd (snd clothPos))
                   (fst clothPos, fst (snd clothPos) + real clothHeight,
                    snd (snd clothPos) - real clothWidth)
                   (fst clothPos, fst (snd clothPos), snd (snd clothPos))
                   (fst clothPos, fst (snd clothPos), snd (snd clothPos) - real clothWidth)
                   (clothNumSegmentsZ + 1) (clothNumSegmentsY + 1),
              viterations = 10, piterations = 10, totalMass = 0.9,
              collisionMargin = margin * 3, activationState = 4, anchors = []\<rparr>],
         physicsWorld := Some (w\<lparr>softRefs := softRefs w @ [length (soft st)]\<rparr>),
         meshes := (meshes st)[m := (meshes st ! m)\<lparr>physicsBody := Some (length (soft st))\<rparr>]\<rparr>)"
  using assms
  by (simp add: createClothBody_def Let_def setPhysicsBody_def)

lemma createArm_eq:
  assumes "AmmoLib st" "scene st = Some g" "physicsWorld st = Some w"
    "cloth st = Some m" "m < length (meshes st)" "physicsBody (meshes st ! m) = Some sb"
    "sb < length (soft st)"
  shows "createArm st =
     (Inr (),
      st\<lparr>meshes :=
            meshes st @
            [\<lparr>position = (fst clothPos, 1 / 10, snd (snd clothPos) - (3 + real clothWidth)),
              quaternion = (0, 0, 0, 1),
              geometry = BoxGeometry 1 (1 / 5) 1,
              physicsBody = Some (length (rigid st))\<rparr>,
             \<lparr>position = (fst clothPos, (fst (snd clothPos) + real clothHeight) / 2,
                          snd (snd clothPos) - (3 + real clothWidth)),
              quaternion = (0, 0, 0, 1),
              geometry = BoxGeometry (2 / 5) (fst (snd clothPos) + real clothHeight) (2 / 5),
              physicsBody = Some (Suc (length (rigid st)))\<rparr>,
             \<lparr>position = (fst clothPos, fst (snd clothPos) + real clothHeight + 1 / 5,
                          snd (snd clothPos) - (3 + real clothWidth) / 2),
              quaternion = (0, 0, 0, 1),
              geometry = BoxGeometry (2 / 5) (2 / 5) (17 / 5 + real clothWidth),
              physicsBody = Some (Suc (Suc (length (rigid st))))\<rparr>],
         rigid :=
            rigid st @
            [\<lparr>mass = 0,
              origin = (fst clothPos, 1 / 10, snd (snd clothPos) - (3 + real clothWidth)),
              rotation = (0, 0, 0, 1), linearVelocity = (0, 0, 0),
              angularVelocity = (0, 0, 0), active = False, deactivationDisabled = False\<rparr>,
             \<lparr>mass = 0,
              origin = (fst clothPos, (fst (snd clothPos) + real clothHeight) / 2,
                        snd (snd clothPos) - (3 + real clothWidth)),
              rotation = (0, 0, 0, 1), linearVelocity = (0, 0, 0),
              angularVelocity = (0, 0, 0), active = False, deactivationDisabled = False\<rparr>,
             \<lparr>mass = 2,
              origin = (fst clothPos, fst (snd clothPos) + real clothHeight + 1 / 5,
                        snd (snd clothPos) - (3 + real clothWidth) / 2),
              rotation = (0, 0, 0, 1), linearVelocity = (0, 0, 0),
              angularVelocity = (0, 0, 0), active = True, deactivationDisabled = True\<rparr>],
         scene :=
            Some (g\<lparr>children := children g @
                    [length (meshes st), Suc (length (meshes st)),
                     Suc (Suc (length (meshes st)))]\<rparr>),
         rigidBodies := rigidBodies st @ [Suc (Suc (length (meshes st)))],
         soft :=
            (soft st)
            [sb := (soft st ! sb)
               \<lparr>anchors := anchors (soft st ! sb) @
                  [(0, Some (Suc (Suc (length (rigid st)))), 1 / 2),
                   (clothNumSegmentsZ, Some (Suc (Suc (length (rigid st)))), 1 / 2)]\<rparr>],
         hinge := True,
         physicsWorld :=
            Some (w\<lparr>rigidRefs := rigidRefs w @
                    [length (rigid st), Suc (length (rigid st)), Suc (Suc (length (rigid st)))],
                   constraints := Suc (constraints w)\<rparr>)\<rparr>)"
  using assms
  by (simp add: createArm_def Let_def createParallelepiped_eq appendAnchor_def nth_append)

lemma andThen_assoc:
  "andThen (andThen r f) k = andThen r (\<lambda>a s. andThen (f a s) k)"
  by (cases r; cases "fst r") (simp_all add: andThen_def)

lemma clothPatch_eq:
  assumes "AmmoLib st" "scene st = Some g" "physicsWorld st = Some w"
  shows "createClothPatch L st =
     (Inr (),
      st\<lparr>attrs :=
            attrs st @
            [\<lparr>array =
                translate
                  (fst clothPos, fst (snd clothPos) + real clothHeight / 2,
                   snd (snd clothPos) - real clothWidth / 2)
                  (rotateY (pi / 2)
                     (planeVertices (real clothWidth) (real clothHeight)
                        clothNumSegmentsZ clothNumSegmentsY)),
              needsUpdate = True\<rparr>,
             \<lparr>array =
                computeVertexNormals L
                  (PlaneGeometry (length (attrs st)) (Suc (length (attrs st))))
                  (translate
                     (fst clothPos, fst (snd clothPos) + real clothHeight / 2,
                      snd (snd clothPos) - real clothWidth / 2)
                     (rotateY (pi / 2)
                        (planeVertices (real clothWidth) (real clothHeight)
                           clothNumSegmentsZ clothNumSegmentsY))),
              needsUpdate = True\<rparr>],
         scene := Some (g\<lparr>children := children g @ [length (meshes st)]\<rparr>),
         cloth := Some (length (meshes st)),
         clothPosAttr := Some (length (attrs st)),
         clothNormAttr := Some (Suc (length (attrs st))),
         soft :=
            soft st @
            [\<lparr>m_nodes =
                CreatePatch
                  (fst clothPos, fst (snd clothPos) + real clothHeight, snd (snd clothPos))
                  (fst clothPos, fst (snd clothPos) + real clothHeight,
                   snd (snd clothPos) - real clothWidth)
                  clothPos
                  (fst clothPos, fst (snd clothPos), snd (snd clothPos) - real clothWidth)
                  (Suc clothNumSegmentsZ) (Suc clothNumSegmentsY),
              viterations = 10, piterations = 10, totalMass = 9 / 10,
              collisionMargin = margin * 3, activationState = 4, anchors = []\<rparr>],
         physicsWorld := Some (w\<lparr>softRefs := softRefs w @ [length (soft st)]\<rparr>),
         meshes :=
            meshes st @
            [\<lparr>position = (0, 0, 0), quaternion = (0, 0, 0, 1),
              geometry = PlaneGeometry (length (attrs st)) (Suc (length (attrs st))),
              physicsBody = Some (length (soft st))\<rparr>]\<rparr>)"
  using assms
  by (simp add: createClothPatch_def createClothMesh_eq createClothBody_eq nth_append)

lemma clothPatch_facts:
  assumes "buildable st"
  shows "fst (createClothPatch L st) = Inr ()"
    and "builtOnly st (snd (createClothPatch L st))"
    and "buildable (snd (createClothPatch L st))"
    and "clothLinked (length (meshes st)) (length (attrs st)) (Suc (length (attrs st)))
           (length (soft st)) (snd (createClothPatch L st))"
    and "bodiesOk st \<Longrightarrow> bodiesOk (snd (createClothPatch L st))"
    and "hinge (snd (createClothPatch L st)) = hinge st"
    and "length (m_nodes (soft (snd (createClothPatch L st)) ! length (soft st)))
           = (clothNumSegmentsZ + 1) * (clothNumSegmentsY + 1)"
proof -
  obtain g w where gw: "scene st = Some g" "physicsWorld st = Some w" and a: "AmmoLib st"
    using assms by (auto simp add: buildable_def)
  note eq = clothPatch_eq [OF a gw, of L]
  show "fst (createClothPatch L st) = Inr ()" unfolding eq by simp
  show "builtOnly st (snd (createClothPatch L st))" unfolding eq by (simp add: builtOnly_def)
  show "buildable (snd (createClothPatch L st))" unfolding eq by (simp add: buildable_def a)
  show "clothLinked (length (meshes st)) (length (attrs st)) (Suc (length (attrs st)))
           (length (soft st)) (snd (createClothPatch L st))"
    unfolding eq
    by (simp add: clothLinked_def clothBuffers_def bufferLinked_def bodyLinked_def nth_append
        length_translate length_rotateY length_planeVertices length_CreatePatch)
  show "hinge (snd (createClothPatch L st)) = hinge st" unfolding eq by simp
  show "length (m_nodes (soft (snd (createClothPatch L st)) ! length (soft st)))
           = (clothNumSegmentsZ + 1) * (clothNumSegmentsY + 1)"
    unfolding eq by (simp add: length_CreatePatch)
  show "bodiesOk (snd (createClothPatch L st))" if "bodiesOk st"
    using that unfolding eq by (auto simp add: bodiesOk_def list_all_iff nth_append)
qed

lemma createArm_facts:
  assumes "buildable st" "clothLinked m a n sb st"
  shows "fst (createArm st) = Inr ()"
    and "builtOnly st (snd (createArm st))"
    and "buildable (snd (createArm st))"
    and "clothLinked m a n sb (snd (createArm st))"
    and "bodiesOk st \<Longrightarrow> bodiesOk (snd (createArm st))"
    and "hinge (snd (createArm st))"
    and "length (m_nodes (soft (snd (createArm st)) ! sb)) = length (m_nodes (soft st ! sb))"
proof -
  obtain g w where gw: "scene st = Some g" "physicsWorld st = Some w" and am: "AmmoLib st"
    using assms(1) by (auto simp add: buildable_def)
  have c: "cloth st = Some m" "m < length (meshes st)" "physicsBody (meshes st ! m) = Some sb"
    "sb < length (soft st)"
    using assms(2) by (simp_all add: clothLinked_def clothBuffers_def bufferLinked_def bodyLinked_def)
  note eq = createArm_eq [OF am gw c]
  show "fst (createArm st) = Inr ()" unfolding eq by simp
  show "builtOnly st (snd (createArm st))" unfolding eq by (simp add: builtOnly_def)
  show "buildable (snd (createArm st))" unfolding eq by (simp add: buildable_def am)
  show "clothLinked m a n sb (snd (createArm st))"
    using assms(2) unfolding eq
    by (simp add: clothLinked_def clothBuffers_def bufferLinked_def bodyLinked_def nth_append)
  show "hinge (snd (createArm st))" unfolding eq by simp
  show "length (m_nodes (soft (snd (createArm st)) ! sb)) = length (m_nodes (soft st ! sb))"
    using c(4) unfolding eq by simp
  show "bodiesOk (snd (createArm st))" if "bodiesOk st"
    using that unfolding eq by (auto simp add: bodiesOk_def list_all_iff nth_append)
qed

lemma grown_linked:
  assumes "grown st s" "clothLinked m a n sb st"
  shows "clothLinked m a n sb s"
proof -
  have b: "bodiesOnly st s" and le: "length (meshes st) \<le> length (meshes s)"
    and t: "take (length (meshes st)) (meshes s) = meshes st"
    using assms(1) by (simp_all add: grown_def)
  have m: "m < length (meshes st)"
    using assms(2) by (simp add: clothLinked_def clothBuffers_def bufferLinked_def)
  have "meshes s ! m = take (length (meshes st)) (meshes s) ! m" using m by simp
  then have nm: "meshes s ! m = meshes st ! m" by (simp only: t)
  show ?thesis
    using assms(2) m le nm bodiesOnly_fields [OF b]
    by (simp add: clothLinked_def clothBuffers_def bufferLinked_def bodyLinked_def)
qed

lemma createObjects_alt:
  "createObjects L st =
     andThen (createParallelepiped 40 1 40 0 (0, - 0.5, 0) (0, 0, 0, 1) st)
       (\<lambda>ground st.
     andThen (wall 0 (- real numBricksLength * brickLength * 0.5)
                (0, brickHeight * 0.5, - real numBricksLength * brickLength * 0.5) st)
       (\<lambda>pos st.
     andThen (createClothPatch L st) (\<lambda>u st. createArm st)))"
  by (simp only: createObjects_def createClothPatch_def andThen_assoc)

lemma createObjects_facts:
  assumes "buildable st" "bodiesOk st"
  shows "fst (createObjects L st) = Inr ()"
    and "builtOnly st (snd (createObjects L st))"
    and "buildable (snd (createObjects L st))"
    and "clothLinked (length (meshes st) + 53) (length (attrs st)) (Suc (length (attrs st)))
           (length (soft st)) (snd (createObjects L st))"
    and "bodiesOk (snd (createObjects L st))"
    and "hinge (snd (createObjects L st))"
    and "length (m_nodes (soft (snd (createObjects L st)) ! length (soft st)))
           = (clothNumSegmentsZ + 1) * (clothNumSegmentsY + 1)"
proof -
  let ?c0 = "createParallelepiped 40 1 40 0 (0, - 0.5, 0) (0, 0, 0, 1) st"
  let ?s0 = "snd ?c0"
  let ?c1 = "wall 0 (- real numBricksLength * brickLength * 0.5)
                (0, brickHeight * 0.5, - real numBricksLength * brickLength * 0.5) ?s0"
  let ?s1 = "snd ?c1"
  let ?c2 = "createClothPatch L ?s1"
  let ?s2 = "snd ?c2"
  note g0 = createParallelepiped_grown [OF assms(1), of 40 1 40 0 "(0, - 0.5, 0)" "(0, 0, 0, 1)"]
  have b0: "buildable ?s0" using g0(1) by (simp add: grown_def)
  from wall_grown [OF b0, of 0 "- real numBricksLength * brickLength * 0.5"
      "(0, brickHeight * 0.5, - real numBricksLength * brickLength * 0.5)"]
  obtain p where g1: "grown ?s0 ?s1" "fst ?c1 = Inr p"
    "length (meshes ?s1) = length (meshes ?s0) + bricksFrom 0" by blast
  have g01: "grown st ?s1" by (rule grown_trans [OF g0(1) g1(1)])
  have b1: "buildable ?s1" using g1(1) by (simp add: grown_def)
  have ok1: "bodiesOk ?s1" using g01 assms(2) by (simp add: grown_def)
  have bo1: "bodiesOnly st ?s1" using g01 by (simp add: grown_def)
  have n1: "length (meshes ?s1) = length (meshes st) + 53"
    using g1(3) g0(3) by (simp add: bricksFrom_0)
  note f1 = bodiesOnly_fields [OF bo1]
  note p2 = clothPatch_facts [OF b1, of L]
  have l2: "clothLinked (length (meshes st) + 53) (length (attrs st)) (Suc (length (attrs st)))
           (length (soft st)) ?s2"
    using p2(4) by (simp only: n1 f1)
  note a3 = createArm_facts [OF p2(3) l2]
  have eq: "createObjects L st = createArm ?s2"
    unfolding createObjects_alt
    by (simp only: andThen_fst_Inr [OF g0(2)] andThen_fst_Inr [OF g1(2)]
        andThen_fst_Inr [OF p2(1)])
  show "fst (createObjects L st) = Inr ()" unfolding eq by (rule a3(1))
  show "builtOnly st (snd (createObjects L st))"
    unfolding eq
    using builtOnly_trans [OF bodiesOnly_builtOnly [OF bo1] builtOnly_trans [OF p2(2) a3(2)]] .
  show "buildable (snd (createObjects L st))" unfolding eq by (rule a3(3))
  show "clothLinked (length (meshes st) + 53) (length (attrs st)) (Suc (length (attrs st)))
           (length (soft st)) (snd (createObjects L st))"
    unfolding eq by (rule a3(4))
  show "bodiesOk (snd (createObjects L st))" unfolding eq by (rule a3(5) [OF p2(5) [OF ok1]])
  show "hinge (snd (createObjects L st))" unfolding eq by (rule a3(6))
  show "length (m_nodes (soft (snd (createObjects L st)) ! length (soft st)))
           = (clothNumSegmentsZ + 1) * (clothNumSegmentsY + 1)"
    unfolding eq using a3(7) p2(7) by (simp only: f1)
qed

lemma syncLoop_triplet:
  assumes "length arr = 3 * length nodes" "i < length nodes"
  shows "triplet (snd (syncLoop nodes 0 0 arr)) i = m_x (nodes ! i)"
proof -
  have le: "length arr \<le> 3 * length nodes" using assms(1) by simp
  have j: "3 * i < length arr" "3 * i + 1 < length arr" "3 * i + 2 < length arr"
    using assms by simp_all
  have d: "(3 * i) div 3 = i" "(3 * i + 1) div 3 = i" "(3 * i + 2) div 3 = i"
    "(3 * i) mod 3 = 0" "(3 * i + 1) mod 3 = 1" "(3 * i + 2) mod 3 = 2"
    by presburger+
  have "snd (syncLoop nodes 0 0 arr) ! (3 * i) = fst (m_x (nodes ! i))"
    using syncLoop_nth [of 0 0 arr nodes "3 * i"] le j(1) d by (simp add: comp3_def)
  moreover have "snd (syncLoop nodes 0 0 arr) ! (3 * i + 1) = fst (snd (m_x (nodes ! i)))"
    using syncLoop_nth [of 0 0 arr nodes "3 * i + 1"] le j(2) d by (simp add: comp3_def)
  moreover have "snd (syncLoop nodes 0 0 arr) ! (3 * i + 2) = snd (snd (m_x (nodes ! i)))"
    using syncLoop_nth [of 0 0 arr nodes "3 * i + 2"] le j(3) d by (simp add: comp3_def)
  ultimately show ?thesis by (simp add: triplet_def)
qed

lemma synced_facts:
  assumes "a < length as" "n < length as" "a \<noteq> n"
  shows "length (synced L a n nodes as) = length as"
    and "synced L a n nodes as ! a =
           \<lparr>array = snd (syncLoop nodes 0 0 (array (as ! a))), needsUpdate = True\<rparr>"
    and "synced L a n nodes as ! n =
           \<lparr>array = computeVertexNormals L (PlaneGeometry a n)
                      (snd (syncLoop nodes 0 0 (array (as ! a)))),
            needsUpdate = True\<rparr>"
    and "k \<noteq> a \<Longrightarrow> k \<noteq> n \<Longrightarrow> synced L a n nodes as ! k = as ! k"
  using assms by (simp_all add: synced_def Let_def)

lemma buffer_attribute_all [simp]:
  "(b :: buffer_attribute)\<lparr>array := arr, needsUpdate := u\<rparr> = \<lparr>array = arr, needsUpdate = u\<rparr>"
  by (cases b) simp

lemma synced_attrs:
  fixes as :: "'a list"
  assumes "a \<noteq> n"
  shows "as[a := x, n := y, a := x', n := y'] = as[a := x', n := y']"
proof (rule nth_equalityI)
  show "length (as[a := x, n := y, a := x', n := y']) = length (as[a := x', n := y'])" by simp
next
  fix i
  assume "i < length (as[a := x, n := y, a := x', n := y'])"
  then have i: "i < length as" by simp
  show "as[a := x, n := y, a := x', n := y'] ! i = as[a := x', n := y'] ! i"
    using assms i by (cases "i = a"; cases "i = n") simp_all
qed

lemma sync_eq:
  assumes "bufferLinked m a n st" "bodyLinked m a s st"
  shows "sync L (Some m) (Some a) st =
           (Inr (), st\<lparr>attrs := synced L a n (m_nodes (soft st ! s)) (attrs st)\<rparr>)"
proof -
  let ?r = "syncLoop (m_nodes (soft st ! s)) 0 0 (array (attrs st ! a))"
  have b: "m < length (meshes st)" "geometry (meshes st ! m) = PlaneGeometry a n"
    "a < length (attrs st)" "n < length (attrs st)" "a \<noteq> n"
    using assms(1) by (simp_all add: bufferLinked_def)
  have p: "physicsBody (meshes st ! m) = Some s"
    and len: "length (array (attrs st ! a)) \<le> 3 * length (m_nodes (soft st ! s))"
    using assms(2) by (simp_all add: bodyLinked_def)
  have "fst ?r = Inr ()" using len by (rule syncLoop_ok)
  then obtain arr where r: "?r = (Inr (), arr)" by (cases ?r) simp
  show ?thesis
    using b p
    by (simp add: sync_def r Let_def recomputeNormals_def markDirty_def getAttribute_def
        synced_def synced_attrs)
qed

lemma cloth_sync_eq:
  assumes "cloth st = Some m" "clothPosAttr st = Some a" "clothNormAttr st = Some n"
    and "bufferLinked m a n st" "bodyLinked m a s st"
  shows "cloth_sync L st =
           (Inr (), st\<lparr>attrs := synced L a n (m_nodes (soft st ! s)) (attrs st)\<rparr>)"
proof -
  let ?r = "syncLoop (m_nodes (soft st ! s)) 0 0 (array (attrs st ! a))"
  have b: "m < length (meshes st)" "geometry (meshes st ! m) = PlaneGeometry a n"
    "a < length (attrs st)" "n < length (attrs st)" "a \<noteq> n"
    using assms(4) by (simp_all add: bufferLinked_def)
  have p: "physicsBody (meshes st ! m) = Some s"
    and len: "length (array (attrs st ! a)) \<le> 3 * length (m_nodes (soft st ! s))"
    using assms(5) by (simp_all add: bodyLinked_def)
  have "fst ?r = Inr ()" using len by (rule syncLoop_ok)
  then obtain arr where r: "?r = (Inr (), arr)" by (cases ?r) simp
  show ?thesis
    using b p assms(1,2,3)
    by (simp add: cloth_sync_def r Let_def recomputeNormals_def markDirty_def
        synced_def synced_attrs)
qed

lemma storesOnly_cloth_sync: "storesOnly st (snd (cloth_sync L st))"
  by (auto simp add: cloth_sync_def Let_def recomputeNormals_def markDirty_def storesOnly_def
      split: option.splits prod.splits sum.splits geometry.splits)

lemma cloth_sync_unchanged:
  "meshes (snd (cloth_sync L st)) = meshes st"
  "rigid (snd (cloth_sync L st)) = rigid st"
  "soft (snd (cloth_sync L st)) = soft st"
  "engineLog (snd (cloth_sync L st)) = engineLog st"
  "length (attrs (snd (cloth_sync L st))) = length (attrs st)"
  by (auto simp add: cloth_sync_def Let_def recomputeNormals_def markDirty_def
      split: option.splits prod.splits sum.splits geometry.splits)

lemma storesOnly_syncRigidBodies: "storesOnly st (snd (syncRigidBodies ms st))"
proof (induction ms arbitrary: st)
  case Nil
  then show ?case by simp
next
  case (Cons objThree rest)
  show ?case
  proof (cases "physicsBody (meshes st ! objThree)")
    case None
    then show ?thesis by simp
  next
    case (Some objPhys)
    let ?st = "st\<lparr>meshes := (meshes st)[objThree := (meshes st ! objThree)
                  \<lparr>position := origin (rigid st ! objPhys),
                   quaternion := rotation (rigid st ! objPhys)\<rparr>]\<rparr>"
    have "storesOnly st ?st" by simp
    from storesOnly_trans [OF this Cons.IH [of ?st]] Some show ?thesis by simp
  qed
qed

lemma syncRigidBodies_unchanged:
  "attrs (snd (syncRigidBodies ms st)) = attrs st
   \<and> rigid (snd (syncRigidBodies ms st)) = rigid st
   \<and> soft (snd (syncRigidBodies ms st)) = soft st
   \<and> engineLog (snd (syncRigidBodies ms st)) = engineLog st
   \<and> length (meshes (snd (syncRigidBodies ms st))) = length (meshes st)
   \<and> (\<forall>k. geometry (meshes (snd (syncRigidBodies ms st)) ! k) = geometry (meshes st ! k))
   \<and> (\<forall>k. physicsBody (meshes (snd (syncRigidBodies ms st)) ! k) = physicsBody (meshes st ! k))"
proof (induction ms arbitrary: st)
  case Nil
  then show ?case by simp
next
  case (Cons objThree rest)
  show ?case
  proof (cases "physicsBody (meshes st ! objThree)")
    case None
    then show ?thesis by simp
  next
    case (Some objPhys)
    let ?st = "st\<lparr>meshes := (meshes st)[objThree := (meshes st ! objThree)
                  \<lparr>position := origin (rigid st ! objPhys),
                   quaternion := rotation (rigid st ! objPhys)\<rparr>]\<rparr>"
    have g: "geometry (meshes ?st ! k) = geometry (meshes st ! k)"
      "physicsBody (meshes ?st ! k) = physicsBody (meshes st ! k)" for k
      by (cases "k = objThree"; cases "objThree < length (meshes st)";
          simp add: list_update_beyond)+
    show ?thesis using Cons.IH [of ?st] Some g by simp
  qed
qed

lemma syncRigidBodies_ok:
  "list_all (\<lambda>m. m < length (meshes st) \<and> physicsBody (meshes st ! m) \<noteq> None) ms \<Longrightarrow>
   fst (syncRigidBodies ms st) = Inr ()"
proof (induction ms arbitrary: st)
  case Nil
  then show ?case by simp
next
  case (Cons objThree rest)
  then obtain objPhys where p: "physicsBody (meshes st ! objThree) = Some objPhys" by auto
  let ?st = "st\<lparr>meshes := (meshes st)[objThree := (meshes st ! objThree)
                \<lparr>position := origin (rigid st ! objPhys),
                 quaternion := rotation (rigid st ! objPhys)\<rparr>]\<rparr>"
  have g: "physicsBody (meshes ?st ! k) = physicsBody (meshes st ! k)" for k
    by (cases "k = objThree"; cases "objThree < length (meshes st)";
        simp add: list_update_beyond)
  have "list_all (\<lambda>m. m < length (meshes ?st) \<and> physicsBody (meshes ?st ! m) \<noteq> None) rest"
    using Cons.prems g by (simp add: list_all_iff)
  from Cons.IH [OF this] p show ?case by simp
qed

text \<open>The cloth's links depend only on the shapes of the stores.\<close>

lemma clothBuffers_cong:
  assumes "storesOnly st s" "length (meshes s) = length (meshes st)"
    "\<And>k. geometry (meshes s ! k) = geometry (meshes st ! k)"
    "length (attrs s) = length (attrs st)"
    "\<And>k. length (array (attrs s ! k)) = length (array (attrs st ! k))"
  shows "clothBuffers m a n s = clothBuffers m a n st"
  using assms storesOnly_cloth [OF assms(1)]
  by (simp add: clothBuffers_def bufferLinked_def)

lemma bodiesOk_cong:
  assumes "storesOnly st s" "length (meshes s) = length (meshes st)"
    "\<And>k. physicsBody (meshes s ! k) = physicsBody (meshes st ! k)"
  shows "bodiesOk s = bodiesOk st"
  using assms storesOnly_cloth [OF assms(1)]
  by (simp add: bodiesOk_def)

lemma KB_cloth_sync:
  assumes "clothBuffers m a n st"
  shows "clothBuffers m a n (snd (cloth_sync L st))"
proof (cases "physicsBody (meshes st ! m)")
  case None
  then show ?thesis using assms by (simp add: cloth_sync_def clothBuffers_def)
next
  case (Some s)
  obtain r arr where sl: "syncLoop (m_nodes (soft st ! s)) 0 0 (array (attrs st ! a)) = (r, arr)"
    by (cases "syncLoop (m_nodes (soft st ! s)) 0 0 (array (attrs st ! a))") auto
  have len: "length arr = length (array (attrs st ! a))"
    using syncLoop_length [of "m_nodes (soft st ! s)" 0 0 "array (attrs st ! a)"] sl by simp
  show ?thesis
    using assms Some sl len
    by (cases r)
      (auto simp add: cloth_sync_def Let_def clothBuffers_def bufferLinked_def recomputeNormals_def
        markDirty_def nth_list_update)
qed

lemma KB_syncRigidBodies:
  "clothBuffers m a n (snd (syncRigidBodies ms st)) = clothBuffers m a n st"
  by (rule clothBuffers_cong [OF storesOnly_syncRigidBodies])
    (simp_all add: syncRigidBodies_unchanged)

lemma KB_cloth_stepAndSync:
  assumes "clothBuffers m a n st"
  shows "clothBuffers m a n (snd (cloth_stepAndSync L dt st))"
proof (cases "physicsWorld st")
  case None
  then show ?thesis using assms by (simp add: cloth_stepAndSync_def)
next
  case (Some w)
  let ?st = "st\<lparr>rigid := fst (stepSimulation L dt 10 w (rigid st, soft st)),
               soft := snd (stepSimulation L dt 10 w (rigid st, soft st)),
               engineLog := engineLog st @ [StepSimulation dt 10]\<rparr>"
  have k: "clothBuffers m a n ?st" using assms by (simp add: clothBuffers_def bufferLinked_def)
  have "clothBuffers m a n (snd (andThen (cloth_sync L ?st)
          (\<lambda>u st. syncRigidBodies (rigidBodies st) st)))"
    by (rule andThen_keeps [where P = "clothBuffers m a n"], rule KB_cloth_sync [OF k])
      (simp add: KB_syncRigidBodies)
  then show ?thesis using Some by (simp add: cloth_stepAndSync_def Let_def)
qed

lemma KB_cloth_animate:
  assumes "clothBuffers m a n st"
  shows "clothBuffers m a n (snd (cloth_animate L dt st))"
proof -
  let ?st = "if hinge st
             then st\<lparr>engineLog := engineLog st @ [EnableAngularMotor True (0.8 * armMovement st) 50]\<rparr>
             else st"
  have k: "clothBuffers m a n ?st" using assms by (simp add: clothBuffers_def bufferLinked_def)
  have "clothBuffers m a n (snd (andThen (cloth_stepAndSync L dt ?st)
        (\<lambda>u st.
           case renderer st of
             None \<Rightarrow> (Inl TypeError, st)
           | Some r \<Rightarrow>
               (Inr (), st\<lparr>renderer := Some (render r),
                          frameRequests := frameRequests st + 1\<rparr>))))"
    by (rule andThen_keeps [where P = "clothBuffers m a n"], rule KB_cloth_stepAndSync [OF k])
      (simp add: clothBuffers_def bufferLinked_def split: option.splits)
  then show ?thesis by (simp add: cloth_animate_def Let_def)
qed

lemma cloth_step_linked:
  assumes "clothLinked m a n sb st" "keepsShape L"
  shows "clothLinked m a n sb
           (st\<lparr>rigid := fst (stepSimulation L dt k w (rigid st, soft st)),
               soft := snd (stepSimulation L dt k w (rigid st, soft st)),
               engineLog := lg\<rparr>)"
proof -
  let ?s = "st\<lparr>rigid := fst (stepSimulation L dt k w (rigid st, soft st)),
               soft := snd (stepSimulation L dt k w (rigid st, soft st)),
               engineLog := lg\<rparr>"
  have nc: "nodeCounts (soft ?s) = nodeCounts (soft st)"
    using assms(2) by (simp add: keepsShape_def)
  have "bodyLinked m a sb ?s = bodyLinked m a sb st"
    by (rule bodyLinked_cong; simp add: nc [simplified])
  moreover have "clothBuffers m a n ?s = clothBuffers m a n st"
    by (simp add: clothBuffers_def bufferLinked_def)
  ultimately show ?thesis using assms(1) by (simp add: clothLinked_def)
qed

lemma cloth_sync_linked:
  assumes "clothLinked m a n sb st"
  shows "fst (cloth_sync L st) = Inr ()"
    and "clothLinked m a n sb (snd (cloth_sync L st))"
proof -
  have c: "cloth st = Some m" "clothPosAttr st = Some a" "clothNormAttr st = Some n"
    "bufferLinked m a n st" "bodyLinked m a sb st"
    using assms by (simp_all add: clothLinked_def clothBuffers_def)
  note eq = cloth_sync_eq [OF c, of L]
  show "fst (cloth_sync L st) = Inr ()" unfolding eq by simp
  have kb: "clothBuffers m a n (snd (cloth_sync L st))"
    using assms by (simp add: clothLinked_def KB_cloth_sync)
  have b: "a < length (attrs st)" "n < length (attrs st)" "a \<noteq> n"
    using assms by (simp_all add: clothLinked_def clothBuffers_def bufferLinked_def)
  have "bodyLinked m a sb (snd (cloth_sync L st))"
    using assms unfolding eq
    by (simp add: clothLinked_def bodyLinked_def synced_facts [OF b] syncLoop_length)
  with kb show "clothLinked m a n sb (snd (cloth_sync L st))" by (simp add: clothLinked_def)
qed

lemma storesOnly_cloth_stepAndSync: "storesOnly st (snd (cloth_stepAndSync L dt st))"
proof (cases "physicsWorld st")
  case None
  then show ?thesis by (simp add: cloth_stepAndSync_def)
next
  case (Some w)
  let ?st = "st\<lparr>rigid := fst (stepSimulation L dt 10 w (rigid st, soft st)),
               soft := snd (stepSimulation L dt 10 w (rigid st, soft st)),
               engineLog := engineLog st @ [StepSimulation dt 10]\<rparr>"
  have s: "storesOnly st ?st" by (simp add: storesOnly_def)
  have "storesOnly st (snd (andThen (cloth_sync L ?st)
          (\<lambda>u st. syncRigidBodies (rigidBodies st) st)))"
  proof (rule andThen_keeps [where P = "storesOnly st"])
    show "storesOnly st (snd (cloth_sync L ?st))"
      by (rule storesOnly_trans [OF s storesOnly_cloth_sync])
  next
    fix u s
    assume "storesOnly st s"
    then show "storesOnly st (snd (syncRigidBodies (rigidBodies s) s))"
      by (rule storesOnly_trans [OF _ storesOnly_syncRigidBodies])
  qed
  then show ?thesis using Some by (simp add: cloth_stepAndSync_def Let_def)
qed

lemma cloth_stepAndSync_log:
  "engineLog (snd (cloth_stepAndSync L dt st)) =
     engineLog st @ (case physicsWorld st of None \<Rightarrow> [] | Some w \<Rightarrow> [StepSimulation dt 10])"
proof (cases "physicsWorld st")
  case None
  then show ?thesis by (simp add: cloth_stepAndSync_def)
next
  case (Some w)
  let ?st = "st\<lparr>rigid := fst (stepSimulation L dt 10 w (rigid st, soft st)),
               soft := snd (stepSimulation L dt 10 w (rigid st, soft st)),
               engineLog := engineLog st @ [StepSimulation dt 10]\<rparr>"
  have "engineLog (snd (andThen (cloth_sync L ?st)
          (\<lambda>u st. syncRigidBodies (rigidBodies st) st))) = engineLog ?st"
    by (rule andThen_keeps [where P = "\<lambda>s. engineLog s = engineLog ?st"])
      (simp_all only: cloth_sync_unchanged syncRigidBodies_unchanged)
  then show ?thesis using Some by (simp add: cloth_stepAndSync_def Let_def)
qed

lemma cloth_stepAndSync_linked:
  assumes "clothLinked m a n sb st" "bodiesOk st" "keepsShape L"
  shows "fst (cloth_stepAndSync L dt st) = Inr ()"
    and "clothLinked m a n sb (snd (cloth_stepAndSync L dt st))"
    and "bodiesOk (snd (cloth_stepAndSync L dt st))"
proof -
  have "fst (cloth_stepAndSync L dt st) = Inr ()
      \<and> clothLinked m a n sb (snd (cloth_stepAndSync L dt st))
      \<and> bodiesOk (snd (cloth_stepAndSync L dt st))"
  proof (cases "physicsWorld st")
    case None
    then show ?thesis using assms by (simp add: cloth_stepAndSync_def)
  next
    case (Some w)
    let ?st = "st\<lparr>rigid := fst (stepSimulation L dt 10 w (rigid st, soft st)),
                 soft := snd (stepSimulation L dt 10 w (rigid st, soft st)),
                 engineLog := engineLog st @ [StepSimulation dt 10]\<rparr>"
    let ?s = "snd (cloth_sync L ?st)"
    have l: "clothLinked m a n sb ?st" by (rule cloth_step_linked [OF assms(1,3)])
    have ok: "bodiesOk ?st" using assms(2) by (simp add: bodiesOk_def)
    note sy = cloth_sync_linked [OF l, of L]
    have oks: "bodiesOk ?s"
      using ok bodiesOk_cong [OF storesOnly_cloth_sync [where st = ?st and L = L]]
      by (simp add: cloth_sync_unchanged)
    have r: "fst (syncRigidBodies (rigidBodies ?s) ?s) = Inr ()"
      using oks by (simp add: bodiesOk_def syncRigidBodies_ok)
    let ?t = "snd (syncRigidBodies (rigidBodies ?s) ?s)"
    have so: "storesOnly ?s ?t" by (rule storesOnly_syncRigidBodies)
    have okt: "bodiesOk ?t"
      using oks bodiesOk_cong [OF so] by (simp add: syncRigidBodies_unchanged)
    have kt: "clothBuffers m a n ?t"
      using sy(2) by (simp add: KB_syncRigidBodies clothLinked_def)
    have "bodyLinked m a sb ?t = bodyLinked m a sb ?s"
      by (rule bodyLinked_cong) (simp_all add: syncRigidBodies_unchanged)
    then have lt: "clothLinked m a n sb ?t" using sy(2) kt by (simp add: clothLinked_def)
    have eq: "cloth_stepAndSync L dt st = syncRigidBodies (rigidBodies ?s) ?s"
      using Some sy(1) by (simp add: cloth_stepAndSync_def Let_def andThen_fst_Inr)
    show ?thesis unfolding eq using r lt okt by simp
  qed
  then show "fst (cloth_stepAndSync L dt st) = Inr ()"
    and "clothLinked m a n sb (snd (cloth_stepAndSync L dt st))"
    and "bodiesOk (snd (cloth_stepAndSync L dt st))" by simp_all
qed

lemma cloth_animate_linked:
  assumes "clothLinked m a n sb st" "bodiesOk st" "keepsShape L"
  shows "clothLinked m a n sb (snd (cloth_animate L dt st))"
    and "bodiesOk (snd (cloth_animate L dt st))"
    and "engineLog (snd (cloth_animate L dt st)) = engineLog st @ clothCalls dt st"
    and "listeners (snd (cloth_animate L dt st)) = listeners st"
    and "consoleErrors (snd (cloth_animate L dt st)) = consoleErrors st"
    and "hinge (snd (cloth_animate L dt st)) = hinge st"
    and "physicsWorld (snd (cloth_animate L dt st)) = physicsWorld st"
    and "renderer st = Some r \<Longrightarrow>
           fst (cloth_animate L dt st) = Inr ()
           \<and> renderer (snd (cloth_animate L dt st)) = Some (render r)
           \<and> frameRequests (snd (cloth_animate L dt st)) = frameRequests st + 1"
    and "renderer st = None \<Longrightarrow>
           fst (cloth_animate L dt st) = Inl TypeError
           \<and> renderer (snd (cloth_animate L dt st)) = None
           \<and> frameRequests (snd (cloth_animate L dt st)) = frameRequests st"
    and "armMovement (snd (cloth_animate L dt st)) = armMovement st"
proof -
  let ?st = "if hinge st
             then st\<lparr>engineLog := engineLog st @ [EnableAngularMotor True (0.8 * armMovement st) 50]\<rparr>
             else st"
  let ?r = "cloth_stepAndSync L dt ?st"
  let ?s = "snd ?r"
  have so0: "storesOnly st ?st" by (simp add: storesOnly_def)
  have l0: "clothLinked m a n sb ?st"
    using assms(1)
    by (simp add: clothLinked_def clothBuffers_def bufferLinked_def bodyLinked_def)
  have ok0: "bodiesOk ?st" using assms(2) by (simp add: bodiesOk_def)
  note ss = cloth_stepAndSync_linked [OF l0 ok0 assms(3), of dt]
  have so: "storesOnly st ?s" by (rule storesOnly_trans [OF so0 storesOnly_cloth_stepAndSync])
  note e = storesOnly_env [OF so] storesOnly_scene [OF so] storesOnly_cloth [OF so]
  have lg: "engineLog ?s = engineLog st @ clothCalls dt st"
    by (simp add: cloth_stepAndSync_log clothCalls_def)
  have some: "cloth_animate L dt st =
      (Inr (), ?s\<lparr>renderer := Some (render r), frameRequests := frameRequests st + 1\<rparr>)"
    if "renderer st = Some r" for r
    using that ss(1) e by (simp add: cloth_animate_def Let_def andThen_fst_Inr)
  have none: "cloth_animate L dt st = (Inl TypeError, ?s)" if "renderer st = None"
    using that ss(1) e by (simp add: cloth_animate_def Let_def andThen_fst_Inr)
  have l1: "clothLinked m a n sb (?s\<lparr>renderer := x, frameRequests := y\<rparr>)" for x y
    using ss(2) by (simp add: clothLinked_def clothBuffers_def bufferLinked_def bodyLinked_def)
  have ok1: "bodiesOk (?s\<lparr>renderer := x, frameRequests := y\<rparr>)" for x y
    using ss(3) by (simp add: bodiesOk_def)
  show "clothLinked m a n sb (snd (cloth_animate L dt st))"
    using some none l1 ss(2) by (cases "renderer st") simp_all
  show "bodiesOk (snd (cloth_animate L dt st))"
    using some none ok1 ss(3) by (cases "renderer st") simp_all
  show "engineLog (snd (cloth_animate L dt st)) = engineLog st @ clothCalls dt st"
    using some none lg by (cases "renderer st") simp_all
  show "listeners (snd (cloth_animate L dt st)) = listeners st"
    using some none e by (cases "renderer st") simp_all
  show "consoleErrors (snd (cloth_animate L dt st)) = consoleErrors st"
    using some none e by (cases "renderer st") simp_all
  show "hinge (snd (cloth_animate L dt st)) = hinge st"
    using some none e by (cases "renderer st") simp_all
  show "physicsWorld (snd (cloth_animate L dt st)) = physicsWorld st"
    using some none e by (cases "renderer st") simp_all
  show "armMovement (snd (cloth_animate L dt st)) = armMovement st"
    using some none e by (cases "renderer st") simp_all
  show "fst (cloth_animate L dt st) = Inr ()
           \<and> renderer (snd (cloth_animate L dt st)) = Some (render r)
           \<and> frameRequests (snd (cloth_animate L dt st)) = frameRequests st + 1"
    if "renderer st = Some r"
    using some [OF that] by simp
  show "fst (cloth_animate L dt st) = Inl TypeError
           \<and> renderer (snd (cloth_animate L dt st)) = None
           \<and> frameRequests (snd (cloth_animate L dt st)) = frameRequests st"
    if "renderer st = None"
    using none [OF that] e that by simp
qed

lemma KB_cloth_handlers:
  "clothBuffers m a n (keydown code st) = clothBuffers m a n st"
  "clothBuffers m a n (keyup st) = clothBuffers m a n st"
  "clothBuffers m a n (cloth_onWindowResize st) = clothBuffers m a n st"
  "clothBuffers m a n (cloth_cleanup st) = clothBuffers m a n st"
  "clothBuffers m a n (initInput st) = clothBuffers m a n st"
  "clothBuffers m a n (st\<lparr>innerWidth := w, innerHeight := h\<rparr>) = clothBuffers m a n st"
  "clothBuffers m a n (st\<lparr>frameRequests := k\<rparr>) = clothBuffers m a n st"
  "clothBuffers m a n (st\<lparr>consoleErrors := es\<rparr>) = clothBuffers m a n st"
  by (simp_all add: keydown_def keyup_def cloth_onWindowResize_def cloth_cleanup_def initInput_def
      Let_def clothBuffers_def bufferLinked_def split: option.splits)

lemma linked_cloth_handlers:
  "clothLinked m a n sb (keydown code st) = clothLinked m a n sb st"
  "clothLinked m a n sb (keyup st) = clothLinked m a n sb st"
  "clothLinked m a n sb (cloth_onWindowResize st) = clothLinked m a n sb st"
  "clothLinked m a n sb (cloth_cleanup st) = clothLinked m a n sb st"
  "clothLinked m a n sb (initInput st) = clothLinked m a n sb st"
  "clothLinked m a n sb (st\<lparr>innerWidth := w, innerHeight := h\<rparr>) = clothLinked m a n sb st"
  "clothLinked m a n sb (st\<lparr>frameRequests := k\<rparr>) = clothLinked m a n sb st"
  "clothLinked m a n sb (st\<lparr>consoleErrors := es\<rparr>) = clothLinked m a n sb st"
  by (simp_all add: keydown_def keyup_def cloth_onWindowResize_def cloth_cleanup_def initInput_def
      Let_def clothLinked_def clothBuffers_def bufferLinked_def bodyLinked_def split: option.splits)

lemma bodiesOk_cloth_handlers:
  "bodiesOk (keydown code st) = bodiesOk st"
  "bodiesOk (keyup st) = bodiesOk st"
  "bodiesOk (cloth_onWindowResize st) = bodiesOk st"
  "bodiesOk (cloth_cleanup st) = bodiesOk st"
  "bodiesOk (initInput st) = bodiesOk st"
  "bodiesOk (st\<lparr>innerWidth := w, innerHeight := h\<rparr>) = bodiesOk st"
  "bodiesOk (st\<lparr>frameRequests := k\<rparr>) = bodiesOk st"
  "bodiesOk (st\<lparr>consoleErrors := es\<rparr>) = bodiesOk st"
  by (simp_all add: keydown_def keyup_def cloth_onWindowResize_def cloth_cleanup_def initInput_def
      Let_def bodiesOk_def split: option.splits)

lemma catchAndLog_cases:
  "catchAndLog r = snd r \<or> (\<exists>e. catchAndLog r = (snd r)\<lparr>consoleErrors := consoleErrors (snd r) @ [e]\<rparr>)"
  by (cases r; cases "fst r") (auto simp add: catchAndLog_def)

lemma KB_cloth_dispatch:
  assumes "clothBuffers m a n st"
  shows "clothBuffers m a n (cloth_dispatch L ev st)"
proof (cases ev)
  case (ClothFrame dt)
  let ?r = "cloth_animate L dt (st\<lparr>frameRequests := frameRequests st - 1\<rparr>)"
  have "clothBuffers m a n (snd ?r)"
    by (rule KB_cloth_animate) (simp add: KB_cloth_handlers assms)
  then have "clothBuffers m a n (catchAndLog ?r)"
    using catchAndLog_cases [of ?r] by (auto simp add: KB_cloth_handlers)
  then show ?thesis using ClothFrame assms by (simp add: cloth_dispatch_def)
qed (simp_all add: cloth_dispatch_def Let_def KB_cloth_handlers assms)

lemma KB_cloth_run:
  "clothBuffers m a n st \<Longrightarrow> clothBuffers m a n (cloth_run L evs st)"
  unfolding cloth_run_def
  by (induction evs arbitrary: st) (simp_all add: KB_cloth_dispatch)

lemma linked_cloth_dispatch:
  assumes "clothLinked m a n sb st" "bodiesOk st" "keepsShape L"
  shows "clothLinked m a n sb (cloth_dispatch L ev st) \<and> bodiesOk (cloth_dispatch L ev st)"
proof (cases ev)
  case (ClothFrame dt)
  let ?st = "st\<lparr>frameRequests := frameRequests st - 1\<rparr>"
  let ?r = "cloth_animate L dt ?st"
  have l: "clothLinked m a n sb ?st" and ok: "bodiesOk ?st"
    using assms by (simp_all add: linked_cloth_handlers bodiesOk_cloth_handlers)
  note an = cloth_animate_linked [OF l ok assms(3), where dt = dt]
  have "clothLinked m a n sb (catchAndLog ?r) \<and> bodiesOk (catchAndLog ?r)"
    using catchAndLog_cases [of ?r] an(1,2)
    by (auto simp add: linked_cloth_handlers bodiesOk_cloth_handlers)
  then show ?thesis using ClothFrame assms by (simp add: cloth_dispatch_def)
qed (simp_all add: cloth_dispatch_def Let_def linked_cloth_handlers bodiesOk_cloth_handlers assms)

lemma linked_cloth_run:
  "clothLinked m a n sb st \<Longrightarrow> bodiesOk st \<Longrightarrow> keepsShape L \<Longrightarrow>
   clothLinked m a n sb (cloth_run L evs st) \<and> bodiesOk (cloth_run L evs st)"
  unfolding cloth_run_def
  by (induction evs arbitrary: st) (simp_all add: linked_cloth_dispatch)

lemma clothBuilt_facts:
  shows "clothLinked 53 0 1 0 (clothBuilt L w h dpr)"
    and "bodiesOk (clothBuilt L w h dpr)"
    and "hinge (clothBuilt L w h dpr)"
    and "physicsWorld (clothBuilt L w h dpr) \<noteq> None"
    and "renderer (clothBuilt L w h dpr) =
           Some \<lparr>rendererSize = (w, h), pixelRatio = dpr, opacity = [],
             disposed = False, framesRendered = 0\<rparr>"
    and "listeners (clothBuilt L w h dpr) =
           [(''resize'', OnWindowResize), (''keydown'', Keydown), (''keyup'', Keyup)]"
    and "frameRequests (clothBuilt L w h dpr) = 0"
    and "consoleErrors (clothBuilt L w h dpr) = []"
    and "engineLog (clothBuilt L w h dpr) = []"
    and "armMovement (clothBuilt L w h dpr) = 0"
    and "length (m_nodes (soft (clothBuilt L w h dpr) ! 0))
           = (clothNumSegmentsZ + 1) * (clothNumSegmentsY + 1)"
proof -
  let ?p = "cloth_initPhysics
       (snd (cloth_initGraphics ((cloth_mount True w h dpr)\<lparr>AmmoLib := True\<rparr>)))"
  let ?s = "snd (createObjects L ?p)"
  have b: "buildable ?p" and ok: "bodiesOk ?p"
    by (simp_all add: buildable_def bodiesOk_def cloth_initPhysics_def cloth_initGraphics_def
        cloth_mount_def Let_def)
  have q: "meshes ?p = []" "attrs ?p = []" "soft ?p = []"
    "listeners ?p = [(''resize'', OnWindowResize)]"
    "frameRequests ?p = 0" "consoleErrors ?p = []" "engineLog ?p = []" "armMovement ?p = 0"
    "renderer ?p = Some \<lparr>rendererSize = (w, h), pixelRatio = dpr, opacity = [],
             disposed = False, framesRendered = 0\<rparr>"
    by (simp_all add: cloth_initPhysics_def cloth_initGraphics_def cloth_mount_def Let_def
        addEventListener_def)
  note co = createObjects_facts [OF b ok, of L]
  note f = builtOnly_fields [OF co(2)]
  have l: "clothLinked 53 0 1 0 ?s" using co(4) by (simp add: q)
  show "clothLinked 53 0 1 0 (clothBuilt L w h dpr)"
    unfolding clothBuilt_def linked_cloth_handlers by (rule l)
  show "bodiesOk (clothBuilt L w h dpr)"
    unfolding clothBuilt_def bodiesOk_cloth_handlers by (rule co(5))
  show "hinge (clothBuilt L w h dpr)" using co(6) by (simp add: clothBuilt_def initInput_def)
  show "physicsWorld (clothBuilt L w h dpr) \<noteq> None"
    using co(3) by (simp add: clothBuilt_def initInput_def buildable_def)
  show "renderer (clothBuilt L w h dpr) =
           Some \<lparr>rendererSize = (w, h), pixelRatio = dpr, opacity = [],
             disposed = False, framesRendered = 0\<rparr>"
    using f(5) q(9) by (simp add: clothBuilt_def initInput_def)
  show "listeners (clothBuilt L w h dpr) =
           [(''resize'', OnWindowResize), (''keydown'', Keydown), (''keyup'', Keyup)]"
    using f(2) q(4) by (simp add: clothBuilt_def initInput_def addEventListener_def)
  show "frameRequests (clothBuilt L w h dpr) = 0"
    using f(3) q(5) by (simp add: clothBuilt_def initInput_def)
  show "consoleErrors (clothBuilt L w h dpr) = []"
    using f(4) q(6) by (simp add: clothBuilt_def initInput_def)
  show "engineLog (clothBuilt L w h dpr) = []"
    using f(1) q(7) by (simp add: clothBuilt_def initInput_def)
  show "armMovement (clothBuilt L w h dpr) = 0"
    using f(8) q(8) by (simp add: clothBuilt_def initInput_def)
  show "length (m_nodes (soft (clothBuilt L w h dpr) ! 0))
           = (clothNumSegmentsZ + 1) * (clothNumSegmentsY + 1)"
    using co(7) by (simp add: clothBuilt_def initInput_def q)
qed

lemma cloth_boot_AmmoLoads:
  "cloth_boot_resume L AmmoLoads dt (cloth_mount True w h dpr)
     = cloth_animate L dt (clothBuilt L w h dpr)"
proof -
  let ?g = "cloth_initGraphics ((cloth_mount True w h dpr)\<lparr>AmmoLib := True\<rparr>)"
  let ?p = "cloth_initPhysics (snd ?g)"
  have g: "fst ?g = Inr ()" by (simp add: cloth_initGraphics_def cloth_mount_def Let_def)
  have b: "buildable ?p" and ok: "bodiesOk ?p"
    by (simp_all add: buildable_def bodiesOk_def cloth_initPhysics_def cloth_initGraphics_def
        cloth_mount_def Let_def)
  note co = createObjects_facts(1) [OF b ok, of L]
  show ?thesis
    by (simp add: cloth_boot_resume_def clothBuilt_def andThen_fst_Inr [OF g]
        andThen_fst_Inr [OF co])
qed

lemma cloth_boot_fails:
  "cloth_boot_resume L ScriptFails dt st = (Inl ScriptLoadFailed, st)"
  "cloth_boot_resume L NoAmmoGlobal dt st = (Inl AmmoLoaderNotFound, st)"
  "cloth_boot_resume L AmmoInitFails dt st = (Inl AmmoInitFailed, st)"
  by (simp_all add: cloth_boot_resume_def)

lemma cloth_cleanup_mount: "cloth_cleanup (cloth_mount c w h dpr) = cloth_mount c w h dpr"
  by (simp add: cloth_cleanup_def cloth_mount_def removeEventListener_def)

text \<open>The cloth scene after its first frame.\<close>

lemma cloth_booted:
  assumes "keepsShape L"
  shows "fst (cloth_boot_resume L AmmoLoads dt (cloth_mount True w h dpr)) = Inr ()"
    and "clothLinked 53 0 1 0 (snd (cloth_boot_resume L AmmoLoads dt (cloth_mount True w h dpr)))"
    and "bodiesOk (snd (cloth_boot_resume L AmmoLoads dt (cloth_mount True w h dpr)))"
    and "frameRequests (snd (cloth_boot_resume L AmmoLoads dt (cloth_mount True w h dpr))) = 1"
    and "listeners (snd (cloth_boot_resume L AmmoLoads dt (cloth_mount True w h dpr))) =
           [(''resize'', OnWindowResize), (''keydown'', Keydown), (''keyup'', Keyup)]"
    and "consoleErrors (snd (cloth_boot_resume L AmmoLoads dt (cloth_mount True w h dpr))) = []"
    and "framesShown (snd (cloth_boot_resume L AmmoLoads dt (cloth_mount True w h dpr))) = 1"
    and "hinge (snd (cloth_boot_resume L AmmoLoads dt (cloth_mount True w h dpr)))"
    and "physicsWorld (snd (cloth_boot_resume L AmmoLoads dt (cloth_mount True w h dpr))) \<noteq> None"
    and "engineLog (snd (cloth_boot_resume L AmmoLoads dt (cloth_mount True w h dpr)))
           = [EnableAngularMotor True 0 50, StepSimulation dt 10]"
    and "armMovement (snd (cloth_boot_resume L AmmoLoads dt (cloth_mount True w h dpr))) = 0"
proof -
  note b = clothBuilt_facts [of L w h dpr]
  note an = cloth_animate_linked [OF b(1) b(2) assms, where dt = dt]
  note r = an(8) [OF b(5)]
  show "fst (cloth_boot_resume L AmmoLoads dt (cloth_mount True w h dpr)) = Inr ()"
    unfolding cloth_boot_AmmoLoads using r by simp
  show "clothLinked 53 0 1 0 (snd (cloth_boot_resume L AmmoLoads dt (cloth_mount True w h dpr)))"
    unfolding cloth_boot_AmmoLoads by (rule an(1))
  show "bodiesOk (snd (cloth_boot_resume L AmmoLoads dt (cloth_mount True w h dpr)))"
    unfolding cloth_boot_AmmoLoads by (rule an(2))
  show "frameRequests (snd (cloth_boot_resume L AmmoLoads dt (cloth_mount True w h dpr))) = 1"
    unfolding cloth_boot_AmmoLoads using r b(7) by simp
  show "listeners (snd (cloth_boot_resume L AmmoLoads dt (cloth_mount True w h dpr))) =
           [(''resize'', OnWindowResize), (''keydown'', Keydown), (''keyup'', Keyup)]"
    unfolding cloth_boot_AmmoLoads using an(4) b(6) by simp
  show "consoleErrors (snd (cloth_boot_resume L AmmoLoads dt (cloth_mount True w h dpr))) = []"
    unfolding cloth_boot_AmmoLoads using an(5) b(8) by simp
  show "framesShown (snd (cloth_boot_resume L AmmoLoads dt (cloth_mount True w h dpr))) = 1"
    unfolding cloth_boot_AmmoLoads using r by (simp add: framesShown_def render_def)
  show "hinge (snd (cloth_boot_resume L AmmoLoads dt (cloth_mount True w h dpr)))"
    unfolding cloth_boot_AmmoLoads using an(6) b(3) by simp
  show "physicsWorld (snd (cloth_boot_resume L AmmoLoads dt (cloth_mount True w h dpr))) \<noteq> None"
    unfolding cloth_boot_AmmoLoads using an(7) b(4) by simp
  show "engineLog (snd (cloth_boot_resume L AmmoLoads dt (cloth_mount True w h dpr)))
           = [EnableAngularMotor True 0 50, StepSimulation dt 10]"
    unfolding cloth_boot_AmmoLoads using an(3) b(3,4,9,10)
    by (auto simp add: clothCalls_def)
  show "armMovement (snd (cloth_boot_resume L AmmoLoads dt (cloth_mount True w h dpr))) = 0"
    unfolding cloth_boot_AmmoLoads using an(10) b(10) by simp
qed

lemma engineReady_handlers:
  "engineReady (onScroll st) = engineReady st"
  "engineReady (onResize st) = engineReady st"
  "engineReady (cleanup st) = engineReady st"
  "engineReady (st\<lparr>scrollY := y\<rparr>) = engineReady st"
  "engineReady (st\<lparr>innerWidth := w, innerHeight := h\<rparr>) = engineReady st"
  "engineReady (st\<lparr>frameRequests := k\<rparr>) = engineReady st"
  "engineReady (st\<lparr>consoleErrors := es\<rparr>) = engineReady st"
  by (simp_all add: engineReady_def onScroll_def onResize_def cleanup_def curtainLinked_def
      curtainBuffers_def bufferLinked_def bodyLinked_def rodLinked_def split: option.splits)

lemma engineReady_animate:
  assumes "engineReady st" "keepsShape L"
  shows "fst (animate L dt st) = Inr ()" and "engineReady (snd (animate L dt st))"
proof -
  obtain w where w: "physicsWorld st = Some w" using assms(1) by (auto simp add: engineReady_def)
  have a: "AmmoLib st" and l: "curtainLinked 2 0 1 0 3 2 3 1 st" and r: "rodLinked 0 0 1 1 st"
    using assms(1) by (simp_all add: engineReady_def)
  have "fst (animate L dt st) = Inr () \<and> engineReady (snd (animate L dt st))"
  proof (cases "graphicsReady st")
    case True
    note an = animate_linked [OF True a w l r assms(2), where dt = dt]
    show ?thesis using an(1,3,4,5,6) by (simp add: engineReady_def)
  next
    case False
    then show ?thesis using assms(1) by (simp add: animate_not_ready)
  qed
  then show "fst (animate L dt st) = Inr ()" and "engineReady (snd (animate L dt st))"
    by simp_all
qed

lemma engineReady_dispatch:
  assumes "engineReady st" "keepsShape L"
  shows "engineReady (dispatch L ev st)"
proof (cases ev)
  case (Frame dt)
  let ?st = "st\<lparr>frameRequests := frameRequests st - 1\<rparr>"
  have e: "engineReady ?st" using assms(1) by (simp add: engineReady_handlers)
  note an = engineReady_animate [OF e assms(2), of dt]
  have "catchAndLog (animate L dt ?st) = snd (animate L dt ?st)"
    by (rule catchAndLog_ok [OF an(1)])
  then show ?thesis using Frame assms(1) an(2) by (simp add: dispatch_def)
qed (simp_all add: dispatch_def Let_def engineReady_handlers assms)

lemma engineReady_run:
  "engineReady st \<Longrightarrow> keepsShape L \<Longrightarrow> engineReady (run L evs st)"
  unfolding run_def
  by (induction evs arbitrary: st) (simp_all add: engineReady_dispatch)

lemma engineReady_built: "engineReady (built w h dpr y)"
  using built_facts [of w h dpr y] by (simp add: engineReady_def)

lemma engineReady_boot:
  assumes "keepsShape L"
  shows "engineReady (boot L AmmoLoads dt (mount True w h dpr y))"
proof -
  note an = engineReady_animate [OF engineReady_built assms, of dt w h dpr y]
  show ?thesis
    unfolding boot_AmmoLoads using catchAndLog_ok [OF an(1)] an(2) by simp
qed

lemma synced_post:
  assumes "a < length as" "n < length as" "a \<noteq> n"
    and "length (array (as ! a)) = 3 * length nodes"
  shows "length (array (synced L a n nodes as ! a)) = 3 * length nodes"
    and "i < length nodes \<Longrightarrow> triplet (array (synced L a n nodes as ! a)) i = m_x (nodes ! i)"
    and "array (synced L a n nodes as ! n)
           = computeVertexNormals L (PlaneGeometry a n) (array (synced L a n nodes as ! a))"
    and "needsUpdate (synced L a n nodes as ! a)"
    and "needsUpdate (synced L a n nodes as ! n)"
    and "k \<noteq> a \<and> k \<noteq> n \<longrightarrow> synced L a n nodes as ! k = as ! k"
proof -
  note f = synced_facts [OF assms(1,2,3), where L = L and nodes = nodes]
  show "length (array (synced L a n nodes as ! a)) = 3 * length nodes"
    by (simp add: f syncLoop_length assms(4))
  show "triplet (array (synced L a n nodes as ! a)) i = m_x (nodes ! i)" if "i < length nodes"
    using syncLoop_triplet [OF assms(4) that] by (simp add: f)
  show "array (synced L a n nodes as ! n)
           = computeVertexNormals L (PlaneGeometry a n) (array (synced L a n nodes as ! a))"
    by (simp add: f)
  show "needsUpdate (synced L a n nodes as ! a)" by (simp add: f)
  show "needsUpdate (synced L a n nodes as ! n)" by (simp add: f)
  show "k \<noteq> a \<and> k \<noteq> n \<longrightarrow> synced L a n nodes as ! k = as ! k" by (simp add: f)
qed

lemma others_keep_attrs:
  "attrs (moveRods t (st :: curtain_state)) = attrs st"
  "attrs (snd (applyAssist t sr sd st)) = attrs st"
  "attrs (onScroll st) = attrs st"
  "attrs (onResize st) = attrs st"
  "attrs (cleanup st) = attrs st"
  "attrs (snd (syncRigidBodies ms ct)) = attrs ct"
  "attrs (keydown code ct) = attrs ct"
  "attrs (keyup ct) = attrs ct"
  "attrs (cloth_onWindowResize ct) = attrs ct"
  "attrs (cloth_cleanup ct) = attrs ct"
  by (simp_all add: moveRods_unchanged applyAssist_unchanged onScroll_def onResize_def cleanup_def
      syncRigidBodies_unchanged keydown_def keyup_def cloth_onWindowResize_def cloth_cleanup_def
      Let_def split: option.splits)

lemma curtainAfter_buffers:
  assumes "outcome = NoAmmoGlobal \<or> outcome = AmmoLoads"
  shows "curtainBuffers 2 0 1 3 2 3 (curtainAfter L outcome dt w h dpr y evs)"
proof -
  have c: "container (mount True w h dpr y)" "\<not> AmmoLib (mount True w h dpr y)"
    "meshes (mount True w h dpr y) = []" "attrs (mount True w h dpr y) = []"
    by (simp_all add: mount_def)
  have "curtainBuffers 2 0 1 3 2 3 (boot L outcome dt (mount True w h dpr y))"
    using boot_CB [OF c(1,2) assms, of L dt] by (simp add: c numeral_2_eq_2 numeral_3_eq_3)
  then show ?thesis unfolding curtainAfter_def by (rule CB_run)
qed

lemma clothAfter_buffers: "clothBuffers 53 0 1 (clothAfter L dt w h dpr evs)"
proof -
  have "clothBuffers 53 0 1 (clothBuilt L w h dpr)"
    using clothBuilt_facts(1) [of L w h dpr] by (simp add: clothLinked_def)
  then have "clothBuffers 53 0 1 (snd (cloth_animate L dt (clothBuilt L w h dpr)))"
    by (rule KB_cloth_animate)
  then show ?thesis unfolding clothAfter_def cloth_boot_AmmoLoads by (rule KB_cloth_run)
qed

text \<open>
  C7. A plane geometry of \<open>gx\<close> by \<open>gy\<close> segments has a position buffer of
  \<open>(gx + 1) * (gy + 1) * 3\<close> numbers. Whatever the engine does and whatever events the page
  sends after the boot (frames, scrolls, resizes, keys, the unmount), the position buffer of
  each curtain has \<open>(segX + 1) * (segY + 1) * 3\<close> entries, with or without the engine, and the
  position buffer of the cloth has \<open>(clothNumSegmentsZ + 1) * (clothNumSegmentsY + 1) * 3\<close>.
\<close>

theorem buffer_length_fixed:
  "length (planeVertices pw ph gx gy) = (gx + 1) * (gy + 1) * 3
   \<and> length (vertexBuffer (leftPosAttr (curtainAfter L AmmoLoads dt w h dpr y evs))
               (curtainAfter L AmmoLoads dt w h dpr y evs)) = (segX + 1) * (segY + 1) * 3
   \<and> length (vertexBuffer (rightPosAttr (curtainAfter L AmmoLoads dt w h dpr y evs))
               (curtainAfter L AmmoLoads dt w h dpr y evs)) = (segX + 1) * (segY + 1) * 3
   \<and> length (vertexBuffer (leftPosAttr (curtainAfter L NoAmmoGlobal dt w h dpr y evs))
               (curtainAfter L NoAmmoGlobal dt w h dpr y evs)) = (segX + 1) * (segY + 1) * 3
   \<and> length (vertexBuffer (rightPosAttr (curtainAfter L NoAmmoGlobal dt w h dpr y evs))
               (curtainAfter L NoAmmoGlobal dt w h dpr y evs)) = (segX + 1) * (segY + 1) * 3
   \<and> length (vertexBuffer (clothPosAttr (clothAfter L dt w h dpr cevs))
               (clothAfter L dt w h dpr cevs))
       = (clothNumSegmentsZ + 1) * (clothNumSegmentsY + 1) * 3"
proof -
  have a: "curtainBuffers 2 0 1 3 2 3 (curtainAfter L AmmoLoads dt w h dpr y evs)"
    by (rule curtainAfter_buffers) simp
  have b: "curtainBuffers 2 0 1 3 2 3 (curtainAfter L NoAmmoGlobal dt w h dpr y evs)"
    by (rule curtainAfter_buffers) simp
  note c = clothAfter_buffers [of L dt w h dpr cevs]
  show ?thesis
    using a b c
    by (simp add: curtainBuffers_def clothBuffers_def vertexBuffer_def length_planeVertices)
qed

lemma curtainAfter_ready:
  "keepsShape L \<Longrightarrow> engineReady (curtainAfter L AmmoLoads dt w h dpr y evs)"
  unfolding curtainAfter_def by (rule engineReady_run [OF engineReady_boot])

lemma clothAfter_linked:
  assumes "keepsShape L"
  shows "clothLinked 53 0 1 0 (clothAfter L dt w h dpr evs)"
  unfolding clothAfter_def
  using linked_cloth_run [OF cloth_booted(2,3) [OF assms] assms] by simp

text \<open>
  C10. A patch created with a resolution of \<open>rx\<close> by \<open>ry\<close> has \<open>rx * ry\<close> nodes. With an
  engine whose step keeps the number of bodies and of their nodes, and whatever events the
  page sends after the boot: each curtain's soft body has \<open>(segX + 1) * (segY + 1)\<close> nodes and
  the cloth's has \<open>(clothNumSegmentsZ + 1) * (clothNumSegmentsY + 1)\<close>, the position buffer
  holds three numbers for each node, and the copy of the nodes ends without a read past the
  last node.
\<close>

theorem sync_reads_in_bounds:
  assumes "keepsShape L"
  shows
    "length (CreatePatch c00 c10 c01 c11 rx ry) = rx * ry
     \<and> length (patchNodes (leftCloth (curtainAfter L AmmoLoads dt w h dpr y evs))
                 (curtainAfter L AmmoLoads dt w h dpr y evs)) = (segX + 1) * (segY + 1)
     \<and> length (vertexBuffer (leftPosAttr (curtainAfter L AmmoLoads dt w h dpr y evs))
                 (curtainAfter L AmmoLoads dt w h dpr y evs))
         = 3 * length (patchNodes (leftCloth (curtainAfter L AmmoLoads dt w h dpr y evs))
                 (curtainAfter L AmmoLoads dt w h dpr y evs))
     \<and> fst (sync L (leftCloth (curtainAfter L AmmoLoads dt w h dpr y evs))
                 (leftPosAttr (curtainAfter L AmmoLoads dt w h dpr y evs))
                 (curtainAfter L AmmoLoads dt w h dpr y evs)) = Inr ()
     \<and> length (patchNodes (rightCloth (curtainAfter L AmmoLoads dt w h dpr y evs))
                 (curtainAfter L AmmoLoads dt w h dpr y evs)) = (segX + 1) * (segY + 1)
     \<and> length (vertexBuffer (rightPosAttr (curtainAfter L AmmoLoads dt w h dpr y evs))
                 (curtainAfter L AmmoLoads dt w h dpr y evs))
         = 3 * length (patchNodes (rightCloth (curtainAfter L AmmoLoads dt w h dpr y evs))
                 (curtainAfter L AmmoLoads dt w h dpr y evs))
     \<and> fst (sync L (rightCloth (curtainAfter L AmmoLoads dt w h dpr y evs))
                 (rightPosAttr (curtainAfter L AmmoLoads dt w h dpr y evs))
                 (curtainAfter L AmmoLoads dt w h dpr y evs)) = Inr ()
     \<and> length (patchNodes (cloth (clothAfter L dt w h dpr cevs)) (clothAfter L dt w h dpr cevs))
         = (clothNumSegmentsZ + 1) * (clothNumSegmentsY + 1)
     \<and> length (vertexBuffer (clothPosAttr (clothAfter L dt w h dpr cevs))
                 (clothAfter L dt w h dpr cevs))
         = 3 * length (patchNodes (cloth (clothAfter L dt w h dpr cevs))
                 (clothAfter L dt w h dpr cevs))
     \<and> fst (cloth_sync L (clothAfter L dt w h dpr cevs)) = Inr ()"
proof -
  let ?s = "curtainAfter L AmmoLoads dt w h dpr y evs"
  let ?c = "clothAfter L dt w h dpr cevs"
  have l: "curtainLinked 2 0 1 0 3 2 3 1 ?s"
    using curtainAfter_ready [OF assms, of dt w h dpr y evs] by (simp add: engineReady_def)
  have f: "leftCloth ?s = Some 2" "leftPosAttr ?s = Some 0"
    "rightCloth ?s = Some 3" "rightPosAttr ?s = Some 2"
    "physicsBody (meshes ?s ! 2) = Some 0" "physicsBody (meshes ?s ! 3) = Some 1"
    "length (array (attrs ?s ! 0)) = (segX + 1) * (segY + 1) * 3"
    "length (array (attrs ?s ! 2)) = (segX + 1) * (segY + 1) * 3"
    "length (array (attrs ?s ! 0)) = 3 * length (m_nodes (soft ?s ! 0))"
    "length (array (attrs ?s ! 2)) = 3 * length (m_nodes (soft ?s ! 1))"
    using l by (simp_all add: curtainLinked_def curtainBuffers_def bodyLinked_def)
  have n: "length (m_nodes (soft ?s ! 0)) = (segX + 1) * (segY + 1)"
    "length (m_nodes (soft ?s ! 1)) = (segX + 1) * (segY + 1)"
    using f(7,8,9,10) by simp_all
  have sl: "fst (sync L (Some 2) (Some 0) ?s) = Inr ()"
    by (rule sync_linked(1) [OF l]) simp
  have sr: "fst (sync L (Some 3) (Some 2) ?s) = Inr ()"
    by (rule sync_linked(1) [OF l]) simp
  have k: "clothLinked 53 0 1 0 ?c" by (rule clothAfter_linked [OF assms])
  have g: "cloth ?c = Some 53" "clothPosAttr ?c = Some 0"
    "physicsBody (meshes ?c ! 53) = Some 0"
    "length (array (attrs ?c ! 0)) = (clothNumSegmentsZ + 1) * (clothNumSegmentsY + 1) * 3"
    "length (array (attrs ?c ! 0)) = 3 * length (m_nodes (soft ?c ! 0))"
    using k by (simp_all add: clothLinked_def clothBuffers_def bodyLinked_def)
  have nc: "length (m_nodes (soft ?c ! 0)) = (clothNumSegmentsZ + 1) * (clothNumSegmentsY + 1)"
    using g(4,5) by simp
  have sc: "fst (cloth_sync L ?c) = Inr ()" by (rule cloth_sync_linked(1) [OF k])
  show ?thesis
    using sl sr sc n nc
    by (simp add: f g patchNodes_def vertexBuffer_def length_CreatePatch)
qed

theorem sync_reads_in_bounds_witness:
  "length (patchNodes (leftCloth (curtainAfter idle AmmoLoads (1 / 60) 1280 720 1 300
                                    [Frame (1 / 60), Scroll 450, Frame (1 / 60)]))
             (curtainAfter idle AmmoLoads (1 / 60) 1280 720 1 300
                [Frame (1 / 60), Scroll 450, Frame (1 / 60)])) = 2091
   \<and> fst (cloth_sync idle (clothAfter idle (1 / 60) 1280 720 1
             [ClothFrame (1 / 60), KeyPressed ''KeyQ'', ClothFrame (1 / 60)])) = Inr ()
   \<and> length (patchNodes
        (cloth (clothAfter idle (1 / 60) 1280 720 1
             [ClothFrame (1 / 60), KeyPressed ''KeyQ'', ClothFrame (1 / 60)]))
        (clothAfter idle (1 / 60) 1280 720 1
             [ClothFrame (1 / 60), KeyPressed ''KeyQ'', ClothFrame (1 / 60)])) = 336"
  using sync_reads_in_bounds [OF keepsShape_idle, where dt = "1 / 60" and w = 1280 and h = 720
      and dpr = 1 and y = 300 and evs = "[Frame (1 / 60), Scroll 450, Frame (1 / 60)]"
      and cevs = "[ClothFrame (1 / 60), KeyPressed ''KeyQ'', ClothFrame (1 / 60)]"]
  by (simp add: segX_def segY_def clothNumSegmentsZ_def clothNumSegmentsY_def clothWidth_def
      clothHeight_def)

lemma clothRunning_frame:
  assumes "clothRunning st" "keepsShape L"
  shows "clothRunning (cloth_dispatch L (ClothFrame dt) st)"
    and "framesShown (cloth_dispatch L (ClothFrame dt) st) = framesShown st + 1"
proof -
  let ?st = "st\<lparr>frameRequests := frameRequests st - 1\<rparr>"
  let ?r = "cloth_animate L dt ?st"
  obtain r where r: "renderer st = Some r" using assms(1) by (auto simp add: clothRunning_def)
  have l: "clothLinked 53 0 1 0 ?st" and ok: "bodiesOk ?st"
    using assms(1) by (simp_all add: clothRunning_def linked_cloth_handlers bodiesOk_cloth_handlers)
  have r': "renderer ?st = Some r" using r by simp
  note an = cloth_animate_linked [OF l ok assms(2), where dt = dt]
  note f = an(8) [OF r']
  have d: "cloth_dispatch L (ClothFrame dt) st = snd ?r"
    using assms(1) catchAndLog_ok [of ?r "()"] f
    by (simp add: cloth_dispatch_def clothRunning_def)
  show "clothRunning (cloth_dispatch L (ClothFrame dt) st)"
    unfolding d using an(1,2,4,5) f assms(1) by (simp add: clothRunning_def)
  show "framesShown (cloth_dispatch L (ClothFrame dt) st) = framesShown st + 1"
    unfolding d using f r by (simp add: framesShown_def render_def)
qed

lemma clothRunning_frames:
  assumes "keepsShape L"
  shows "clothRunning st \<Longrightarrow>
    clothRunning (cloth_run L (replicate k (ClothFrame dt)) st)
    \<and> framesShown (cloth_run L (replicate k (ClothFrame dt)) st) = framesShown st + k"
proof (induction k arbitrary: st)
  case 0
  then show ?case by (simp add: cloth_run_def)
next
  case (Suc k)
  note f = clothRunning_frame [OF Suc.prems assms, of dt]
  have "cloth_run L (replicate (Suc k) (ClothFrame dt)) st
          = cloth_run L (replicate k (ClothFrame dt)) (cloth_dispatch L (ClothFrame dt) st)"
    by (simp add: cloth_run_def)
  then show ?case using Suc.IH [OF f(1)] f(2) by simp
qed

text \<open>
  C9 (what the code does). The cloth scene is unmounted while the engine's script is still
  loading. The cleanup finds no renderer and no listener of its own. When the loading ends,
  the scene is built all the same: the three listeners are registered, the first frame is
  presented and it requests the next one, and so does every later frame: after \<open>k\<close> more
  frames a frame is still requested, \<open>k + 1\<close> frames were presented, and the listeners are
  still registered. When the scene is unmounted after its first frame instead, the listeners
  are removed, and the frame that was requested steps the engine and then fails at the null
  renderer: it requests no successor, and the error reaches the console.
\<close>

theorem cloth_unmount_while_loading:
  assumes "keepsShape L"
  shows
    "listeners (cloth_run L (replicate k (ClothFrame dt))
        (snd (cloth_boot_resume L AmmoLoads dt (cloth_cleanup (cloth_mount True w h dpr)))))
       = [(''resize'', OnWindowResize), (''keydown'', Keydown), (''keyup'', Keyup)]
     \<and> frameRequests (cloth_run L (replicate k (ClothFrame dt))
        (snd (cloth_boot_resume L AmmoLoads dt (cloth_cleanup (cloth_mount True w h dpr))))) = 1
     \<and> framesShown (cloth_run L (replicate k (ClothFrame dt))
        (snd (cloth_boot_resume L AmmoLoads dt (cloth_cleanup (cloth_mount True w h dpr))))) = k + 1
     \<and> listeners (cloth_dispatch L (ClothFrame dt)
          (cloth_cleanup (clothAfter L dt w h dpr []))) = []
     \<and> frameRequests (cloth_dispatch L (ClothFrame dt)
          (cloth_cleanup (clothAfter L dt w h dpr []))) = 0
     \<and> framesShown (cloth_dispatch L (ClothFrame dt)
          (cloth_cleanup (clothAfter L dt w h dpr []))) = 0
     \<and> consoleErrors (cloth_dispatch L (ClothFrame dt)
          (cloth_cleanup (clothAfter L dt w h dpr []))) = [TypeError]
     \<and> engineLog (cloth_dispatch L (ClothFrame dt)
          (cloth_cleanup (clothAfter L dt w h dpr [])))
         = [EnableAngularMotor True 0 50, StepSimulation dt 10,
            EnableAngularMotor True 0 50, StepSimulation dt 10]"
proof -
  let ?b = "snd (cloth_boot_resume L AmmoLoads dt (cloth_mount True w h dpr))"
  note bt = cloth_booted [OF assms, of dt w h dpr]
  have rn: "renderer ?b \<noteq> None"
    using bt(7) by (auto simp add: framesShown_def split: option.splits)
  have run: "clothRunning ?b" using bt(2,3,4,5,6) rn by (simp add: clothRunning_def)
  note fr = clothRunning_frames [OF assms run, of k dt]
  have first: "listeners (cloth_run L (replicate k (ClothFrame dt)) ?b)
       = [(''resize'', OnWindowResize), (''keydown'', Keydown), (''keyup'', Keyup)]
     \<and> frameRequests (cloth_run L (replicate k (ClothFrame dt)) ?b) = 1
     \<and> framesShown (cloth_run L (replicate k (ClothFrame dt)) ?b) = k + 1"
    using fr bt(7) by (simp add: clothRunning_def)
  let ?c = "cloth_cleanup ?b"
  let ?st = "?c\<lparr>frameRequests := frameRequests ?c - 1\<rparr>"
  let ?r = "cloth_animate L dt ?st"
  have c: "listeners ?c = []" "renderer ?c = None" "frameRequests ?c = 1"
    "consoleErrors ?c = []" "hinge ?c" "physicsWorld ?c \<noteq> None"
    "engineLog ?c = [EnableAngularMotor True 0 50, StepSimulation dt 10]" "armMovement ?c = 0"
    using bt by (simp_all add: cloth_cleanup_def removeEventListener_def)
  have l: "clothLinked 53 0 1 0 ?st" and ok: "bodiesOk ?st"
    using bt(2,3) by (simp_all add: linked_cloth_handlers bodiesOk_cloth_handlers)
  note an = cloth_animate_linked [OF l ok assms, where dt = dt]
  have rn': "renderer ?st = None" using c(2) by simp
  note f = an(9) [OF rn']
  have d: "cloth_dispatch L (ClothFrame dt) ?c
             = (snd ?r)\<lparr>consoleErrors := consoleErrors (snd ?r) @ [TypeError]\<rparr>"
    using c(3) catchAndLog_err [of ?r TypeError] f by (simp add: cloth_dispatch_def)
  have calls: "clothCalls dt ?st = [EnableAngularMotor True 0 50, StepSimulation dt 10]"
    using c(5,6,8) by (auto simp add: clothCalls_def)
  have second: "listeners (cloth_dispatch L (ClothFrame dt) ?c) = []
     \<and> frameRequests (cloth_dispatch L (ClothFrame dt) ?c) = 0
     \<and> framesShown (cloth_dispatch L (ClothFrame dt) ?c) = 0
     \<and> consoleErrors (cloth_dispatch L (ClothFrame dt) ?c) = [TypeError]
     \<and> engineLog (cloth_dispatch L (ClothFrame dt) ?c)
         = [EnableAngularMotor True 0 50, StepSimulation dt 10,
            EnableAngularMotor True 0 50, StepSimulation dt 10]"
    unfolding d using an(3,4,5) f c calls by (simp add: framesShown_def)
  show ?thesis
    using first second by (simp add: cloth_cleanup_mount clothAfter_def cloth_run_def)
qed

theorem cloth_unmount_while_loading_witness:
  "frameRequests (cloth_run idle (replicate 3 (ClothFrame (1 / 60)))
      (snd (cloth_boot_resume idle AmmoLoads (1 / 60)
              (cloth_cleanup (cloth_mount True 1280 720 1))))) = 1
   \<and> framesShown (cloth_run idle (replicate 3 (ClothFrame (1 / 60)))
      (snd (cloth_boot_resume idle AmmoLoads (1 / 60)
              (cloth_cleanup (cloth_mount True 1280 720 1))))) = 4
   \<and> consoleErrors (cloth_dispatch idle (ClothFrame (1 / 60))
          (cloth_cleanup (clothAfter idle (1 / 60) 1280 720 1 []))) = [TypeError]"
  using cloth_unmount_while_loading [OF keepsShape_idle, where k = 3 and dt = "1 / 60"
      and w = 1280 and h = 720 and dpr = 1]
  by simp

text \<open>
  The curtain scene, for comparison: its cleanup removes both listeners; a frame that runs
  afterwards returns at once and requests nothing; and a boot that resumes after the cleanup
  stops at \<^verbatim>\<open>assertReady\<close>, where the error is caught and logged.
\<close>

lemma curtain_disposal:
  "(''resize'', OnResize) \<notin> set (listeners (cleanup st))"
  "(''scroll'', OnScroll) \<notin> set (listeners (cleanup st))"
  "animate L dt (cleanup st) = (Inr (), cleanup st)"
  "frameRequests (dispatch L (Frame dt) (cleanup st)) = frameRequests st - 1"
  "framesShown (dispatch L (Frame dt) (cleanup st)) = 0"
  "engineLog (dispatch L (Frame dt) (cleanup st)) = engineLog st"
  "frameRequests (boot_resume L outcome dt (cleanup (boot_begin (mount True w h dpr y)))) = 0"
  "listeners (boot_resume L outcome dt (cleanup (boot_begin (mount True w h dpr y)))) = []"
  "framesShown (boot_resume L outcome dt (cleanup (boot_begin (mount True w h dpr y)))) = 0"
proof -
  have nr: "\<not> graphicsReady (cleanup st)" "\<not> graphicsReady ((cleanup st)\<lparr>frameRequests := k\<rparr>)" for k
    by (simp_all add: graphicsReady_def cleanup_def)
  show "(''resize'', OnResize) \<notin> set (listeners (cleanup st))"
    "(''scroll'', OnScroll) \<notin> set (listeners (cleanup st))"
    by (simp_all add: cleanup_def removeEventListener_def)
  show "animate L dt (cleanup st) = (Inr (), cleanup st)"
    by (rule animate_not_ready [OF nr(1)])
  have d: "dispatch L (Frame dt) (cleanup st) =
      (if frameRequests (cleanup st) = 0 then cleanup st
       else (cleanup st)\<lparr>frameRequests := frameRequests (cleanup st) - 1\<rparr>)"
    by (simp add: dispatch_def animate_not_ready [OF nr(2)] catchAndLog_def)
  show "frameRequests (dispatch L (Frame dt) (cleanup st)) = frameRequests st - 1"
    unfolding d by (simp add: cleanup_def)
  show "framesShown (dispatch L (Frame dt) (cleanup st)) = 0"
    unfolding d by (simp add: cleanup_def framesShown_def)
  show "engineLog (dispatch L (Frame dt) (cleanup st)) = engineLog st"
    unfolding d by (simp add: cleanup_def)
  let ?c = "cleanup (boot_begin (mount True w h dpr y))"
  have a: "assertReady s = (Inl GraphicsNotReady, s)" if "scene s = None" for s
    using that by (simp add: assertReady_def)
  have cc: "createCurtains s = (Inl GraphicsNotReady, s)" if "scene s = None" for s
    using a [OF that] by (simp add: createCurtains_def andThen_def)
  have s: "scene ?c = None" "scene (initPhysics (?c\<lparr>AmmoLib := True\<rparr>)) = None"
    by (simp_all add: cleanup_def initPhysics_def)
  have br: "\<exists>e s. boot_resume L outcome dt ?c = s\<lparr>consoleErrors := consoleErrors s @ [e]\<rparr>
      \<and> (s = ?c \<or> s = initPhysics (?c\<lparr>AmmoLib := True\<rparr>))"
    by (cases outcome)
      (simp_all add: boot_resume_def andThen_def cc [OF s(1)] cc [OF s(2)] catchAndLog_def,
        blast+)
  have f: "frameRequests ?c = 0" "listeners ?c = []" "renderer ?c = None"
    by (simp_all add: cleanup_def boot_begin_def initGraphics_def mount_def
        removeEventListener_def addEventListener_def)
  have "frameRequests (boot_resume L outcome dt ?c) = 0
      \<and> listeners (boot_resume L outcome dt ?c) = []
      \<and> framesShown (boot_resume L outcome dt ?c) = 0"
    using br f by (auto simp add: initPhysics_def framesShown_def)
  then show
    "frameRequests (boot_resume L outcome dt (cleanup (boot_begin (mount True w h dpr y)))) = 0"
    "listeners (boot_resume L outcome dt (cleanup (boot_begin (mount True w h dpr y)))) = []"
    "framesShown (boot_resume L outcome dt (cleanup (boot_begin (mount True w h dpr y)))) = 0"
    by simp_all
qed

lemma keepsShape_stir: "keepsShape stir"
  by (simp add: keepsShape_def stir_def nodeCounts_def comp_def)









lemma positions_nth:
  "positions ss' = positions ss \<Longrightarrow> k < length ss \<Longrightarrow>
   map m_x (m_nodes (ss' ! k)) = map m_x (m_nodes (ss ! k))"
proof -
  assume e: "positions ss' = positions ss" and k: "k < length ss"
  have l: "length ss' = length ss" using arg_cong [OF e, of length] by (simp add: positions_def)
  have "positions ss' ! k = positions ss ! k" by (simp only: e)
  then show ?thesis using k l by (simp add: positions_def)
qed

lemma map_update_same:
  "f y = f (xs ! k) \<Longrightarrow> map f (xs[k := y]) = map f xs"
  by (cases "k < length xs") (simp_all add: map_update list_update_beyond list_update_same_conv)

lemma addForce_positions [simp]:
  "positions (soft (addForce s idx force st)) = positions (soft st)"
  by (simp add: addForce_def Let_def positions_def map_update_same)

lemma addForces_positions [simp]:
  "positions (soft (snd (addForces s force idxs st))) = positions (soft st)"
  by (induction idxs arbitrary: st) simp_all

lemma applyAssist_positions [simp]:
  "positions (soft (snd (applyAssist t sr sd st))) = positions (soft st)"
  by (cases sr) (simp_all add: applyAssist_def Let_def)

text \<open>The attributes after both patches were copied, the left one first.\<close>

lemma assistAndSync_attrs:
  assumes "curtainLinked lc la lno ls rc ra rno rs st"
  shows "\<exists>nl nr.
           map m_x nl = map m_x (m_nodes (soft st ! ls))
           \<and> map m_x nr = map m_x (m_nodes (soft st ! rs))
           \<and> map m_x (m_nodes (soft (snd (assistAndSync L t st)) ! ls)) = map m_x nl
           \<and> map m_x (m_nodes (soft (snd (assistAndSync L t st)) ! rs)) = map m_x nr
           \<and> attrs (snd (assistAndSync L t st))
               = synced L ra rno nr (synced L la lno nl (attrs st))"
proof -
  define st2 where "st2 = snd (applyAssist t (Some ls) SideLeft st)"
  define st3 where "st3 = snd (applyAssist t (Some rs) SideRight st2)"
  define st4 where "st4 = snd (sync L (Some lc) (Some la) st3)"
  define st5 where "st5 = snd (sync L (Some rc) (Some ra) st4)"
  note a1 = applyAssist_linked [OF assms, of ls SideLeft t, simplified, folded st2_def]
  note a2 = applyAssist_linked [OF a1(2), of rs SideRight t, simplified, folded st3_def]
  note s1 = sync_linked [OF a2(2), of lc la L, simplified, folded st4_def]
  note s2 = sync_linked [OF s1(2), of rc ra L, simplified, folded st5_def]
  note n1 = curtainLinked_nodes [OF assms]
  note n2 = curtainLinked_nodes [OF a1(2)]
  note n3 = curtainLinked_nodes [OF a2(2)]
  note n4 = curtainLinked_nodes [OF s1(2)]
  have r1: "applyAssist t (Some ls) SideLeft st = (Inr (), st2)"
    using a1(1) by (simp add: st2_def prod_eq_iff)
  have r2: "applyAssist t (Some rs) SideRight st2 = (Inr (), st3)"
    using a2(1) by (simp add: st3_def prod_eq_iff)
  have r3: "sync L (Some lc) (Some la) st3 = (Inr (), st4)"
    using s1(1) by (simp add: st4_def prod_eq_iff)
  have r4: "sync L (Some rc) (Some ra) st4 = (Inr (), st5)"
    using s2(1) by (simp add: st5_def prod_eq_iff)
  have eq: "assistAndSync L t st = (Inr (), st5)"
    using n1 n2 n3 n4 r1 r2 r3 r4
    by (simp add: assistAndSync_def tinyAssistForce_def)
  have l3: "bufferLinked lc la lno st3" "bodyLinked lc la ls st3"
    using a2(2) by (simp_all add: curtainLinked_def curtainBuffers_def)
  have l4: "bufferLinked rc ra rno st4" "bodyLinked rc ra rs st4"
    using s1(2) by (simp_all add: curtainLinked_def curtainBuffers_def)
  have e4: "st4 = st3\<lparr>attrs := synced L la lno (m_nodes (soft st3 ! ls)) (attrs st3)\<rparr>"
    unfolding st4_def sync_eq [OF l3] by simp
  have e5: "st5 = st4\<lparr>attrs := synced L ra rno (m_nodes (soft st4 ! rs)) (attrs st4)\<rparr>"
    unfolding st5_def sync_eq [OF l4] by simp
  have at3: "attrs st3 = attrs st" by (simp add: st3_def st2_def applyAssist_unchanged)
  have p3: "positions (soft st3) = positions (soft st)" by (simp add: st3_def st2_def)
  have s4: "soft st4 = soft st3" by (subst e4) simp
  have s5: "soft st5 = soft st3" by (subst e5) (simp add: s4)
  have a5: "attrs st5 = synced L ra rno (m_nodes (soft st3 ! rs))
                          (synced L la lno (m_nodes (soft st3 ! ls)) (attrs st))"
    by (subst e5, subst (1 2) e4) (simp add: s4 at3)
  have "map m_x (m_nodes (soft st3 ! ls)) = map m_x (m_nodes (soft st ! ls))"
    "map m_x (m_nodes (soft st3 ! rs)) = map m_x (m_nodes (soft st ! rs))"
    using positions_nth [OF p3] n1(3,4) by simp_all
  then show ?thesis
    using eq a5 s5
    by (intro exI [where x = "m_nodes (soft st3 ! ls)"] exI [where x = "m_nodes (soft st3 ! rs)"])
      simp
qed

lemma double_synced:
  assumes "la < length as" "lno < length as" "ra < length as" "rno < length as"
    and "la \<noteq> lno" "ra \<noteq> rno" "la \<noteq> ra" "la \<noteq> rno" "lno \<noteq> ra" "lno \<noteq> rno"
    and "length (array (as ! la)) = 3 * length nl" "length (array (as ! ra)) = 3 * length nr"
  shows "length (array (synced L ra rno nr (synced L la lno nl as) ! la)) = 3 * length nl"
    and "length (array (synced L ra rno nr (synced L la lno nl as) ! ra)) = 3 * length nr"
    and "i < length nl \<Longrightarrow>
           triplet (array (synced L ra rno nr (synced L la lno nl as) ! la)) i = m_x (nl ! i)"
    and "j < length nr \<Longrightarrow>
           triplet (array (synced L ra rno nr (synced L la lno nl as) ! ra)) j = m_x (nr ! j)"
    and "array (synced L ra rno nr (synced L la lno nl as) ! lno)
           = computeVertexNormals L (PlaneGeometry la lno)
               (array (synced L ra rno nr (synced L la lno nl as) ! la))"
    and "array (synced L ra rno nr (synced L la lno nl as) ! rno)
           = computeVertexNormals L (PlaneGeometry ra rno)
               (array (synced L ra rno nr (synced L la lno nl as) ! ra))"
    and "needsUpdate (synced L ra rno nr (synced L la lno nl as) ! la)"
    and "needsUpdate (synced L ra rno nr (synced L la lno nl as) ! lno)"
    and "needsUpdate (synced L ra rno nr (synced L la lno nl as) ! ra)"
    and "needsUpdate (synced L ra rno nr (synced L la lno nl as) ! rno)"
    and "k \<noteq> la \<Longrightarrow> k \<noteq> lno \<Longrightarrow> k \<noteq> ra \<Longrightarrow> k \<noteq> rno \<Longrightarrow>
           synced L ra rno nr (synced L la lno nl as) ! k = as ! k"
proof -
  let ?A = "synced L la lno nl as"
  note f1 = synced_facts [OF assms(1,2,5), where L = L and nodes = nl]
  note p1 = synced_post [OF assms(1,2,5,11), where L = L]
  have b: "ra < length ?A" "rno < length ?A" using assms(3,4) by (simp_all add: f1(1))
  have keepR: "?A ! ra = as ! ra" using f1(4) [of ra] assms(7,9) by simp
  have lenR: "length (array (?A ! ra)) = 3 * length nr" using assms(12) by (simp add: keepR)
  note f2 = synced_facts [OF b assms(6), where L = L and nodes = nr]
  note p2 = synced_post [OF b assms(6) lenR, where L = L]
  have keepL: "synced L ra rno nr ?A ! la = ?A ! la" "synced L ra rno nr ?A ! lno = ?A ! lno"
    using f2(4) [of la] f2(4) [of lno] assms(7,8,9,10) by simp_all
  show "length (array (synced L ra rno nr ?A ! la)) = 3 * length nl"
    using p1(1) by (simp add: keepL)
  show "length (array (synced L ra rno nr ?A ! ra)) = 3 * length nr" by (rule p2(1))
  show "triplet (array (synced L ra rno nr ?A ! la)) i = m_x (nl ! i)" if "i < length nl"
    using p1(2) [OF that] by (simp add: keepL)
  show "triplet (array (synced L ra rno nr ?A ! ra)) j = m_x (nr ! j)" if "j < length nr"
    by (rule p2(2) [OF that])
  show "array (synced L ra rno nr ?A ! lno)
           = computeVertexNormals L (PlaneGeometry la lno) (array (synced L ra rno nr ?A ! la))"
    using p1(3) by (simp add: keepL)
  show "array (synced L ra rno nr ?A ! rno)
           = computeVertexNormals L (PlaneGeometry ra rno) (array (synced L ra rno nr ?A ! ra))"
    by (rule p2(3))
  show "needsUpdate (synced L ra rno nr ?A ! la)" using p1(4) by (simp add: keepL)
  show "needsUpdate (synced L ra rno nr ?A ! lno)" using p1(5) by (simp add: keepL)
  show "needsUpdate (synced L ra rno nr ?A ! ra)" by (rule p2(4))
  show "needsUpdate (synced L ra rno nr ?A ! rno)" by (rule p2(5))
  show "synced L ra rno nr ?A ! k = as ! k"
    if "k \<noteq> la" "k \<noteq> lno" "k \<noteq> ra" "k \<noteq> rno"
    using f2(4) [of k] f1(4) [of k] that by simp
qed

lemma animate_stores:
  assumes "graphicsReady st" "AmmoLib st" "physicsWorld st = Some w"
  shows "attrs (snd (animate L dt st)) =
           attrs (snd (assistAndSync L (easeOutCubic (scrollProgress st))
             ((moveRods (easeOutCubic (scrollProgress st)) st)
                \<lparr>rigid := fst (stepSimulation L dt 10 w
                     (rigid (moveRods (easeOutCubic (scrollProgress st)) st),
                      soft (moveRods (easeOutCubic (scrollProgress st)) st))),
                 soft := snd (stepSimulation L dt 10 w
                     (rigid (moveRods (easeOutCubic (scrollProgress st)) st),
                      soft (moveRods (easeOutCubic (scrollProgress st)) st))),
                 engineLog := engineLog (moveRods (easeOutCubic (scrollProgress st)) st)
                                @ [StepSimulation dt 10]\<rparr>)))"
    and "soft (snd (animate L dt st)) =
           soft (snd (assistAndSync L (easeOutCubic (scrollProgress st))
             ((moveRods (easeOutCubic (scrollProgress st)) st)
                \<lparr>rigid := fst (stepSimulation L dt 10 w
                     (rigid (moveRods (easeOutCubic (scrollProgress st)) st),
                      soft (moveRods (easeOutCubic (scrollProgress st)) st))),
                 soft := snd (stepSimulation L dt 10 w
                     (rigid (moveRods (easeOutCubic (scrollProgress st)) st),
                      soft (moveRods (easeOutCubic (scrollProgress st)) st))),
                 engineLog := engineLog (moveRods (easeOutCubic (scrollProgress st)) st)
                                @ [StepSimulation dt 10]\<rparr>)))"
proof -
  let ?t = "easeOutCubic (scrollProgress st)"
  let ?m = "moveRods ?t st"
  let ?r = "stepAndSync L dt ?t ?m"
  obtain rd where rd: "renderer st = Some rd" using assms(1) by (auto simp add: graphicsReady_def)
  have pm: "physicsWorld ?m = Some w" "AmmoLib ?m"
    using storesOnly_scene [OF storesOnly_moveRods, of ?t st] assms(2,3) by simp_all
  have "attrs (snd (animate L dt st)) = attrs (snd ?r)
      \<and> soft (snd (animate L dt st)) = soft (snd ?r)"
  proof (cases "fst ?r")
    case (Inl e)
    then show ?thesis using animate_throw [OF assms(1) Inl] by simp
  next
    case (Inr u)
    then show ?thesis using animate_done [OF assms(1) rd, of L dt] by simp
  qed
  then show "attrs (snd (animate L dt st)) =
           attrs (snd (assistAndSync L ?t
             (?m\<lparr>rigid := fst (stepSimulation L dt 10 w (rigid ?m, soft ?m)),
                 soft := snd (stepSimulation L dt 10 w (rigid ?m, soft ?m)),
                 engineLog := engineLog ?m @ [StepSimulation dt 10]\<rparr>)))"
    and "soft (snd (animate L dt st)) =
           soft (snd (assistAndSync L ?t
             (?m\<lparr>rigid := fst (stepSimulation L dt 10 w (rigid ?m, soft ?m)),
                 soft := snd (stepSimulation L dt 10 w (rigid ?m, soft ?m)),
                 engineLog := engineLog ?m @ [StepSimulation dt 10]\<rparr>)))"
    using pm by (simp_all add: stepAndSync_def Let_def)
qed

lemma cloth_animate_stores:
  assumes "clothLinked m a n sb ct" "keepsShape L" "physicsWorld ct = Some w"
  shows "attrs (snd (cloth_animate L dt ct)) =
           synced L a n (m_nodes (snd (stepSimulation L dt 10 w (rigid ct, soft ct)) ! sb))
             (attrs ct)"
    and "soft (snd (cloth_animate L dt ct)) = snd (stepSimulation L dt 10 w (rigid ct, soft ct))"
proof -
  let ?X = "synced L a n (m_nodes (snd (stepSimulation L dt 10 w (rigid ct, soft ct)) ! sb))
             (attrs ct)"
  let ?Y = "snd (stepSimulation L dt 10 w (rigid ct, soft ct))"
  let ?P = "\<lambda>s. attrs s = ?X \<and> soft s = ?Y"
  let ?st0 = "if hinge ct
             then ct\<lparr>engineLog := engineLog ct @ [EnableAngularMotor True (0.8 * armMovement ct) 50]\<rparr>
             else ct"
  let ?st1 = "?st0\<lparr>rigid := fst (stepSimulation L dt 10 w (rigid ?st0, soft ?st0)),
                  soft := snd (stepSimulation L dt 10 w (rigid ?st0, soft ?st0)),
                  engineLog := engineLog ?st0 @ [StepSimulation dt 10]\<rparr>"
  have l0: "clothLinked m a n sb ?st0"
    using assms(1)
    by (simp add: clothLinked_def clothBuffers_def bufferLinked_def bodyLinked_def)
  have l1: "clothLinked m a n sb ?st1" by (rule cloth_step_linked [OF l0 assms(2)])
  have c: "cloth ?st1 = Some m" "clothPosAttr ?st1 = Some a" "clothNormAttr ?st1 = Some n"
    "bufferLinked m a n ?st1" "bodyLinked m a sb ?st1"
    using l1 by (simp_all add: clothLinked_def clothBuffers_def)
  note eq = cloth_sync_eq [OF c, of L]
  have v: "attrs ?st1 = attrs ct" "soft ?st1 = ?Y" by simp_all
  have s: "?P (snd (cloth_sync L ?st1))" unfolding eq by (simp add: v)
  have ss: "?P (snd (cloth_stepAndSync L dt ?st0))"
  proof -
    have "?P (snd (andThen (cloth_sync L ?st1) (\<lambda>u st. syncRigidBodies (rigidBodies st) st)))"
      by (rule andThen_keeps [where P = ?P], rule s) (simp add: syncRigidBodies_unchanged)
    moreover have "physicsWorld ?st0 = Some w" using assms(3) by simp
    ultimately show ?thesis by (simp add: cloth_stepAndSync_def Let_def)
  qed
  have "?P (snd (cloth_animate L dt ct))"
    unfolding cloth_animate_def Let_def
    by (rule andThen_keeps [where P = ?P], rule ss) (simp split: option.splits)
  then show "attrs (snd (cloth_animate L dt ct)) = ?X"
    and "soft (snd (cloth_animate L dt ct)) = ?Y" by simp_all
qed

text \<open>
  C2. A frame of the curtain scene that finds the graphics ready and the engine loaded copies,
  for each of the two patches, the position the step of this frame gave to every node \<open>i\<close>
  into the triplet \<open>i\<close> of the patch's own position buffer (entries \<open>3i\<close>, \<open>3i + 1\<close>,
  \<open>3i + 2\<close>); the triplets cover the buffer; the assist forces added in between move no
  node; the normals are then computed from the copied positions, and both attributes are
  marked for upload. A frame of the cloth scene does the same for the cloth, whether or not
  it can present the frame. A frame leaves every other attribute alone, and no other step of
  a frame and no handler writes any attribute: the moves of the rods, the assist forces, the
  scroll and resize handlers, the cleanup, the poses of the rigid bodies, the key handlers.
  The engine's step is assumed to keep the number of bodies and of their nodes.
\<close>

theorem frame_copies_nodes:
  assumes "graphicsReady st" and "AmmoLib st" and "physicsWorld st = Some w"
    and "curtainLinked lc la lno ls rc ra rno rs st"
    and "clothLinked cm ca cn cs ct" and "physicsWorld ct = Some cw"
    and "keepsShape L"
    and "i < length (m_nodes (soft st ! ls))" and "i' < length (m_nodes (soft st ! rs))"
    and "j < length (m_nodes (soft ct ! cs))"
  shows
    "(fst (animate L dt st) = Inr ()
      \<and> triplet (array (attrs (snd (animate L dt st)) ! la)) i
          = m_x (steppedNodes L dt w ls (moveRods (easeOutCubic (scrollProgress st)) st) ! i)
      \<and> triplet (array (attrs (snd (animate L dt st)) ! la)) i
          = m_x (m_nodes (soft (snd (animate L dt st)) ! ls) ! i)
      \<and> length (array (attrs (snd (animate L dt st)) ! la))
          = 3 * length (steppedNodes L dt w ls (moveRods (easeOutCubic (scrollProgress st)) st))
      \<and> array (attrs (snd (animate L dt st)) ! lno)
          = computeVertexNormals L (PlaneGeometry la lno)
              (array (attrs (snd (animate L dt st)) ! la))
      \<and> needsUpdate (attrs (snd (animate L dt st)) ! la)
      \<and> needsUpdate (attrs (snd (animate L dt st)) ! lno)
      \<and> triplet (array (attrs (snd (animate L dt st)) ! ra)) i'
          = m_x (steppedNodes L dt w rs (moveRods (easeOutCubic (scrollProgress st)) st) ! i')
      \<and> triplet (array (attrs (snd (animate L dt st)) ! ra)) i'
          = m_x (m_nodes (soft (snd (animate L dt st)) ! rs) ! i')
      \<and> length (array (attrs (snd (animate L dt st)) ! ra))
          = 3 * length (steppedNodes L dt w rs (moveRods (easeOutCubic (scrollProgress st)) st))
      \<and> array (attrs (snd (animate L dt st)) ! rno)
          = computeVertexNormals L (PlaneGeometry ra rno)
              (array (attrs (snd (animate L dt st)) ! ra))
      \<and> needsUpdate (attrs (snd (animate L dt st)) ! ra)
      \<and> needsUpdate (attrs (snd (animate L dt st)) ! rno)
      \<and> (k \<noteq> la \<and> k \<noteq> lno \<and> k \<noteq> ra \<and> k \<noteq> rno
           \<longrightarrow> attrs (snd (animate L dt st)) ! k = attrs st ! k))
     \<and> (triplet (array (attrs (snd (cloth_animate L dt ct)) ! ca)) j
          = m_x (steppedNodes L dt cw cs ct ! j)
      \<and> triplet (array (attrs (snd (cloth_animate L dt ct)) ! ca)) j
          = m_x (m_nodes (soft (snd (cloth_animate L dt ct)) ! cs) ! j)
      \<and> length (array (attrs (snd (cloth_animate L dt ct)) ! ca))
          = 3 * length (steppedNodes L dt cw cs ct)
      \<and> array (attrs (snd (cloth_animate L dt ct)) ! cn)
          = computeVertexNormals L (PlaneGeometry ca cn)
              (array (attrs (snd (cloth_animate L dt ct)) ! ca))
      \<and> needsUpdate (attrs (snd (cloth_animate L dt ct)) ! ca)
      \<and> needsUpdate (attrs (snd (cloth_animate L dt ct)) ! cn)
      \<and> (k \<noteq> ca \<and> k \<noteq> cn \<longrightarrow> attrs (snd (cloth_animate L dt ct)) ! k = attrs ct ! k))
     \<and> (attrs (moveRods t st) = attrs st
      \<and> attrs (snd (applyAssist t sr sd st)) = attrs st
      \<and> attrs (onScroll st) = attrs st
      \<and> attrs (onResize st) = attrs st
      \<and> attrs (cleanup st) = attrs st
      \<and> attrs (snd (syncRigidBodies ms ct)) = attrs ct
      \<and> attrs (keydown code ct) = attrs ct
      \<and> attrs (keyup ct) = attrs ct
      \<and> attrs (cloth_onWindowResize ct) = attrs ct
      \<and> attrs (cloth_cleanup ct) = attrs ct)"
proof (intro conjI)
  let ?t = "easeOutCubic (scrollProgress st)"
  let ?m = "moveRods ?t st"
  let ?m1 = "?m\<lparr>rigid := fst (stepSimulation L dt 10 w (rigid ?m, soft ?m)),
                 soft := snd (stepSimulation L dt 10 w (rigid ?m, soft ?m)),
                 engineLog := engineLog ?m @ [StepSimulation dt 10]\<rparr>"
  let ?s = "snd (animate L dt st)"
  obtain rd where rd: "renderer st = Some rd" using assms(1) by (auto simp add: graphicsReady_def)
  have pm: "physicsWorld ?m = Some w" "AmmoLib ?m"
    using storesOnly_scene [OF storesOnly_moveRods, of ?t st] assms(2,3) by simp_all
  have lm: "curtainLinked lc la lno ls rc ra rno rs ?m"
    using assms(4) by (simp add: curtainLinked_moveRods)
  have l1: "curtainLinked lc la lno ls rc ra rno rs ?m1" by (rule step_linked [OF lm assms(7)])
  note sl = stepAndSync_linked(1) [OF lm assms(7) pm, of dt ?t]
  show "fst (animate L dt st) = Inr ()" using animate_done [OF assms(1) rd sl] by simp
  note st = animate_stores [OF assms(1,2,3), of L dt]
  from assistAndSync_attrs [OF l1, of L ?t]
  obtain nl nr where n:
    "map m_x nl = map m_x (m_nodes (soft ?m1 ! ls))"
    "map m_x nr = map m_x (m_nodes (soft ?m1 ! rs))"
    "map m_x (m_nodes (soft (snd (assistAndSync L ?t ?m1)) ! ls)) = map m_x nl"
    "map m_x (m_nodes (soft (snd (assistAndSync L ?t ?m1)) ! rs)) = map m_x nr"
    "attrs (snd (assistAndSync L ?t ?m1)) = synced L ra rno nr (synced L la lno nl (attrs ?m1))"
    by blast
  have at: "attrs ?m1 = attrs st" by (simp add: moveRods_unchanged)
  have a: "attrs ?s = synced L ra rno nr (synced L la lno nl (attrs st))"
    unfolding st(1) n(5) at ..
  have sn: "steppedNodes L dt w ls ?m = m_nodes (soft ?m1 ! ls)"
    "steppedNodes L dt w rs ?m = m_nodes (soft ?m1 ! rs)"
    by (simp_all add: steppedNodes_def)
  note nd0 = curtainLinked_nodes(1,2) [OF assms(4)]
  note nd1 = curtainLinked_nodes(1,2) [OF l1]
  have ln: "length nl = length (m_nodes (soft ?m1 ! ls))" "length nr = length (m_nodes (soft ?m1 ! rs))"
    using arg_cong [OF n(1), of length] arg_cong [OF n(2), of length] by simp_all
  have ib: "i < length nl" "i' < length nr"
    using assms(8,9) ln nd0 nd1 by simp_all
  have b: "la < length (attrs st)" "lno < length (attrs st)" "ra < length (attrs st)"
    "rno < length (attrs st)" "la \<noteq> lno" "ra \<noteq> rno" "la \<noteq> ra" "la \<noteq> rno" "lno \<noteq> ra"
    "lno \<noteq> rno"
    using assms(4) by (simp_all add: curtainLinked_def curtainBuffers_def bufferLinked_def)
  have len: "length (array (attrs st ! la)) = 3 * length nl"
    "length (array (attrs st ! ra)) = 3 * length nr"
    using l1 ln by (simp_all add: curtainLinked_def bodyLinked_def at [symmetric])
  note d = double_synced [OF b len, where L = L]
  have xl: "m_x (nl ! i) = m_x (m_nodes (soft ?m1 ! ls) ! i)"
    using arg_cong [OF n(1), of "\<lambda>xs. xs ! i"] ib(1) ln(1) by simp
  have xr: "m_x (nr ! i') = m_x (m_nodes (soft ?m1 ! rs) ! i')"
    using arg_cong [OF n(2), of "\<lambda>xs. xs ! i'"] ib(2) ln(2) by simp
  have fl: "m_x (m_nodes (soft ?s ! ls) ! i) = m_x (nl ! i)"
  proof -
    have e: "map m_x (m_nodes (soft ?s ! ls)) = map m_x nl" unfolding st(2) by (rule n(3))
    have "length (m_nodes (soft ?s ! ls)) = length nl" using arg_cong [OF e, of length] by simp
    then show ?thesis using arg_cong [OF e, of "\<lambda>xs. xs ! i"] ib(1) by simp
  qed
  have fr: "m_x (m_nodes (soft ?s ! rs) ! i') = m_x (nr ! i')"
  proof -
    have e: "map m_x (m_nodes (soft ?s ! rs)) = map m_x nr" unfolding st(2) by (rule n(4))
    have "length (m_nodes (soft ?s ! rs)) = length nr" using arg_cong [OF e, of length] by simp
    then show ?thesis using arg_cong [OF e, of "\<lambda>xs. xs ! i'"] ib(2) by simp
  qed
  show "triplet (array (attrs ?s ! la)) i = m_x (steppedNodes L dt w ls ?m ! i)"
    unfolding a sn using d(3) [OF ib(1)] xl by simp
  show "triplet (array (attrs ?s ! la)) i = m_x (m_nodes (soft ?s ! ls) ! i)"
    unfolding a using d(3) [OF ib(1)] fl [unfolded a] by simp
  show "length (array (attrs ?s ! la)) = 3 * length (steppedNodes L dt w ls ?m)"
    unfolding a sn using d(1) ln(1) by simp
  show "array (attrs ?s ! lno)
          = computeVertexNormals L (PlaneGeometry la lno) (array (attrs ?s ! la))"
    unfolding a by (rule d(5))
  show "needsUpdate (attrs ?s ! la)" unfolding a by (rule d(7))
  show "needsUpdate (attrs ?s ! lno)" unfolding a by (rule d(8))
  show "triplet (array (attrs ?s ! ra)) i' = m_x (steppedNodes L dt w rs ?m ! i')"
    unfolding a sn using d(4) [OF ib(2)] xr by simp
  show "triplet (array (attrs ?s ! ra)) i' = m_x (m_nodes (soft ?s ! rs) ! i')"
    unfolding a using d(4) [OF ib(2)] fr [unfolded a] by simp
  show "length (array (attrs ?s ! ra)) = 3 * length (steppedNodes L dt w rs ?m)"
    unfolding a sn using d(2) ln(2) by simp
  show "array (attrs ?s ! rno)
          = computeVertexNormals L (PlaneGeometry ra rno) (array (attrs ?s ! ra))"
    unfolding a by (rule d(6))
  show "needsUpdate (attrs ?s ! ra)" unfolding a by (rule d(9))
  show "needsUpdate (attrs ?s ! rno)" unfolding a by (rule d(10))
  show "k \<noteq> la \<and> k \<noteq> lno \<and> k \<noteq> ra \<and> k \<noteq> rno \<longrightarrow> attrs ?s ! k = attrs st ! k"
    unfolding a using d(11) [of k] by simp
next
  let ?c = "snd (cloth_animate L dt ct)"
  let ?ns = "steppedNodes L dt cw cs ct"
  note cs = cloth_animate_stores [OF assms(5,7,6), of dt]
  have a: "attrs ?c = synced L ca cn ?ns (attrs ct)" unfolding cs(1) steppedNodes_def ..
  have so: "m_nodes (soft ?c ! cs) = ?ns" unfolding cs(2) steppedNodes_def ..
  let ?ct1 = "ct\<lparr>rigid := fst (stepSimulation L dt 10 cw (rigid ct, soft ct)),
               soft := snd (stepSimulation L dt 10 cw (rigid ct, soft ct)),
               engineLog := engineLog ct\<rparr>"
  have l1: "clothLinked cm ca cn cs ?ct1" by (rule cloth_step_linked [OF assms(5,7)])
  have b: "ca < length (attrs ct)" "cn < length (attrs ct)" "ca \<noteq> cn"
    using assms(5) by (simp_all add: clothLinked_def clothBuffers_def bufferLinked_def)
  have len: "length (array (attrs ct ! ca)) = 3 * length ?ns"
    using l1 by (simp add: clothLinked_def bodyLinked_def steppedNodes_def)
  have len0: "length (array (attrs ct ! ca)) = 3 * length (m_nodes (soft ct ! cs))"
    using assms(5) by (simp add: clothLinked_def bodyLinked_def)
  have jb: "j < length ?ns" using assms(10) len len0 by simp
  note p = synced_post [OF b len, where L = L]
  show "triplet (array (attrs ?c ! ca)) j = m_x (steppedNodes L dt cw cs ct ! j)"
    unfolding a by (rule p(2) [OF jb])
  show "triplet (array (attrs ?c ! ca)) j = m_x (m_nodes (soft ?c ! cs) ! j)"
    unfolding so unfolding a by (rule p(2) [OF jb])
  show "length (array (attrs ?c ! ca)) = 3 * length (steppedNodes L dt cw cs ct)"
    unfolding a by (rule p(1))
  show "array (attrs ?c ! cn)
          = computeVertexNormals L (PlaneGeometry ca cn) (array (attrs ?c ! ca))"
    unfolding a by (rule p(3))
  show "needsUpdate (attrs ?c ! ca)" unfolding a by (rule p(4))
  show "needsUpdate (attrs ?c ! cn)" unfolding a by (rule p(5))
  show "k \<noteq> ca \<and> k \<noteq> cn \<longrightarrow> attrs ?c ! k = attrs ct ! k"
    unfolding a by (rule p(6))
qed (simp_all only: others_keep_attrs)

lemma stale_linked:
  "curtainLinked lc la lno ls rc ra rno rs st \<Longrightarrow> curtainLinked lc la lno ls rc ra rno rs (stale st)"
  "clothLinked m a n sb ct \<Longrightarrow> clothLinked m a n sb (stale ct)"
  by (auto simp add: stale_def curtainLinked_def curtainBuffers_def clothLinked_def
      clothBuffers_def bufferLinked_def bodyLinked_def)

lemma stale_triplet:
  assumes "a < length (attrs st)" "2 < length (array (attrs st ! a))"
  shows "triplet (array (attrs (stale st) ! a)) 0 = (0, 0, 0)"
    and "\<not> needsUpdate (attrs (stale st) ! a)"
proof -
  have "0 < length (array (attrs st ! a))" "1 < length (array (attrs st ! a))"
    using assms(2) by linarith+
  then show "triplet (array (attrs (stale st) ! a)) 0 = (0, 0, 0)"
    using assms by (simp add: stale_def triplet_def)
  show "\<not> needsUpdate (attrs (stale st) ! a)" using assms(1) by (simp add: stale_def)
qed

lemma stale_clean: "a < length (attrs st) \<Longrightarrow> \<not> needsUpdate (attrs (stale st) ! a)"
  by (simp add: stale_def)

lemma stir_nodes:
  assumes "s < length (soft st)" "i < length (m_nodes (soft st ! s))"
  shows "m_x (steppedNodes stir dt w s st ! i) = (5, 6, 7)"
  using assms by (simp add: steppedNodes_def stir_def)

theorem frame_copies_nodes_witness:
  "triplet (array (attrs (stale (built 1280 720 1 300)) ! 0)) 0 = (0, 0, 0)
   \<and> \<not> needsUpdate (attrs (stale (built 1280 720 1 300)) ! 0)
   \<and> \<not> needsUpdate (attrs (stale (built 1280 720 1 300)) ! 1)
   \<and> triplet (array (attrs (snd (animate stir (1 / 60) (stale (built 1280 720 1 300)))) ! 0)) 0
       = (5, 6, 7)
   \<and> triplet (array (attrs (snd (animate stir (1 / 60) (stale (built 1280 720 1 300)))) ! 2)) 0
       = (5, 6, 7)
   \<and> needsUpdate (attrs (snd (animate stir (1 / 60) (stale (built 1280 720 1 300)))) ! 0)
   \<and> needsUpdate (attrs (snd (animate stir (1 / 60) (stale (built 1280 720 1 300)))) ! 1)
   \<and> triplet (array (attrs (stale (clothBuilt stir 1280 720 1)) ! 0)) 0 = (0, 0, 0)
   \<and> \<not> needsUpdate (attrs (stale (clothBuilt stir 1280 720 1)) ! 0)
   \<and> triplet (array (attrs (snd (cloth_animate stir (1 / 60)
                                     (stale (clothBuilt stir 1280 720 1)))) ! 0)) 0
       = (5, 6, 7)
   \<and> needsUpdate (attrs (snd (cloth_animate stir (1 / 60)
                                 (stale (clothBuilt stir 1280 720 1)))) ! 0)
   \<and> needsUpdate (attrs (snd (cloth_animate stir (1 / 60)
                                 (stale (clothBuilt stir 1280 720 1)))) ! 1)"
proof -
  let ?b = "built 1280 720 1 300"
  let ?S = "stale ?b"
  let ?k = "clothBuilt stir 1280 720 1"
  let ?C = "stale ?k"
  let ?t = "easeOutCubic (scrollProgress ?S)"
  note bf = built_facts [of 1280 720 1 300]
  note kf = clothBuilt_facts [of stir 1280 720 1]
  obtain w where w: "physicsWorld ?b = Some w" using bf(3) by auto
  obtain cw where cw: "physicsWorld ?k = Some cw" using kf(4) by auto
  have h: "graphicsReady ?S" "AmmoLib ?S" "physicsWorld ?S = Some w"
    using bf(1,2) w by (simp_all add: stale_def graphicsReady_def)
  have hc: "physicsWorld ?C = Some cw" using cw by (simp add: stale_def)
  note l = stale_linked(1) [OF bf(4)]
  note lc = stale_linked(2) [OF kf(1)]
  note nb = curtainLinked_nodes [OF bf(4)]
  have ab: "0 < length (attrs ?b)" "1 < length (attrs ?b)"
    "length (array (attrs ?b ! 0)) = (segX + 1) * (segY + 1) * 3"
    using bf(4) by (simp_all add: curtainLinked_def curtainBuffers_def bufferLinked_def)
  have ak: "0 < length (attrs ?k)" "1 < length (attrs ?k)"
    "length (array (attrs ?k ! 0)) = (clothNumSegmentsZ + 1) * (clothNumSegmentsY + 1) * 3"
    "0 < length (soft ?k)"
    using kf(1) by (simp_all add: clothLinked_def clothBuffers_def bufferLinked_def bodyLinked_def)
  have sS: "soft ?S = soft ?b" "soft ?C = soft ?k" by (simp_all add: stale_def)
  have i0: "0 < length (m_nodes (soft ?S ! 0))" "0 < length (m_nodes (soft ?S ! 1))"
    using nb(1,2) by (simp_all add: sS segX_def segY_def)
  have j0: "0 < length (m_nodes (soft ?C ! 0))"
    using kf(11) by (simp add: sS clothNumSegmentsZ_def clothNumSegmentsY_def clothWidth_def
        clothHeight_def)
  have before: "triplet (array (attrs ?S ! 0)) 0 = (0, 0, 0)"
    "\<not> needsUpdate (attrs ?S ! 0)" "\<not> needsUpdate (attrs ?S ! 1)"
    "triplet (array (attrs ?C ! 0)) 0 = (0, 0, 0)" "\<not> needsUpdate (attrs ?C ! 0)"
    using stale_triplet [OF ab(1)] stale_clean [OF ab(2)] stale_triplet [OF ak(1)] ab(3) ak(3)
    by (simp_all add: segX_def segY_def clothNumSegmentsZ_def clothNumSegmentsY_def
        clothWidth_def clothHeight_def)
  have ms: "soft (moveRods ?t ?S) = soft ?S" by (simp add: moveRods_unchanged)
  have st: "m_x (steppedNodes stir (1 / 60) w 0 (moveRods ?t ?S) ! 0) = (5, 6, 7)"
    "m_x (steppedNodes stir (1 / 60) w 1 (moveRods ?t ?S) ! 0) = (5, 6, 7)"
    "m_x (steppedNodes stir (1 / 60) cw 0 ?C ! 0) = (5, 6, 7)"
    using nb(3,4) i0 j0 ak(4) by (simp_all add: stir_nodes ms sS)
  from frame_copies_nodes [OF h l lc hc keepsShape_stir i0 j0, where dt = "1 / 60"]
  show ?thesis using before st by simp
qed

end
